theory Spec2Isabelle
  imports Complex_Main "HOL-Library.Word" "HOL-Library.Log_Nat"
begin

section \<open>JavaScript strings\<close>

text \<open>
  A JavaScript string is a sequence of 16-bit code units. Literals of the source are
  written \<open>js ''...''\<close>; every character of such a literal is one code unit.
\<close>

type_synonym code_unit = "16 word"
type_synonym jsstring = "code_unit list"

definition ch :: "char \<Rightarrow> code_unit" where
  "ch c = of_nat (of_char c)"

definition js :: "string \<Rightarrow> jsstring" where
  "js s = map ch s"

text \<open>The code units that ECMAScript counts as WhiteSpace or LineTerminator.\<close>

definition isWhiteSpace :: "code_unit \<Rightarrow> bool" where
  "isWhiteSpace c \<longleftrightarrow>
     c = 0x9 \<or> c = 0xA \<or> c = 0xB \<or> c = 0xC \<or> c = 0xD \<or> c = 0x20 \<or> c = 0xA0 \<or>
     c = 0x1680 \<or> (0x2000 \<le> c \<and> c \<le> 0x200A) \<or> c = 0x2028 \<or> c = 0x2029 \<or>
     c = 0x202F \<or> c = 0x205F \<or> c = 0x3000 \<or> c = 0xFEFF"

definition trimStart :: "jsstring \<Rightarrow> jsstring" where
  "trimStart s = dropWhile isWhiteSpace s"

text \<open>\<^verbatim>\<open>String.prototype.trim\<close>.\<close>

definition trim :: "jsstring \<Rightarrow> jsstring" where
  "trim s = rev (dropWhile isWhiteSpace (rev (dropWhile isWhiteSpace s)))"

definition isDigit :: "code_unit \<Rightarrow> bool" where
  "isDigit c \<longleftrightarrow> 0x30 \<le> c \<and> c \<le> 0x39"

definition digitValue :: "code_unit \<Rightarrow> nat" where
  "digitValue c = unat c - 48"

definition digitsValue :: "jsstring \<Rightarrow> nat" where
  "digitsValue ds = foldl (\<lambda>a c. 10 * a + digitValue c) 0 ds"

text \<open>The decimal representation of a natural number, most significant digit first.\<close>

fun decimalDigits :: "nat \<Rightarrow> jsstring" where
  "decimalDigits n =
     (if n < 10 then [of_nat (48 + n)] else decimalDigits (n div 10) @ [of_nat (48 + n mod 10)])"

declare decimalDigits.simps [simp del]

definition zeros :: "nat \<Rightarrow> jsstring" where
  "zeros n = replicate n (ch CHR ''0'')"

definition isHexDigit :: "code_unit \<Rightarrow> bool" where
  "isHexDigit c \<longleftrightarrow>
     (0x30 \<le> c \<and> c \<le> 0x39) \<or> (0x61 \<le> c \<and> c \<le> 0x66) \<or> (0x41 \<le> c \<and> c \<le> 0x46)"

definition hexDigitValue :: "code_unit \<Rightarrow> nat" where
  "hexDigitValue c =
     (if c \<le> 0x39 then unat c - 0x30
      else if 0x61 \<le> c then unat c - 0x61 + 10
      else unat c - 0x41 + 10)"

definition isRadixDigit :: "nat \<Rightarrow> code_unit \<Rightarrow> bool" where
  "isRadixDigit R c \<longleftrightarrow> isHexDigit c \<and> hexDigitValue c < R"

definition radixValue :: "nat \<Rightarrow> jsstring \<Rightarrow> nat" where
  "radixValue R ds = foldl (\<lambda>a c. R * a + hexDigitValue c) 0 ds"

section \<open>JavaScript numbers\<close>

text \<open>
  A Number is an IEEE 754 binary64 value. A finite one is kept as the real number it
  denotes; the two zeros are one value \<open>Fin 0\<close>, since nothing this program does with a
  number tells them apart (\<^verbatim>\<open>toFixed\<close> and \<^verbatim>\<open>toString\<close> print both as zero, the
  comparisons and \<^verbatim>\<open>isNaN\<close> treat them alike, and adding one gives one).
  \<open>to_number\<close> is the rounding of a real to the nearest binary64 value, ties to the even
  significand, with overflow to infinity; it is the conversion of a mathematical value to a Number value
  in ECMAScript.
\<close>

datatype number = NaN | PosInf | NegInf | Fin real

text \<open>\<open>ilog2 q\<close> is the \<open>e\<close> with \<open>2^e \<le> q < 2^(e+1)\<close>, for positive \<open>q\<close>.\<close>

definition ilog2 :: "real \<Rightarrow> int" where
  "ilog2 q =
     (if 1 \<le> q then bitlen \<lfloor>q\<rfloor> - 1
      else (let f = bitlen \<lfloor>1 / q\<rfloor> - 1 in if 1 / q = 2 powi f then - f else - f - 1))"

definition round_half_even :: "real \<Rightarrow> int" where
  "round_half_even r =
     (let f = \<lfloor>r\<rfloor>; d = r - of_int f in
      if d < 1 / 2 then f else if 1 / 2 < d then f + 1 else if even f then f else f + 1)"

text \<open>
  A positive real is rounded on the grid of its binade: 53 significant bits, and the
  grid of the subnormals (\<open>2^-1074\<close>) below \<open>2^-1022\<close>.
\<close>

definition round_pos :: "real \<Rightarrow> number" where
  "round_pos q =
     (let p = max (ilog2 q) (- 1022) - 52;
          v = of_int (round_half_even (q / 2 powi p)) * 2 powi p
      in if 2 ^ 1024 \<le> v then PosInf else Fin v)"

fun negate :: "number \<Rightarrow> number" where
  "negate NaN = NaN"
| "negate PosInf = NegInf"
| "negate NegInf = PosInf"
| "negate (Fin v) = Fin (- v)"

definition to_number :: "real \<Rightarrow> number" where
  "to_number q =
     (if q = 0 then Fin 0 else if 0 < q then round_pos q else negate (round_pos (- q)))"

text \<open>
  Two notions for the proofs: \<open>rnd q\<close> is the rounding of a positive real on the grid of
  its binade, before the overflow test, and \<open>is_double v\<close> says that \<open>v\<close> is an integer
  of at most 53 bits times a power of two that is not below \<open>2^-1074\<close>.
\<close>

definition rnd :: "real \<Rightarrow> real" where
  "rnd q = (let p = max (ilog2 q) (- 1022) - 52
            in of_int (round_half_even (q / 2 powi p)) * 2 powi p)"

definition is_double :: "real \<Rightarrow> bool" where
  "is_double v \<longleftrightarrow> (\<exists>m p. v = of_int m * 2 powi p \<and> \<bar>m\<bar> \<le> 2 ^ 53 \<and> - 1074 \<le> p)"

fun Number_add :: "number \<Rightarrow> number \<Rightarrow> number" where
  "Number_add NaN y = NaN"
| "Number_add x NaN = NaN"
| "Number_add PosInf NegInf = NaN"
| "Number_add NegInf PosInf = NaN"
| "Number_add PosInf y = PosInf"
| "Number_add NegInf y = NegInf"
| "Number_add x PosInf = PosInf"
| "Number_add x NegInf = NegInf"
| "Number_add (Fin a) (Fin b) = to_number (a + b)"

fun Number_lessThan :: "number \<Rightarrow> number \<Rightarrow> bool" where
  "Number_lessThan NaN y = False"
| "Number_lessThan x NaN = False"
| "Number_lessThan x NegInf = False"
| "Number_lessThan PosInf y = False"
| "Number_lessThan NegInf y = True"
| "Number_lessThan x PosInf = True"
| "Number_lessThan (Fin a) (Fin b) = (a < b)"

text \<open>\<^verbatim>\<open>x <= y\<close>: false when either side is NaN, otherwise the negation of \<^verbatim>\<open>y < x\<close>.\<close>

definition Number_lessEqual :: "number \<Rightarrow> number \<Rightarrow> bool" where
  "Number_lessEqual x y \<longleftrightarrow> x \<noteq> NaN \<and> y \<noteq> NaN \<and> \<not> Number_lessThan y x"

definition isNaN :: "number \<Rightarrow> bool" where
  "isNaN x \<longleftrightarrow> x = NaN"

subsection \<open>parseFloat\<close>

text \<open>
  \<^verbatim>\<open>parseFloat\<close> skips leading white space, takes the longest prefix that is a
  \<open>StrDecimalLiteral\<close> (an optional sign, then \<^verbatim>\<open>Infinity\<close> or decimal digits with an
  optional fraction and an optional exponent; an exponent counts only when it has a
  digit) and returns the Number nearest to its mathematical value, or NaN when there is
  no such prefix. (For a literal of more than 20 significant digits ECMAScript lets an
  engine round from the first 20 digits; the model rounds the exact value.)
\<close>

definition scanExponent :: "jsstring \<Rightarrow> int" where
  "scanExponent r =
     (case r of
        [] \<Rightarrow> 0
      | c # r1 \<Rightarrow>
          if c = ch CHR ''e'' \<or> c = ch CHR ''E'' then
            (case r1 of
               [] \<Rightarrow> 0
             | d # r2 \<Rightarrow>
                 if d = ch CHR ''+'' then
                   (if takeWhile isDigit r2 = [] then 0
                    else int (digitsValue (takeWhile isDigit r2)))
                 else if d = ch CHR ''-'' then
                   (if takeWhile isDigit r2 = [] then 0
                    else - int (digitsValue (takeWhile isDigit r2)))
                 else if takeWhile isDigit r1 = [] then 0
                 else int (digitsValue (takeWhile isDigit r1)))
          else 0)"

datatype math_value = MVInfinity | MV real

definition decimalMV :: "jsstring \<Rightarrow> jsstring \<Rightarrow> int \<Rightarrow> math_value" where
  "decimalMV ip fp e = MV (real (digitsValue (ip @ fp)) * 10 powi (e - int (length fp)))"

definition StrUnsignedDecimalLiteral :: "jsstring \<Rightarrow> math_value option" where
  "StrUnsignedDecimalLiteral s =
     (if take 8 s = js ''Infinity'' then Some MVInfinity
      else
        let ip = takeWhile isDigit s; r1 = dropWhile isDigit s in
        (case r1 of
           [] \<Rightarrow> if ip = [] then None else Some (decimalMV ip [] 0)
         | c # r2 \<Rightarrow>
             if c = ch CHR ''.'' then
               (let fp = takeWhile isDigit r2; r3 = dropWhile isDigit r2 in
                if ip = [] \<and> fp = [] then None else Some (decimalMV ip fp (scanExponent r3)))
             else if ip = [] then None
             else Some (decimalMV ip [] (scanExponent r1))))"

fun signedNumber :: "bool \<Rightarrow> math_value option \<Rightarrow> number" where
  "signedNumber neg None = NaN"
| "signedNumber neg (Some MVInfinity) = (if neg then NegInf else PosInf)"
| "signedNumber neg (Some (MV q)) = (if neg then negate (to_number q) else to_number q)"

definition parseFloat :: "jsstring \<Rightarrow> number" where
  "parseFloat string =
     (case trimStart string of
        [] \<Rightarrow> NaN
      | c # r \<Rightarrow>
          if c = ch CHR ''+'' then signedNumber False (StrUnsignedDecimalLiteral r)
          else if c = ch CHR ''-'' then signedNumber True (StrUnsignedDecimalLiteral r)
          else signedNumber False (StrUnsignedDecimalLiteral (c # r)))"

subsection \<open>parseInt\<close>

text \<open>
  \<^verbatim>\<open>parseInt\<close> with no radix: leading white space and a sign are skipped, a
  \<^verbatim>\<open>0x\<close> prefix selects radix 16, the digits that follow are read as an integer and
  the integer is rounded to a Number.
\<close>

definition parseInt :: "jsstring \<Rightarrow> number" where
  "parseInt string =
     (let S = trimStart string;
          neg = (S \<noteq> [] \<and> hd S = ch CHR ''-'');
          S1 = (if S \<noteq> [] \<and> (hd S = ch CHR ''+'' \<or> hd S = ch CHR ''-'') then tl S else S);
          hex = (take 2 S1 = js ''0x'' \<or> take 2 S1 = js ''0X'');
          R = (if hex then 16 else 10);
          S2 = (if hex then drop 2 S1 else S1);
          Z = takeWhile (isRadixDigit R) S2
      in if Z = [] then NaN
         else if neg then negate (to_number (real (radixValue R Z)))
         else to_number (real (radixValue R Z)))"

subsection \<open>Number to string\<close>

text \<open>
  \<^verbatim>\<open>Number::toString\<close> takes the integers \<open>n\<close>, \<open>k\<close> and \<open>s\<close> with \<open>k \<ge> 1\<close>,
  \<open>10^(k-1) \<le> s < 10^k\<close> and \<open>s * 10^(n-k)\<close> rounding to the Number, with \<open>k\<close> as small as
  possible and, among those, \<open>s * 10^(n-k)\<close> closest to the Number (the even \<open>s\<close> on a
  tie). For a given \<open>k\<close> and \<open>n\<close> only the two integers around \<open>v / 10^(n-k)\<close> can be
  closest, and \<open>n\<close> is the number of integer digits of \<open>v\<close> or one more. The search over
  \<open>k\<close> stops at 800: the exact decimal expansion of a binary64 value has at most 767
  significant digits.
\<close>

definition integerDigitCount :: "real \<Rightarrow> int" where
  "integerDigitCount v =
     (if 1 \<le> v then int (length (decimalDigits (nat \<lfloor>v\<rfloor>)))
      else 1 - int (length (decimalDigits (nat (\<lceil>1 / v\<rceil> - 1)))))"

definition digitCandidates :: "real \<Rightarrow> nat \<Rightarrow> int \<Rightarrow> (int \<times> int) list" where
  "digitCandidates v k n =
     (let t = \<lfloor>v / 10 powi (n - int k)\<rfloor> in
      map (\<lambda>s. (n, s))
        (filter (\<lambda>s. 10 ^ (k - 1) \<le> s \<and> s < 10 ^ k \<and>
                      to_number (of_int s * 10 powi (n - int k)) = Fin v)
           [t, t + 1]))"

definition closer :: "real \<Rightarrow> nat \<Rightarrow> int \<times> int \<Rightarrow> int \<times> int \<Rightarrow> int \<times> int" where
  "closer v k a b =
     (let da = \<bar>of_int (snd a) * 10 powi (fst a - int k) - v\<bar>;
          db = \<bar>of_int (snd b) * 10 powi (fst b - int k) - v\<bar>
      in if da < db then a else if db < da then b else if even (snd a) then a else b)"

fun closest :: "real \<Rightarrow> nat \<Rightarrow> (int \<times> int) list \<Rightarrow> (int \<times> int) option" where
  "closest v k [] = None"
| "closest v k (a # as) =
     (case closest v k as of None \<Rightarrow> Some a | Some b \<Rightarrow> Some (closer v k a b))"

function shortestDigits :: "real \<Rightarrow> int \<Rightarrow> nat \<Rightarrow> (int \<times> nat \<times> int) option" where
  "shortestDigits v n0 k =
     (if 800 < k then None
      else (case closest v k (digitCandidates v k n0 @ digitCandidates v k (n0 + 1)) of
              Some (n, s) \<Rightarrow> Some (n, k, s)
            | None \<Rightarrow> shortestDigits v n0 (Suc k)))"
  by pat_completeness auto
termination
  by (relation "measure (\<lambda>(v, n0, k). 801 - k)") auto

declare shortestDigits.simps [simp del]

definition formatDigits :: "int \<Rightarrow> nat \<Rightarrow> int \<Rightarrow> jsstring" where
  "formatDigits n k s =
     (let ds = decimalDigits (nat s) in
      if int k \<le> n \<and> n \<le> 21 then ds @ zeros (nat (n - int k))
      else if 0 < n \<and> n \<le> 21 then take (nat n) ds @ js ''.'' @ drop (nat n) ds
      else if - 6 < n \<and> n \<le> 0 then js ''0.'' @ zeros (nat (- n)) @ ds
      else
        (let e = n - 1;
             sign = (if e < 0 then js ''-'' else js ''+'');
             ex = decimalDigits (nat \<bar>e\<bar>)
         in if k = 1 then ds @ js ''e'' @ sign @ ex
            else take 1 ds @ js ''.'' @ drop 1 ds @ js ''e'' @ sign @ ex))"

fun NumberToString :: "number \<Rightarrow> jsstring" where
  "NumberToString NaN = js ''NaN''"
| "NumberToString PosInf = js ''Infinity''"
| "NumberToString NegInf = js ''-Infinity''"
| "NumberToString (Fin v) =
     (if v = 0 then js ''0''
      else
        (case shortestDigits \<bar>v\<bar> (integerDigitCount \<bar>v\<bar>) 1 of
           None \<Rightarrow> []
         | Some (n, k, s) \<Rightarrow> (if v < 0 then js ''-'' else []) @ formatDigits n k s))"

subsection \<open>toFixed\<close>

text \<open>
  \<^verbatim>\<open>Number.prototype.toFixed\<close> with \<open>f\<close> fraction digits, for \<open>f\<close> up to 100 (beyond
  that JavaScript raises a RangeError; the program passes 7). The integer \<open>n\<close> with
  \<open>n / 10^f\<close> closest to the value, the larger one on a tie, is \<open>\<lfloor>x * 10^f + 1/2\<rfloor>\<close>.
  The sign is printed when the value is below zero, also when \<open>n\<close> is zero.
\<close>

definition fixedDigits :: "nat \<Rightarrow> nat \<Rightarrow> jsstring" where
  "fixedDigits n f =
     (let m = decimalDigits n in
      if f = 0 then m
      else
        (let m' = (if length m \<le> f then zeros (f + 1 - length m) @ m else m);
             k = length m'
         in take (k - f) m' @ js ''.'' @ drop (k - f) m'))"

fun toFixed :: "number \<Rightarrow> nat \<Rightarrow> jsstring" where
  "toFixed (Fin v) f =
     (let s = (if v < 0 then js ''-'' else []); x = \<bar>v\<bar> in
      if 10 ^ 21 \<le> x then s @ NumberToString (Fin x)
      else s @ fixedDigits (nat \<lfloor>x * 10 ^ f + 1 / 2\<rfloor>) f)"
| "toFixed x f = NumberToString x"

subsection \<open>BigInt\<close>

text \<open>
  \<^verbatim>\<open>BigInt(string)\<close>: after trimming, the empty string is 0; otherwise the string
  must be a decimal integer with an optional sign, or an unsigned integer with a
  \<^verbatim>\<open>0x\<close>, \<^verbatim>\<open>0o\<close> or \<^verbatim>\<open>0b\<close> prefix. Anything else raises a SyntaxError.
\<close>

definition StringToBigInt :: "jsstring \<Rightarrow> int option" where
  "StringToBigInt str =
     (let t = trim str in
      if t = [] then Some 0
      else if take 2 t = js ''0x'' \<or> take 2 t = js ''0X'' then
        (if drop 2 t \<noteq> [] \<and> list_all (isRadixDigit 16) (drop 2 t)
         then Some (int (radixValue 16 (drop 2 t))) else None)
      else if take 2 t = js ''0o'' \<or> take 2 t = js ''0O'' then
        (if drop 2 t \<noteq> [] \<and> list_all (isRadixDigit 8) (drop 2 t)
         then Some (int (radixValue 8 (drop 2 t))) else None)
      else if take 2 t = js ''0b'' \<or> take 2 t = js ''0B'' then
        (if drop 2 t \<noteq> [] \<and> list_all (isRadixDigit 2) (drop 2 t)
         then Some (int (radixValue 2 (drop 2 t))) else None)
      else if hd t = ch CHR ''+'' then
        (if tl t \<noteq> [] \<and> list_all isDigit (tl t) then Some (int (digitsValue (tl t))) else None)
      else if hd t = ch CHR ''-'' then
        (if tl t \<noteq> [] \<and> list_all isDigit (tl t) then Some (- int (digitsValue (tl t))) else None)
      else if list_all isDigit t then Some (int (digitsValue t))
      else None)"

text \<open>
  A thrown value is an error object; the program reads its \<^verbatim>\<open>message\<close> and, for the
  errors of a failed request, \<^verbatim>\<open>response.status\<close>.
\<close>

datatype error = Error (message: jsstring) (status: "nat option")

definition BigInt :: "jsstring \<Rightarrow> error + int" where
  "BigInt v =
     (case StringToBigInt v of
        None \<Rightarrow> Inl (Error (js ''Cannot convert '' @ v @ js '' to a BigInt'') None)
      | Some i \<Rightarrow> Inr i)"

section \<open>The SDK and the world\<close>

text \<open>
  The memo, operation and transaction objects of the Stellar SDK, as far as the program
  fills them in. The SDK itself is not part of the repository: its calls that can throw
  are parameters (\<open>sdk\<close>). A constructor either throws or returns the object holding
  the arguments it was given. \<open>TransactionBuilder_build\<close> is \<^verbatim>\<open>build()\<close>: it throws, or
  returns the state in which it leaves the source account object that the builder was
  created with.
\<close>

datatype memo_type = MemoText | MemoId | MemoHash | MemoReturn

datatype memo = Memo (memo_type: memo_type) (memo_value: jsstring)

datatype asset = Native

datatype operation =
    CreateAccount (op_destination: jsstring) (op_amount: jsstring)
  | Payment (op_destination: jsstring) (op_asset: asset) (op_amount: jsstring)

record account =
  accountId :: jsstring
  sequence :: jsstring

record transaction =
  tx_source :: account
  tx_fee :: jsstring
  tx_networkPassphrase :: jsstring
  tx_operations :: "operation list"
  tx_timeout :: nat
  tx_memo :: "memo option"

record sdk =
  Keypair_fromPublicKey :: "jsstring \<Rightarrow> error option"
  Memo_validate :: "memo \<Rightarrow> error option"
  Operation_validate :: "operation \<Rightarrow> error option"
  TransactionBuilder_build :: "transaction \<Rightarrow> error + account"
  Transaction_toXDR :: "transaction \<Rightarrow> jsstring"

text \<open>
  The world the program runs in: the lines the user will type, the lines written to the
  console, the accounts that exist on the network behind each Horizon URL, and the
  requests that fail for another reason (\<open>failures w i\<close> is the error of the \<open>i\<close>-th
  request, if it fails). A request for an account that does not exist is answered with
  status 404.
\<close>

record world =
  answers :: "jsstring list"
  console :: "jsstring list"
  accounts :: "jsstring \<Rightarrow> jsstring \<rightharpoonup> account"
  failures :: "nat \<Rightarrow> error option"
  requests :: nat

text \<open>
  An asynchronous function returns, throws, or waits for ever for an answer that never
  comes (\<open>Pending\<close>, when the input has ended).
\<close>

datatype 'a outcome = Returns 'a | Throws error | Pending

type_synonym 'a io = "world \<Rightarrow> 'a outcome \<times> world"

definition io_return :: "'a \<Rightarrow> 'a io" where
  "io_return a w = (Returns a, w)"

definition io_throw :: "error \<Rightarrow> 'a io" where
  "io_throw e w = (Throws e, w)"

definition io_bind :: "'a io \<Rightarrow> ('a \<Rightarrow> 'b io) \<Rightarrow> 'b io" where
  "io_bind m f w =
     (case m w of
        (Returns a, w1) \<Rightarrow> f a w1
      | (Throws e, w1) \<Rightarrow> (Throws e, w1)
      | (Pending, w1) \<Rightarrow> (Pending, w1))"

definition io_catch :: "'a io \<Rightarrow> (error \<Rightarrow> 'a io) \<Rightarrow> 'a io" where
  "io_catch m h w =
     (case m w of
        (Throws e, w1) \<Rightarrow> h e w1
      | r \<Rightarrow> r)"

definition io_of :: "error + 'a \<Rightarrow> 'a io" where
  "io_of r w = (case r of Inl e \<Rightarrow> (Throws e, w) | Inr a \<Rightarrow> (Returns a, w))"

definition io_check :: "error option \<Rightarrow> unit io" where
  "io_check r w = (case r of Some e \<Rightarrow> (Throws e, w) | None \<Rightarrow> (Returns (), w))"

definition console_log :: "jsstring \<Rightarrow> unit io" where
  "console_log line w = (Returns (), w\<lparr>console := console w @ [line]\<rparr>)"

definition askQuestion :: "jsstring \<Rightarrow> jsstring io" where
  "askQuestion question w =
     (case answers w of
        [] \<Rightarrow> (Pending, w\<lparr>console := console w @ [question]\<rparr>)
      | answer # rest \<Rightarrow>
          (Returns (trim answer), w\<lparr>answers := rest, console := console w @ [question]\<rparr>))"

definition NotFoundError :: error where
  "NotFoundError = Error (js ''Not Found'') (Some 404)"

definition loadAccount :: "jsstring \<Rightarrow> jsstring \<Rightarrow> account io" where
  "loadAccount server address w =
     (let w1 = w\<lparr>requests := requests w + 1\<rparr> in
      case failures w (requests w) of
        Some e \<Rightarrow> (Throws e, w1)
      | None \<Rightarrow>
          (case accounts w server address of
             None \<Rightarrow> (Throws NotFoundError, w1)
           | Some a \<Rightarrow> (Returns a, w1)))"

definition newMemo :: "sdk \<Rightarrow> memo_type \<Rightarrow> jsstring \<Rightarrow> memo io" where
  "newMemo sdk t v =
     io_bind (io_check (Memo_validate sdk (Memo t v))) (\<lambda>_. io_return (Memo t v))"

definition newOperation :: "sdk \<Rightarrow> operation \<Rightarrow> operation io" where
  "newOperation sdk op = io_bind (io_check (Operation_validate sdk op)) (\<lambda>_. io_return op)"

section \<open>The key encoding of the network\<close>

text \<open>
  Modelled from the spec: \<^verbatim>\<open>Keypair.fromPublicKey\<close> and the \<^verbatim>\<open>StrKey\<close> functions under
  it belong to the SDK, which is not in the repository. The spec calls an address valid
  when it decodes as a well-formed public-key-type account identifier per the network's
  key encoding. That encoding is StrKey: the base-32 text (alphabet of RFC 4648, no
  padding) of a version byte (48 for a public key), the 32 bytes of the key and the
  CRC-16/XMODEM checksum of those 33 bytes, low byte first. \<^verbatim>\<open>decodeCheck\<close> decodes the
  text and throws unless the bytes encode back to the same text, begin with the version
  byte and end with their checksum; \<^verbatim>\<open>fromPublicKey\<close> throws unless 32 bytes are left.
\<close>

text \<open>The \<open>n\<close> low bits of a number, the most significant first, and back.\<close>

fun bits_of :: "nat \<Rightarrow> nat \<Rightarrow> bool list" where
  "bits_of 0 v = []"
| "bits_of (Suc n) v = bits_of n (v div 2) @ [odd v]"

definition bits_value :: "bool list \<Rightarrow> nat" where
  "bits_value bs = foldl (\<lambda>a b. 2 * a + (if b then 1 else 0)) 0 bs"

function chunks :: "nat \<Rightarrow> 'a list \<Rightarrow> 'a list list" where
  "chunks n xs = (if n = 0 \<or> xs = [] then [] else take n xs # chunks n (drop n xs))"
  by pat_completeness auto
termination
  by (relation "measure (\<lambda>(n, xs). length xs)") auto

declare chunks.simps [simp del]

definition base32_alphabet :: jsstring where
  "base32_alphabet = js ''ABCDEFGHIJKLMNOPQRSTUVWXYZ234567''"

definition base32_index :: "code_unit \<Rightarrow> nat" where
  "base32_index c = length (takeWhile (\<lambda>a. a \<noteq> c) base32_alphabet)"

text \<open>
  Encoding cuts the bits of the bytes into groups of five, the last one filled up with
  zeros; decoding cuts the bits of the characters into groups of eight and drops an
  incomplete last group.
\<close>

definition base32_encode :: "8 word list \<Rightarrow> jsstring" where
  "base32_encode bytes =
     map (\<lambda>g. base32_alphabet ! bits_value (g @ replicate (5 - length g) False))
       (chunks 5 (concat (map (\<lambda>b. bits_of 8 (unat b)) bytes)))"

definition base32_decode :: "jsstring \<Rightarrow> 8 word list option" where
  "base32_decode s =
     (if list_all (\<lambda>c. c \<in> set base32_alphabet) s
      then Some (map (\<lambda>g. of_nat (bits_value g))
                   (filter (\<lambda>g. length g = 8)
                      (chunks 8 (concat (map (\<lambda>c. bits_of 5 (base32_index c)) s)))))
      else None)"

text \<open>CRC-16/XMODEM: polynomial \<open>0x1021\<close>, initial value 0, the high bit first.\<close>

definition crc16_shift :: "16 word \<Rightarrow> 16 word" where
  "crc16_shift crc = (if bit crc 15 then xor (push_bit 1 crc) 0x1021 else push_bit 1 crc)"

definition crc16_byte :: "16 word \<Rightarrow> 8 word \<Rightarrow> 16 word" where
  "crc16_byte crc b = (crc16_shift ^^ 8) (xor crc (push_bit 8 (ucast b)))"

definition crc16xmodem :: "8 word list \<Rightarrow> 16 word" where
  "crc16xmodem bytes = foldl crc16_byte 0 bytes"

definition calculateChecksum :: "8 word list \<Rightarrow> 8 word list" where
  "calculateChecksum payload =
     (let crc = crc16xmodem payload in [ucast crc, ucast (drop_bit 8 crc)])"

definition encodeCheck :: "8 word \<Rightarrow> 8 word list \<Rightarrow> jsstring" where
  "encodeCheck versionByte data =
     (let payload = versionByte # data in base32_encode (payload @ calculateChecksum payload))"

definition decodeCheck :: "8 word \<Rightarrow> jsstring \<Rightarrow> error + 8 word list" where
  "decodeCheck versionByte encoded =
     (case base32_decode encoded of
        None \<Rightarrow> Inl (Error (js ''Invalid character'') None)
      | Some decoded \<Rightarrow>
          (let payload = take (length decoded - 2) decoded;
               data = tl payload;
               checksum = drop (length decoded - 2) decoded
           in if encoded \<noteq> base32_encode decoded then Inl (Error (js ''invalid encoding'') None)
              else if decoded = [] \<or> hd decoded \<noteq> versionByte
              then Inl (Error (js ''invalid version byte'') None)
              else if checksum \<noteq> calculateChecksum payload
              then Inl (Error (js ''invalid checksum'') None)
              else Inr data))"

definition fromPublicKey :: "jsstring \<Rightarrow> error option" where
  "fromPublicKey publicKey =
     (case decodeCheck 48 publicKey of
        Inl e \<Rightarrow> Some e
      | Inr data \<Rightarrow>
          if length data \<noteq> 32 then Some (Error (js ''Invalid Stellar public key'') None)
          else None)"

section \<open>build-transaction.ts\<close>

text \<open>
  The variant with the network selection and the switch between payment and
  create-account. The \<^verbatim>\<open>value\<close> of a memo, which the details report, is modelled as
  the string the memo was made from (for a HASH or RETURN memo the SDK holds the bytes
  that the string spells).
\<close>

record config =
  horizon :: jsstring
  passphrase :: jsstring
  friendbot :: "jsstring option"

definition TESTNET_CONFIG :: config where
  "TESTNET_CONFIG =
     \<lparr>horizon = js ''https://horizon-testnet.stellar.org'',
      passphrase = js ''Test SDF Network ; September 2015'',
      friendbot = Some (js ''https://friendbot.stellar.org'')\<rparr>"

definition MAINNET_CONFIG :: config where
  "MAINNET_CONFIG =
     \<lparr>horizon = js ''https://horizon.stellar.org'',
      passphrase = js ''Public Global Stellar Network ; September 2015'',
      friendbot = None\<rparr>"

definition SOURCE_PUBLIC_KEY :: jsstring where
  "SOURCE_PUBLIC_KEY = js ''GDBKSMQZAJ3DBIM55BAWY7I4QSRUHZ3IOJV2YJAVQHWUXMGIDVS5MGNM''"

definition MIN_ACCOUNT_BALANCE :: jsstring where
  "MIN_ACCOUNT_BALANCE = js ''1.0000000''"

definition TESTNET_NETWORK_HASH :: "8 word list" where
  "TESTNET_NETWORK_HASH =
     [0xce, 0xe0, 0x30, 0x2d, 0x7f, 0xc5, 0x27, 0x3c,
      0x88, 0x6d, 0xb1, 0x49, 0xa5, 0x3b, 0x0f, 0x44,
      0x02, 0xec, 0x4c, 0x25, 0xb6, 0x1a, 0x0c, 0x8b,
      0x24, 0x8e, 0x63, 0x72, 0x4f, 0x2f, 0x66, 0xfb]"

record details =
  details_source :: jsstring
  details_destination :: jsstring
  details_amount :: jsstring
  details_memo :: "jsstring option"
  details_fee :: jsstring
  details_sequence :: jsstring

record TransactionData =
  data_xdr :: jsstring
  data_networkHash :: "8 word list"
  data_transaction :: transaction
  data_details :: details

text \<open>
  \<^verbatim>\<open>isValidStellarAddress\<close>: the body of the \<^verbatim>\<open>try\<close> returns true when
  \<^verbatim>\<open>Keypair.fromPublicKey\<close> returns, and the \<^verbatim>\<open>catch\<close> returns false whatever was
  thrown.
\<close>

definition isValidStellarAddress :: "sdk \<Rightarrow> jsstring \<Rightarrow> error + bool" where
  "isValidStellarAddress sdk address =
     (case Keypair_fromPublicKey sdk address of
        None \<Rightarrow> Inr True
      | Some e \<Rightarrow> Inr False)"

definition formatAmount :: "jsstring \<Rightarrow> jsstring" where
  "formatAmount amount = toFixed (parseFloat amount) 7"

text \<open>The regular expression \<^verbatim>\<open>/^[0-9a-fA-F]+$/\<close> and the length test.\<close>

definition isValidHex :: "jsstring \<Rightarrow> nat \<Rightarrow> bool" where
  "isValidHex str expectedLength \<longleftrightarrow>
     (str \<noteq> [] \<and> list_all isHexDigit str) \<and> length str = expectedLength"

text \<open>
  \<^verbatim>\<open>Buffer.byteLength(str, 'utf8')\<close>: one byte below U+0080, two below U+0800, four for
  a surrogate pair and three for any other code unit (a lone surrogate is encoded as
  U+FFFD).
\<close>

fun getByteLength :: "jsstring \<Rightarrow> nat" where
  "getByteLength [] = 0"
| "getByteLength [c] = (if c < 0x80 then 1 else if c < 0x800 then 2 else 3)"
| "getByteLength (c # d # cs) =
     (if c < 0x80 then 1 + getByteLength (d # cs)
      else if c < 0x800 then 2 + getByteLength (d # cs)
      else if 0xD800 \<le> c \<and> c \<le> 0xDBFF \<and> 0xDC00 \<le> d \<and> d \<le> 0xDFFF
      then 4 + getByteLength cs
      else 3 + getByteLength (d # cs))"

definition checkAccountActivation :: "jsstring \<Rightarrow> unit io" where
  "checkAccountActivation server =
     io_catch
       (io_bind (loadAccount server SOURCE_PUBLIC_KEY) (\<lambda>_. io_return ()))
       (\<lambda>error.
          if status error = Some 404 then
            io_throw (Error (js ''Source account '' @ SOURCE_PUBLIC_KEY @
                             js '' not found on network. Fund it first!'') None)
          else io_throw (Error (js ''Failed to check account: '' @ message error) None))"

definition checkDestinationAccountExists :: "jsstring \<Rightarrow> jsstring \<Rightarrow> bool io" where
  "checkDestinationAccountExists server destination =
     io_catch
       (io_bind (loadAccount server destination) (\<lambda>_. io_return True))
       (\<lambda>error. if status error = Some 404 then io_return False else io_return True)"

lemma askQuestion_consumes:
  "(Returns a, w1) = askQuestion q w \<Longrightarrow> length (answers w1) < length (answers w)"
  by (auto simp: askQuestion_def split: list.splits)

function askMemoType :: "jsstring io" where
  "askMemoType w =
     (case askQuestion (js ''Select memo type (1-5): '') w of
        (Returns memoType, w1) \<Rightarrow>
          if memoType \<notin> set [js ''1'', js ''2'', js ''3'', js ''4'', js ''5'']
          then askMemoType w1
          else (Returns memoType, w1)
      | (Throws e, w1) \<Rightarrow> (Throws e, w1)
      | (Pending, w1) \<Rightarrow> (Pending, w1))"
  by pat_completeness auto
termination
  by (relation "measure (\<lambda>w. length (answers w))") (auto dest: askQuestion_consumes)

declare askMemoType.simps [simp del]

definition getMemoInput :: "sdk \<Rightarrow> memo option io" where
  "getMemoInput sdk =
     io_bind (console_log (0xA # js ''Memo types:'')) (\<lambda>_.
     io_bind (console_log (js ''1. TEXT (max 28 bytes)'')) (\<lambda>_.
     io_bind (console_log (js ''2. ID (0 to 18446744073709551615)'')) (\<lambda>_.
     io_bind (console_log (js ''3. HASH (32 byte hex)'')) (\<lambda>_.
     io_bind (console_log (js ''4. RETURN (32 byte hex)'')) (\<lambda>_.
     io_bind (console_log (js ''5. None'')) (\<lambda>_.
     io_bind askMemoType (\<lambda>memoType.
       if memoType = js ''5'' then io_return None
       else
         io_bind (askQuestion (js ''Enter memo value: '')) (\<lambda>memoValue.
           if memoType = js ''1'' then
             (if 28 < getByteLength memoValue then
                io_throw (Error (js ''TEXT memo exceeds 28 bytes'') None)
              else io_bind (newMemo sdk MemoText memoValue) (\<lambda>m. io_return (Some m)))
           else if memoType = js ''2'' then
             io_bind (io_of (BigInt memoValue)) (\<lambda>idValue.
               if idValue < 0 \<or> 18446744073709551615 < idValue then
                 io_throw (Error (js ''ID memo must be between 0 and 18446744073709551615'') None)
               else io_bind (newMemo sdk MemoId memoValue) (\<lambda>m. io_return (Some m)))
           else if memoType = js ''3'' then
             (if \<not> isValidHex memoValue 64 then
                io_throw (Error (js ''HASH memo must be 64 hex characters (32 bytes)'') None)
              else io_bind (newMemo sdk MemoHash memoValue) (\<lambda>m. io_return (Some m)))
           else if memoType = js ''4'' then
             (if \<not> isValidHex memoValue 64 then
                io_throw (Error (js ''RETURN memo must be 64 hex characters (32 bytes)'') None)
              else io_bind (newMemo sdk MemoReturn memoValue) (\<lambda>m. io_return (Some m)))
           else io_return None))))))))"

function askDestination :: "sdk \<Rightarrow> jsstring io" where
  "askDestination sdk w =
     (case askQuestion (js ''Destination address: '') w of
        (Returns destination, w1) \<Rightarrow>
          (case isValidStellarAddress sdk destination of
             Inl e \<Rightarrow> (Throws e, w1)
           | Inr valid \<Rightarrow>
               if \<not> valid then askDestination sdk (snd (console_log (js ''Invalid address'') w1))
               else (Returns destination, w1))
      | (Throws e, w1) \<Rightarrow> (Throws e, w1)
      | (Pending, w1) \<Rightarrow> (Pending, w1))"
  by pat_completeness auto
termination
  by (relation "measure (\<lambda>(sdk, w). length (answers w))")
     (auto dest: askQuestion_consumes simp: console_log_def)

declare askDestination.simps [simp del]

datatype operationType = payment | createAccount

function askAmount :: "operationType \<Rightarrow> jsstring io" where
  "askAmount operationType w =
     (case askQuestion (js ''Amount (XLM): '') w of
        (Returns amount, w1) \<Rightarrow>
          (let amountNum = parseFloat amount in
           if isNaN amountNum \<or> Number_lessEqual amountNum (Fin 0) then
             askAmount operationType (snd (console_log (js ''Invalid amount'') w1))
           else if operationType = createAccount \<and>
                   Number_lessThan amountNum (parseFloat MIN_ACCOUNT_BALANCE) then
             askAmount operationType
               (snd (console_log (js ''Create Account requires minimum '' @ MIN_ACCOUNT_BALANCE @
                                  js '' XLM'') w1))
           else (Returns amount, w1))
      | (Throws e, w1) \<Rightarrow> (Throws e, w1)
      | (Pending, w1) \<Rightarrow> (Pending, w1))"
  by pat_completeness auto
termination
  by (relation "measure (\<lambda>(t, w). length (answers w))")
     (auto dest: askQuestion_consumes simp: console_log_def)

declare askAmount.simps [simp del]

definition buildStellarTransaction :: "sdk \<Rightarrow> config \<Rightarrow> 8 word list \<Rightarrow> TransactionData io" where
  "buildStellarTransaction sdk config networkHash =
     (let server = horizon config in
      io_catch
        (io_bind (checkAccountActivation server) (\<lambda>_.
         io_bind (loadAccount server SOURCE_PUBLIC_KEY) (\<lambda>sourceAccount.
         io_bind (askDestination sdk) (\<lambda>destination.
         io_bind (checkDestinationAccountExists server destination) (\<lambda>destinationExists.
         io_bind (if \<not> destinationExists then
                    io_bind (console_log (js ''Destination address not activated switching operation to Create Account''))
                      (\<lambda>_. io_return createAccount)
                  else io_return payment) (\<lambda>operationType.
         io_bind (askAmount operationType) (\<lambda>amount.
         io_bind (getMemoInput sdk) (\<lambda>memo.
         io_bind (if operationType = createAccount then
                    newOperation sdk (CreateAccount destination (formatAmount amount))
                  else newOperation sdk (Payment destination Native (formatAmount amount)))
           (\<lambda>operation.
         let txBuilder =
               \<lparr>tx_source = sourceAccount, tx_fee = js ''100'',
                tx_networkPassphrase = passphrase config, tx_operations = [operation],
                tx_timeout = 0, tx_memo = memo\<rparr>
         in
         io_bind (io_of (TransactionBuilder_build sdk txBuilder)) (\<lambda>sourceAccount.
         io_return
           \<lparr>data_xdr = Transaction_toXDR sdk txBuilder,
            data_networkHash = networkHash,
            data_transaction = txBuilder,
            data_details =
              \<lparr>details_source = SOURCE_PUBLIC_KEY,
               details_destination = destination,
               details_amount = formatAmount amount,
               details_memo = map_option memo_value memo,
               details_fee = js ''0.00001'',
               details_sequence =
                 NumberToString (Number_add (parseInt (sequence sourceAccount)) (Fin 1))\<rparr>\<rparr>))))))))))
        (\<lambda>error. io_throw (Error (js ''Failed to build transaction: '' @ message error) None)))"

section \<open>The variant that infers the memo type from the shape of the input\<close>

function askAmount_shape :: "jsstring io" where
  "askAmount_shape w =
     (case askQuestion (js ''Amount (XLM): '') w of
        (Returns amount, w1) \<Rightarrow>
          (let amountNum = parseFloat amount;
               w2 = (if isNaN amountNum \<or> Number_lessEqual amountNum (Fin 0)
                     then snd (console_log (js ''Invalid amount'') w1) else w1)
           in if isNaN (parseFloat amount) \<or> Number_lessEqual (parseFloat amount) (Fin 0)
              then askAmount_shape w2
              else (Returns amount, w2))
      | (Throws e, w1) \<Rightarrow> (Throws e, w1)
      | (Pending, w1) \<Rightarrow> (Pending, w1))"
  by pat_completeness auto
termination
  by (relation "measure (\<lambda>w. length (answers w))")
     (auto dest: askQuestion_consumes simp: console_log_def)

declare askAmount_shape.simps [simp del]

definition buildStellarTransaction_shape :: "sdk \<Rightarrow> TransactionData io" where
  "buildStellarTransaction_shape sdk =
     (let server = horizon TESTNET_CONFIG in
      io_catch
        (io_bind (console_log (js ''Loading source account...'')) (\<lambda>_.
         io_bind (loadAccount server SOURCE_PUBLIC_KEY) (\<lambda>sourceAccount.
         io_bind (askDestination sdk) (\<lambda>destination.
         io_bind askAmount_shape (\<lambda>amount.
         io_bind (askQuestion (js ''Memo (optional): '')) (\<lambda>memoInput.
         let memo = (if memoInput = [] then None else Some memoInput) in
         io_bind (newOperation sdk (Payment destination Native (formatAmount amount)))
           (\<lambda>operation.
         io_bind (case memo of
                    None \<Rightarrow> io_return None
                  | Some m \<Rightarrow>
                      if (m \<noteq> [] \<and> list_all isDigit m) \<and> length m \<le> 19
                      then io_bind (newMemo sdk MemoId m) (\<lambda>x. io_return (Some x))
                      else io_bind (newMemo sdk MemoText m) (\<lambda>x. io_return (Some x)))
           (\<lambda>attached.
         let txBuilder =
               \<lparr>tx_source = sourceAccount, tx_fee = js ''100'',
                tx_networkPassphrase = passphrase TESTNET_CONFIG, tx_operations = [operation],
                tx_timeout = 30, tx_memo = attached\<rparr>
         in
         io_bind (io_of (TransactionBuilder_build sdk txBuilder)) (\<lambda>sourceAccount.
         io_return
           \<lparr>data_xdr = Transaction_toXDR sdk txBuilder,
            data_networkHash = TESTNET_NETWORK_HASH,
            data_transaction = txBuilder,
            data_details =
              \<lparr>details_source = SOURCE_PUBLIC_KEY,
               details_destination = destination,
               details_amount = formatAmount amount,
               details_memo = memo,
               details_fee = js ''0.00001'',
               details_sequence =
                 NumberToString (Number_add (parseInt (sequence sourceAccount)) (Fin 1))\<rparr>\<rparr>)))))))))
        (\<lambda>error.
           if status error = Some 404 then
             io_throw (Error (js ''Source account '' @ SOURCE_PUBLIC_KEY @
                              js '' not found on testnet. Fund it first!'') None)
           else io_throw (Error (js ''Failed to build transaction: '' @ message error) None)))"

section \<open>What the network answers, and example worlds\<close>

text \<open>
  \<open>answered_404 w server address\<close>: the next request of \<open>w\<close>, when it asks \<open>server\<close> for
  \<open>address\<close>, is answered with status 404. That is the case when the request does not
  fail otherwise and the account does not exist, or when it fails with an error that
  carries the status 404 itself.
\<close>

definition answered_404 :: "world \<Rightarrow> jsstring \<Rightarrow> jsstring \<Rightarrow> bool" where
  "answered_404 w server address \<longleftrightarrow>
     (case failures w (requests w) of
        Some e \<Rightarrow> status e = Some 404
      | None \<Rightarrow> accounts w server address = None)"

definition same_network :: "world \<Rightarrow> world \<Rightarrow> bool" where
  "same_network w w' \<longleftrightarrow>
     accounts w' = accounts w \<and> failures w' = failures w \<and> requests w' = requests w"

text \<open>
  Two SDKs for the runs below. \<open>permissive_sdk\<close> accepts every argument and its
  \<^verbatim>\<open>build()\<close> leaves the source account as it is. \<open>stellar_sdk\<close> has what the Stellar
  SDK is documented to do where the runs depend on it: \<^verbatim>\<open>Keypair.fromPublicKey\<close> is the
  decoder above; \<^verbatim>\<open>Memo.text\<close> throws for more than 28 bytes; \<^verbatim>\<open>Operation.payment\<close>
  throws unless the amount is a decimal number above zero with at most seven decimals and
  at most 922337203685.4775807, and \<^verbatim>\<open>Operation.createAccount\<close> likewise, except that it
  allows zero; \<^verbatim>\<open>build()\<close> increments the sequence number of the source account
  object. The other constructors are taken to accept what the program hands them, and
  the envelope text is left empty. The network holds the source account and one more
  account.
\<close>

definition permissive_sdk :: sdk where
  "permissive_sdk =
     \<lparr>Keypair_fromPublicKey = (\<lambda>_. None),
      Memo_validate = (\<lambda>_. None),
      Operation_validate = (\<lambda>_. None),
      TransactionBuilder_build = (\<lambda>t. Inr (tx_source t)),
      Transaction_toXDR = (\<lambda>_. [])\<rparr>"

text \<open>
  \<^verbatim>\<open>Operation.isValidAmount\<close>, on the exact decimal value of the string. (The SDK reads
  the whole string, the literal below the longest decimal prefix: the same on every
  string that \<^verbatim>\<open>formatAmount\<close> prints.)
\<close>

definition isValidAmount :: "jsstring \<Rightarrow> bool \<Rightarrow> bool" where
  "isValidAmount v allowZero \<longleftrightarrow>
     (case StrUnsignedDecimalLiteral v of
        Some (MV amount) \<Rightarrow>
          (allowZero \<or> amount \<noteq> 0) \<and> amount * 10 ^ 7 \<le> 9223372036854775807 \<and>
          of_int \<lfloor>amount * 10 ^ 7\<rfloor> = amount * 10 ^ 7
      | _ \<Rightarrow> False)"

definition stellar_sdk :: sdk where
  "stellar_sdk =
     \<lparr>Keypair_fromPublicKey = fromPublicKey,
      Memo_validate = (\<lambda>m.
        if memo_type m = MemoText \<and> 28 < getByteLength (memo_value m)
        then Some (Error (js ''Expects string, array or buffer, max 28 bytes'') None)
        else None),
      Operation_validate = (\<lambda>op.
        case op of
          CreateAccount d startingBalance \<Rightarrow>
            if isValidAmount startingBalance True then None
            else Some (Error (js ''startingBalance argument must be of type String, represent a positive number and have at most 7 digits after the decimal'') None)
        | Payment d a amount \<Rightarrow>
            if isValidAmount amount False then None
            else Some (Error (js ''amount argument must be of type String, represent a positive number and have at most 7 digits after the decimal'') None)),
      TransactionBuilder_build = (\<lambda>t.
        Inr ((tx_source t)\<lparr>sequence := decimalDigits (digitsValue (sequence (tx_source t)) + 1)\<rparr>)),
      Transaction_toXDR = (\<lambda>_. [])\<rparr>"

definition FRIEND_PUBLIC_KEY :: jsstring where
  "FRIEND_PUBLIC_KEY = js ''GAAZI4TCR3TY5OJHCTJC2A4QSY6CJWJH5IAJTGKIN2ER7LBNVKOCCWN7''"

definition STRANGER_PUBLIC_KEY :: jsstring where
  "STRANGER_PUBLIC_KEY = js ''GCEZWKCA5VLDNRLN3RPRJMRZOX3Z6G5CHCGSNFHEYVXM3XOJMDS674JZ''"

definition example_world :: "jsstring \<Rightarrow> jsstring list \<Rightarrow> world" where
  "example_world seq as =
     \<lparr>answers = as, console = [],
      accounts = (\<lambda>server.
        [SOURCE_PUBLIC_KEY \<mapsto> \<lparr>accountId = SOURCE_PUBLIC_KEY, sequence = seq\<rparr>,
         FRIEND_PUBLIC_KEY \<mapsto> \<lparr>accountId = FRIEND_PUBLIC_KEY, sequence = js ''42''\<rparr>]),
      failures = (\<lambda>_. None), requests = 0\<rparr>"

text \<open>The same network, where the third request fails without any HTTP response.\<close>

definition outage_world :: "jsstring list \<Rightarrow> world" where
  "outage_world as =
     (example_world (js ''42'') as)
       \<lparr>failures := (\<lambda>i. if i = 2 then Some (Error (js ''Network Error'') None) else None)\<rparr>"

definition LONG_MEMO :: jsstring where
  "LONG_MEMO = js ''a memo of more than twenty-eight bytes''"

section \<open>Evaluation\<close>

lemma bitlen_numeral:
  "bitlen (numeral (Num.Bit0 n)) = bitlen (numeral n) + 1"
  "bitlen (numeral (Num.Bit1 n)) = bitlen (numeral n) + 1"
  "bitlen 1 = 1"
  by (subst compute_bitlen, simp)+

lemma replicate_numeral: "replicate (numeral k) x = x # replicate (pred_numeral k) x"
  by (simp add: numeral_eq_Suc)

lemmas string_eval = js_def ch_def trimStart_def trim_def isWhiteSpace_def isDigit_def
  digitValue_def digitsValue_def isHexDigit_def hexDigitValue_def isRadixDigit_def radixValue_def
  zeros_def replicate_numeral decimalDigits.simps

lemmas number_eval = to_number_def round_pos_def ilog2_def round_half_even_def bitlen_numeral
  Let_def isNaN_def Number_lessEqual_def

lemmas parse_eval = parseFloat_def StrUnsignedDecimalLiteral_def scanExponent_def decimalMV_def
  parseInt_def

lemmas print_eval = fixedDigits_def formatDigits_def integerDigitCount_def digitCandidates_def
  closer_def shortestDigits.simps formatAmount_def

lemmas io_eval = io_return_def io_throw_def io_bind_def io_catch_def io_of_def io_check_def
  console_log_def askQuestion_def loadAccount_def newMemo_def newOperation_def

lemma trim_keys:
  "trim SOURCE_PUBLIC_KEY = SOURCE_PUBLIC_KEY"
  "trim FRIEND_PUBLIC_KEY = FRIEND_PUBLIC_KEY"
  "trim STRANGER_PUBLIC_KEY = STRANGER_PUBLIC_KEY"
  by (simp_all add: SOURCE_PUBLIC_KEY_def FRIEND_PUBLIC_KEY_def STRANGER_PUBLIC_KEY_def string_eval)

lemma keys_distinct:
  "FRIEND_PUBLIC_KEY \<noteq> SOURCE_PUBLIC_KEY"
  "STRANGER_PUBLIC_KEY \<noteq> SOURCE_PUBLIC_KEY"
  "STRANGER_PUBLIC_KEY \<noteq> FRIEND_PUBLIC_KEY"
  by (simp_all add: SOURCE_PUBLIC_KEY_def FRIEND_PUBLIC_KEY_def STRANGER_PUBLIC_KEY_def string_eval)

lemma trim_small:
  "trim (js ''1'') = js ''1''" "trim (js ''2'') = js ''2''" "trim (js ''3'') = js ''3''"
  "trim (js ''4'') = js ''4''" "trim (js ''5'') = js ''5''"
  by (simp_all add: string_eval)

lemma menu_distinct:
  "js ''1'' \<noteq> js ''5''" "js ''2'' \<noteq> js ''5''" "js ''3'' \<noteq> js ''5''" "js ''4'' \<noteq> js ''5''"
  "js ''2'' \<noteq> js ''1''" "js ''3'' \<noteq> js ''1''" "js ''4'' \<noteq> js ''1''"
  "js ''3'' \<noteq> js ''2''" "js ''4'' \<noteq> js ''2''" "js ''4'' \<noteq> js ''3''"
  by (simp_all add: string_eval)

lemma parseFloat_MIN_ACCOUNT_BALANCE: "parseFloat MIN_ACCOUNT_BALANCE = Fin 1"
  by (simp add: MIN_ACCOUNT_BALANCE_def string_eval number_eval parse_eval)

lemma parseFloat_Infinity: "parseFloat (js ''Infinity'') = PosInf"
  by (simp add: string_eval number_eval parse_eval)

lemma trim_Infinity: "trim (js ''Infinity'') = js ''Infinity''"
  by (simp add: string_eval)

lemma parseFloat_5: "parseFloat (js ''5'') = Fin 5"
  by (simp add: string_eval number_eval parse_eval)

lemma formatAmount_5: "formatAmount (js ''5'') = js ''5.0000000''"
  unfolding formatAmount_def parseFloat_5
  by (simp add: fixedDigits_def string_eval Let_def)

lemma trim_tiny: "trim (js ''0.00000001'') = js ''0.00000001''"
  by (simp add: string_eval)

lemma parseFloat_tiny:
  "parseFloat (js ''0.00000001'') = Fin (3022314549036573 / 302231454903657293676544)"
  by (simp add: string_eval number_eval parse_eval)

lemma trim_LONG_MEMO: "trim LONG_MEMO = LONG_MEMO"
  by (simp add: LONG_MEMO_def string_eval)

lemma LONG_MEMO_shape:
  "LONG_MEMO \<noteq> []" "\<not> list_all isDigit LONG_MEMO" "getByteLength LONG_MEMO = 38"
  by (simp_all add: LONG_MEMO_def string_eval)

lemma sequence_2_53:
  "NumberToString (Number_add (parseInt (js ''9007199254740992'')) (Fin 1)) =
     js ''9007199254740992''"
  by (simp add: string_eval number_eval parse_eval print_eval)

lemma sequence_42:
  "NumberToString (Number_add (parseInt (js ''42'')) (Fin 1)) = js ''43''"
  by (simp add: string_eval number_eval parse_eval print_eval)

lemmas run_eval = buildStellarTransaction_def buildStellarTransaction_shape_def
  checkAccountActivation_def
  checkDestinationAccountExists_def isValidStellarAddress_def getMemoInput_def
  askAmount.simps askAmount_shape.simps askDestination.simps askMemoType.simps io_eval
  NotFoundError_def permissive_sdk_def example_world_def outage_world_def TESTNET_CONFIG_def
  trim_keys keys_distinct keys_distinct [symmetric] trim_small menu_distinct parseFloat_5
  formatAmount_5 parseFloat_MIN_ACCOUNT_BALANCE isNaN_def Number_lessEqual_def Let_def

section \<open>Steps of the program\<close>

lemma io_bind_ReturnsE:
  assumes "io_bind m f w = (Returns b, w')"
  obtains a w1 where "m w = (Returns a, w1)" and "f a w1 = (Returns b, w')"
  using assms by (auto simp: io_bind_def split: prod.splits outcome.splits)

lemma io_catch_ReturnsD:
  assumes "io_catch m h w = (Returns b, w')" and "\<And>e v x. fst (h e v) \<noteq> Returns x"
  shows "m w = (Returns b, w')"
proof (cases "m w")
  case (Pair r w1)
  show ?thesis
  proof (cases r)
    case (Throws e)
    with Pair assms(1) have "h e w1 = (Returns b, w')" by (simp add: io_catch_def)
    with assms(2) [of e w1 b] show ?thesis by simp
  qed (use Pair assms(1) in \<open>simp_all add: io_catch_def\<close>)
qed

lemma askQuestion_network: "askQuestion q w = (r, w') \<Longrightarrow> same_network w w'"
  by (auto simp: askQuestion_def same_network_def split: list.splits)

lemma askDestination_network: "askDestination sdk w = (r, w') \<Longrightarrow> same_network w w'"
proof (induction sdk w arbitrary: r w' rule: askDestination.induct)
  case (1 sdk w)
  obtain r1 w1 where q: "askQuestion (js ''Destination address: '') w = (r1, w1)"
    by (cases "askQuestion (js ''Destination address: '') w")
  have n1: "same_network w w1" using q by (rule askQuestion_network)
  show ?case
  proof (cases r1)
    case (Returns d)
    show ?thesis
    proof (cases "Keypair_fromPublicKey sdk d")
      case None
      then show ?thesis using "1.prems" q Returns n1
        by (subst (asm) askDestination.simps) (simp add: isValidStellarAddress_def)
    next
      case (Some e)
      have v: "isValidStellarAddress sdk d = Inr False"
        using Some by (simp add: isValidStellarAddress_def)
      have "askDestination sdk (snd (console_log (js ''Invalid address'') w1)) = (r, w')"
        using "1.prems" q Returns v by (subst (asm) askDestination.simps) simp
      then have "same_network (snd (console_log (js ''Invalid address'') w1)) w'"
        using "1.IH" [OF q [symmetric] Returns v] by simp
      then show ?thesis using n1 by (simp add: same_network_def console_log_def)
    qed
  next
    case (Throws e)
    then show ?thesis using "1.prems" q n1 by (subst (asm) askDestination.simps) auto
  next
    case Pending
    then show ?thesis using "1.prems" q n1 by (subst (asm) askDestination.simps) auto
  qed
qed

lemma checkAccountActivation_Returns:
  "checkAccountActivation server w = (Returns u, w') \<Longrightarrow>
     accounts w' = accounts w \<and> failures w' = failures w \<and> requests w' = requests w + 1"
  by (auto simp: checkAccountActivation_def io_catch_def io_bind_def io_return_def io_throw_def
      loadAccount_def Let_def split: option.splits if_splits)

lemma loadAccount_Returns:
  "loadAccount server a w = (Returns acc, w') \<Longrightarrow>
     accounts w' = accounts w \<and> failures w' = failures w \<and> requests w' = requests w + 1"
  by (auto simp: loadAccount_def Let_def split: option.splits)

lemma loadAccount_answers: "loadAccount server a w = (r, w') \<Longrightarrow> answers w' = answers w"
  by (auto simp: loadAccount_def Let_def split: option.splits)

lemma checkDestinationAccountExists_eq:
  "fst (checkDestinationAccountExists server d w) = Returns (\<not> answered_404 w server d)"
  by (auto simp: checkDestinationAccountExists_def io_catch_def io_bind_def io_return_def
      loadAccount_def Let_def answered_404_def NotFoundError_def split: option.splits)

lemma checkDestinationAccountExists_Returns:
  "checkDestinationAccountExists server d w = (Returns ex, w') \<Longrightarrow>
     ex = (\<not> answered_404 w server d)"
  using checkDestinationAccountExists_eq [of server d w] by simp

text \<open>
  The operation of a transaction that was built: the destination lookup is the third
  request of the run, after the two requests for the source account.
\<close>

lemma build_operation:
  assumes "buildStellarTransaction sdk config h w = (Returns data, w')"
  shows "tx_operations (data_transaction data) =
     [if answered_404 (w\<lparr>requests := requests w + 2\<rparr>) (horizon config)
           (details_destination (data_details data))
      then CreateAccount (details_destination (data_details data))
             (details_amount (data_details data))
      else Payment (details_destination (data_details data)) Native
             (details_amount (data_details data))]"
proof -
  from assms obtain u w1 sa w2 d w3 ex w4 where
    s1: "checkAccountActivation (horizon config) w = (Returns u, w1)" and
    s2: "loadAccount (horizon config) SOURCE_PUBLIC_KEY w1 = (Returns sa, w2)" and
    s3: "askDestination sdk w2 = (Returns d, w3)" and
    s4: "checkDestinationAccountExists (horizon config) d w3 = (Returns ex, w4)" and
    rest: "tx_operations (data_transaction data) =
       [if \<not> ex then CreateAccount d (details_amount (data_details data))
        else Payment d Native (details_amount (data_details data))]
       \<and> details_destination (data_details data) = d"
    unfolding buildStellarTransaction_def Let_def
    apply -
    apply (drule io_catch_ReturnsD)
     apply (simp add: io_throw_def)
    apply (elim io_bind_ReturnsE)
    apply (auto simp: io_return_def newOperation_def io_check_def io_of_def console_log_def
        split: if_splits option.splits sum.splits elim!: io_bind_ReturnsE)
    done
  have "same_network w2 w3" using s3 by (rule askDestination_network)
  moreover note checkAccountActivation_Returns [OF s1] loadAccount_Returns [OF s2]
  ultimately have "answered_404 w3 (horizon config) d
      = answered_404 (w\<lparr>requests := requests w + 2\<rparr>) (horizon config) d"
    by (simp add: answered_404_def same_network_def split: option.splits)
  with checkDestinationAccountExists_Returns [OF s4] rest show ?thesis by simp
qed

text \<open>One round of the amount prompt.\<close>

lemma askAmount_Cons:
  "askAmount t (w\<lparr>answers := a # rest\<rparr>) =
     (let w1 = w\<lparr>answers := rest, console := console w @ [js ''Amount (XLM): '']\<rparr>;
          amountNum = parseFloat (trim a)
      in if isNaN amountNum \<or> Number_lessEqual amountNum (Fin 0) then
           askAmount t (w1\<lparr>console := console w1 @ [js ''Invalid amount'']\<rparr>)
         else if t = createAccount \<and> Number_lessThan amountNum (parseFloat MIN_ACCOUNT_BALANCE)
         then
           askAmount t (w1\<lparr>console := console w1 @
              [js ''Create Account requires minimum '' @ MIN_ACCOUNT_BALANCE @ js '' XLM'']\<rparr>)
         else (Returns (trim a), w1))"
  by (subst askAmount.simps) (simp add: askQuestion_def console_log_def Let_def)

lemma askDestination_accept:
  assumes "answers w = d # rest" "Keypair_fromPublicKey sdk (trim d) = None"
  shows "askDestination sdk w =
     (Returns (trim d),
      w\<lparr>answers := rest, console := console w @ [js ''Destination address: '']\<rparr>)"
  using assms
  by (subst askDestination.simps) (simp add: askQuestion_def isValidStellarAddress_def)

lemma toFixed_tiny:
  assumes "0 < x" "x < 5 / 10 ^ 8"
  shows "toFixed (Fin x) 7 = js ''0.0000000''"
proof -
  have "x * 10 ^ 7 + 1 / 2 < 1" using assms by simp
  moreover have "0 \<le> x * 10 ^ 7 + 1 / 2" using assms by simp
  ultimately have "\<lfloor>x * 10 ^ 7 + 1 / 2\<rfloor> = 0" by linarith
  moreover have "\<not> 10 ^ 21 \<le> \<bar>x\<bar>" using assms by simp
  ultimately show ?thesis using assms
    by (simp add: Let_def fixedDigits_def string_eval)
qed

lemmas memo_eval = getMemoInput_def askMemoType.simps io_eval trim_small menu_distinct
  menu_distinct [symmetric]

lemma getMemoInput_id:
  "fst (getMemoInput sdk (w\<lparr>answers := js ''2'' # v # rest\<rparr>)) =
     (case StringToBigInt (trim v) of
        None \<Rightarrow> Throws (Error (js ''Cannot convert '' @ trim v @ js '' to a BigInt'') None)
      | Some i \<Rightarrow>
          if 0 \<le> i \<and> i \<le> 18446744073709551615
          then (case Memo_validate sdk (Memo MemoId (trim v)) of
                  None \<Rightarrow> Returns (Some (Memo MemoId (trim v)))
                | Some e \<Rightarrow> Throws e)
          else Throws (Error (js ''ID memo must be between 0 and 18446744073709551615'') None))"
  by (auto simp: memo_eval BigInt_def split: option.splits)

text \<open>The amount prompt returns only what its test let through.\<close>

lemma askAmount_valid:
  "askAmount t w = (Returns a, w') \<Longrightarrow>
     \<not> isNaN (parseFloat a) \<and> \<not> Number_lessEqual (parseFloat a) (Fin 0)"
proof (induction t w arbitrary: a w' rule: askAmount.induct)
  case (1 t w)
  obtain r1 w1 where q: "askQuestion (js ''Amount (XLM): '') w = (r1, w1)"
    by (cases "askQuestion (js ''Amount (XLM): '') w")
  show ?case
  proof (cases r1)
    case (Returns amount)
    let ?bad = "isNaN (parseFloat amount) \<or> Number_lessEqual (parseFloat amount) (Fin 0)"
    let ?low = "t = createAccount \<and>
      Number_lessThan (parseFloat amount) (parseFloat MIN_ACCOUNT_BALANCE)"
    show ?thesis
    proof (cases ?bad)
      case True
      have "askAmount t (snd (console_log (js ''Invalid amount'') w1)) = (Returns a, w')"
        using "1.prems" q Returns True by (subst (asm) askAmount.simps) (simp add: Let_def)
      then show ?thesis
        using "1.IH"(1) [OF q [symmetric] Returns refl True] by simp
    next
      case False
      show ?thesis
      proof (cases ?low)
        case low: True
        have "askAmount t (snd (console_log (js ''Create Account requires minimum '' @
            MIN_ACCOUNT_BALANCE @ js '' XLM'') w1)) = (Returns a, w')"
          using "1.prems" q Returns False low
          by (subst (asm) askAmount.simps) (simp add: Let_def)
        then show ?thesis
          using "1.IH"(2) [OF q [symmetric] Returns refl False low] by simp
      next
        case ok: False
        have "a = amount"
          using "1.prems" q Returns False ok
          by (subst (asm) askAmount.simps) (auto simp: Let_def)
        with False show ?thesis by simp
      qed
    qed
  next
    case (Throws e)
    then show ?thesis using "1.prems" q by (subst (asm) askAmount.simps) simp
  next
    case Pending
    then show ?thesis using "1.prems" q by (subst (asm) askAmount.simps) simp
  qed
qed

lemma askAmount_shape_valid:
  "askAmount_shape w = (Returns a, w') \<Longrightarrow>
     \<not> isNaN (parseFloat a) \<and> \<not> Number_lessEqual (parseFloat a) (Fin 0)"
proof (induction w arbitrary: a w' rule: askAmount_shape.induct)
  case (1 w)
  obtain r1 w1 where q: "askQuestion (js ''Amount (XLM): '') w = (r1, w1)"
    by (cases "askQuestion (js ''Amount (XLM): '') w")
  show ?case
  proof (cases r1)
    case (Returns amount)
    let ?bad = "isNaN (parseFloat amount) \<or> Number_lessEqual (parseFloat amount) (Fin 0)"
    show ?thesis
    proof (cases ?bad)
      case True
      have "askAmount_shape (snd (console_log (js ''Invalid amount'') w1)) = (Returns a, w')"
        using "1.prems" q Returns True by (subst (asm) askAmount_shape.simps) (simp add: Let_def)
      then show ?thesis
        using "1.IH" [OF q [symmetric] Returns refl _ True] True by simp
    next
      case False
      have "a = amount"
        using "1.prems" q Returns False
        by (subst (asm) askAmount_shape.simps) (auto simp: Let_def)
      with False show ?thesis by simp
    qed
  next
    case (Throws e)
    then show ?thesis using "1.prems" q by (subst (asm) askAmount_shape.simps) simp
  next
    case Pending
    then show ?thesis using "1.prems" q by (subst (asm) askAmount_shape.simps) simp
  qed
qed

text \<open>
  The steps of a run in which every request is answered and the first answers are
  accepted.
\<close>

lemma loadAccount_found:
  assumes "failures w (requests w) = None" "accounts w server address = Some acc"
  shows "loadAccount server address w = (Returns acc, w\<lparr>requests := requests w + 1\<rparr>)"
  using assms by (simp add: loadAccount_def Let_def)

lemma checkAccountActivation_found:
  assumes "failures w (requests w) = None" "accounts w server SOURCE_PUBLIC_KEY = Some acc"
  shows "checkAccountActivation server w = (Returns (), w\<lparr>requests := requests w + 1\<rparr>)"
  using assms
  by (simp add: checkAccountActivation_def loadAccount_found io_catch_def io_bind_def io_return_def)

lemma checkDestinationAccountExists_step:
  "checkDestinationAccountExists server d w =
     (Returns (\<not> answered_404 w server d), w\<lparr>requests := requests w + 1\<rparr>)"
  by (auto simp: checkDestinationAccountExists_def io_catch_def io_bind_def io_return_def
      loadAccount_def Let_def answered_404_def NotFoundError_def split: option.splits)

lemma askAmount_accept:
  assumes "answers w = a # rest"
    "\<not> isNaN (parseFloat (trim a))" "\<not> Number_lessEqual (parseFloat (trim a)) (Fin 0)"
    "t = createAccount \<Longrightarrow> \<not> Number_lessThan (parseFloat (trim a)) (parseFloat MIN_ACCOUNT_BALANCE)"
  shows "askAmount t w =
     (Returns (trim a), w\<lparr>answers := rest, console := console w @ [js ''Amount (XLM): '']\<rparr>)"
  using assms
  by (subst askAmount.simps) (auto simp: askQuestion_def Let_def)

lemma getMemoInput_none:
  assumes "answers w = m # rest" "trim m = js ''5''"
  shows "fst (getMemoInput sdk w) = Returns None"
  using assms by (simp add: memo_eval)

text \<open>
  The outcome of such a run of the variant that infers the memo type: what the SDK makes
  of the memo and of \<^verbatim>\<open>build()\<close> decides it.
\<close>

lemma shape_run:
  assumes ans: "answers w = d # a # m # rest"
    and src: "failures w (requests w) = None"
      "accounts w (horizon TESTNET_CONFIG) SOURCE_PUBLIC_KEY = Some sa"
    and key: "Keypair_fromPublicKey sdk (trim d) = None"
    and amt: "\<not> isNaN (parseFloat (trim a))" "\<not> Number_lessEqual (parseFloat (trim a)) (Fin 0)"
    and op: "Operation_validate sdk (Payment (trim d) Native (formatAmount (trim a))) = None"
  shows "fst (buildStellarTransaction_shape sdk w) =
     (let memo = (if trim m = [] then None
                  else if list_all isDigit (trim m) \<and> length (trim m) \<le> 19
                       then Some (Memo MemoId (trim m))
                       else Some (Memo MemoText (trim m)));
          tx = \<lparr>tx_source = sa, tx_fee = js ''100'',
                tx_networkPassphrase = passphrase TESTNET_CONFIG,
                tx_operations = [Payment (trim d) Native (formatAmount (trim a))],
                tx_timeout = 30, tx_memo = memo\<rparr>
      in case (case memo of None \<Rightarrow> None | Some x \<Rightarrow> Memo_validate sdk x) of
           Some e \<Rightarrow>
             Throws (if status e = Some 404
                     then Error (js ''Source account '' @ SOURCE_PUBLIC_KEY @
                                 js '' not found on testnet. Fund it first!'') None
                     else Error (js ''Failed to build transaction: '' @ message e) None)
         | None \<Rightarrow>
             (case TransactionBuilder_build sdk tx of
                Inl e \<Rightarrow>
                  Throws (if status e = Some 404
                          then Error (js ''Source account '' @ SOURCE_PUBLIC_KEY @
                                      js '' not found on testnet. Fund it first!'') None
                          else Error (js ''Failed to build transaction: '' @ message e) None)
              | Inr account \<Rightarrow>
                  Returns
                    \<lparr>data_xdr = Transaction_toXDR sdk tx,
                     data_networkHash = TESTNET_NETWORK_HASH,
                     data_transaction = tx,
                     data_details =
                       \<lparr>details_source = SOURCE_PUBLIC_KEY,
                        details_destination = trim d,
                        details_amount = formatAmount (trim a),
                        details_memo = (if trim m = [] then None else Some (trim m)),
                        details_fee = js ''0.00001'',
                        details_sequence =
                          NumberToString (Number_add (parseInt (sequence account)) (Fin 1))\<rparr>\<rparr>))"
  using assms
  by (simp add: buildStellarTransaction_shape_def io_eval askDestination.simps
      askAmount_shape.simps isValidStellarAddress_def Let_def
      split: option.splits sum.splits)

text \<open>
  The outcome of such a run of the variant with the switch, when the lookup of the
  destination is not answered with 404 and no memo is chosen.
\<close>

lemma payment_run:
  assumes ans: "answers w = d # a # m # rest"
    and src: "failures w (requests w) = None" "failures w (requests w + 1) = None"
      "accounts w (horizon config) SOURCE_PUBLIC_KEY = Some sa"
    and dst: "\<not> answered_404 (w\<lparr>requests := requests w + 2\<rparr>) (horizon config) (trim d)"
    and key: "Keypair_fromPublicKey sdk (trim d) = None"
    and amt: "\<not> isNaN (parseFloat (trim a))" "\<not> Number_lessEqual (parseFloat (trim a)) (Fin 0)"
    and memo: "trim m = js ''5''"
  shows "fst (buildStellarTransaction sdk config h w) =
     (let operation = Payment (trim d) Native (formatAmount (trim a));
          tx = \<lparr>tx_source = sa, tx_fee = js ''100'',
                tx_networkPassphrase = passphrase config,
                tx_operations = [operation], tx_timeout = 0, tx_memo = None\<rparr>
      in case Operation_validate sdk operation of
           Some e \<Rightarrow> Throws (Error (js ''Failed to build transaction: '' @ message e) None)
         | None \<Rightarrow>
             (case TransactionBuilder_build sdk tx of
                Inl e \<Rightarrow> Throws (Error (js ''Failed to build transaction: '' @ message e) None)
              | Inr account \<Rightarrow>
                  Returns
                    \<lparr>data_xdr = Transaction_toXDR sdk tx,
                     data_networkHash = h,
                     data_transaction = tx,
                     data_details =
                       \<lparr>details_source = SOURCE_PUBLIC_KEY,
                        details_destination = trim d,
                        details_amount = formatAmount (trim a),
                        details_memo = None,
                        details_fee = js ''0.00001'',
                        details_sequence =
                          NumberToString (Number_add (parseInt (sequence account)) (Fin 1))\<rparr>\<rparr>))"
proof -
  define server where "server = horizon config"
  define w1 where "w1 = w\<lparr>requests := requests w + 1\<rparr>"
  define w2 where "w2 = w1\<lparr>requests := requests w1 + 1\<rparr>"
  define w3 where
    "w3 = w2\<lparr>answers := a # m # rest, console := console w2 @ [js ''Destination address: '']\<rparr>"
  define w4 where "w4 = w3\<lparr>requests := requests w3 + 1\<rparr>"
  define w5 where
    "w5 = w4\<lparr>answers := m # rest, console := console w4 @ [js ''Amount (XLM): '']\<rparr>"
  have s1: "checkAccountActivation server w = (Returns (), w1)"
    unfolding w1_def server_def using src(1,3) by (rule checkAccountActivation_found)
  have s2: "loadAccount server SOURCE_PUBLIC_KEY w1 = (Returns sa, w2)"
    unfolding w2_def server_def by (rule loadAccount_found) (use src in \<open>simp_all add: w1_def\<close>)
  have s3: "askDestination sdk w2 = (Returns (trim d), w3)"
    unfolding w3_def by (rule askDestination_accept) (simp_all add: ans key w2_def w1_def)
  have "answered_404 w3 server (trim d) =
      answered_404 (w\<lparr>requests := requests w + 2\<rparr>) (horizon config) (trim d)"
    by (simp add: answered_404_def w3_def w2_def w1_def server_def split: option.splits)
  then have s4: "checkDestinationAccountExists server (trim d) w3 = (Returns True, w4)"
    using dst by (simp only: checkDestinationAccountExists_step w4_def) simp
  have s5: "askAmount payment w4 = (Returns (trim a), w5)"
    unfolding w5_def by (rule askAmount_accept) (simp_all add: amt w4_def w3_def)
  obtain w6 where s6: "getMemoInput sdk w5 = (Returns None, w6)"
    using getMemoInput_none [of w5 m rest sdk] memo
    by (cases "getMemoInput sdk w5") (simp add: w5_def)
  show ?thesis
    unfolding buildStellarTransaction_def Let_def server_def [symmetric]
    by (simp add: io_catch_def io_bind_def s1 s2 s3 s4 s5 s6 io_return_def io_throw_def
        io_of_def io_check_def newOperation_def split: option.splits sum.splits)
qed

text \<open>A transaction is returned only when the SDK accepted its operation.\<close>

lemma built_operation_accepted:
  assumes "buildStellarTransaction sdk config h w = (Returns data, w')"
  shows "\<exists>operation. tx_operations (data_transaction data) = [operation] \<and>
           Operation_validate sdk operation = None"
  using assms unfolding buildStellarTransaction_def Let_def
  apply -
  apply (drule io_catch_ReturnsD)
   apply (simp add: io_throw_def)
  apply (elim io_bind_ReturnsE)
  apply (auto simp: io_return_def newOperation_def io_check_def io_of_def console_log_def
      split: if_splits option.splits sum.splits elim!: io_bind_ReturnsE)
  done

section \<open>Rounding to a Number, printing and parsing\<close>

text \<open>
  The facts behind the idempotence of \<^verbatim>\<open>formatAmount\<close>: rounding returns a nearest
  binary64 value; a printed decimal string parses to the value it denotes; and rounding
  a Number to seven decimals, then to a Number, then to seven decimals again gives the
  same seven decimals.
\<close>

lemma round_pos_rnd: "round_pos q = (if 2 ^ 1024 \<le> rnd q then PosInf else Fin (rnd q))"
  by (simp add: round_pos_def rnd_def Let_def)

lemma bitlen_floor_bounds:
  assumes "1 \<le> (r::real)"
  shows "2 powi (bitlen \<lfloor>r\<rfloor> - 1) \<le> r" and "r < 2 powi (bitlen \<lfloor>r\<rfloor>)" and "1 \<le> bitlen \<lfloor>r\<rfloor>"
proof -
  let ?x = "\<lfloor>r\<rfloor>"
  have x: "0 < ?x" using assms by linarith
  from bitlen_bounds [OF x] have lo: "2 ^ nat (bitlen ?x - 1) \<le> ?x" and hi: "?x < 2 ^ nat (bitlen ?x)"
    by auto
  have pos: "0 < bitlen ?x" using x by (simp add: bitlen_alt_def)
  then show "1 \<le> bitlen ?x" by simp
  have "(2::real) powi (bitlen ?x - 1) = 2 ^ nat (bitlen ?x - 1)"
    using pos by (simp add: power_int_nonneg_exp)
  also have "\<dots> = of_int (2 ^ nat (bitlen ?x - 1))" by simp
  also have "\<dots> \<le> of_int ?x" using lo by (simp only: of_int_le_iff)
  also have "\<dots> \<le> r" by simp
  finally show "2 powi (bitlen ?x - 1) \<le> r" .
  have "?x + 1 \<le> 2 ^ nat (bitlen ?x)" using hi by simp
  then have "(of_int (?x + 1) :: real) \<le> of_int (2 ^ nat (bitlen ?x))" by (simp only: of_int_le_iff)
  moreover have "r < of_int (?x + 1)" by linarith
  ultimately have "r < of_int (2 ^ nat (bitlen ?x))" by linarith
  also have "\<dots> = 2 powi (bitlen ?x)" using pos by (simp add: power_int_nonneg_exp)
  finally show "r < 2 powi (bitlen ?x)" .
qed

lemma ilog2_bounds:
  assumes "0 < q"
  shows "2 powi (ilog2 q) \<le> q" and "q < 2 powi (ilog2 q + 1)"
proof -
  have "2 powi (ilog2 q) \<le> q \<and> q < 2 powi (ilog2 q + 1)"
  proof (cases "1 \<le> q")
    case True
    from bitlen_floor_bounds [OF True] True show ?thesis
      by (simp add: ilog2_def)
  next
    case False
    define r where "r = 1 / q"
    define f where "f = bitlen \<lfloor>r\<rfloor> - 1"
    have r1: "1 \<le> r" using False assms by (simp add: r_def)
    have q: "q = 1 / r" using assms by (simp add: r_def)
    have rpos: "0 < r" using r1 by simp
    from bitlen_floor_bounds [OF r1] have lo: "2 powi f \<le> r" and hi: "r < 2 powi (f + 1)"
      by (simp_all add: f_def)
    show ?thesis
    proof (cases "r = 2 powi f")
      case True
      then have i: "ilog2 q = - f" using False by (simp add: ilog2_def r_def f_def Let_def)
      have "q = 2 powi (- f)" using True q by (simp add: power_int_minus_divide)
      moreover have "(2::real) powi (- f) < 2 powi (- f + 1)"
        by (rule power_int_strict_increasing) simp_all
      ultimately show ?thesis using i by simp
    next
      case neq: False
      then have i: "ilog2 q = - f - 1" using False by (simp add: ilog2_def r_def f_def Let_def)
      have lo': "2 powi f < r" using lo neq by simp
      have p: "0 < (2::real) powi f" "0 < (2::real) powi (f + 1)" by simp_all
      have "1 / r < 1 / 2 powi f"
        using lo' p rpos by (simp add: field_simps)
      then have "q < 2 powi (- f)"
        unfolding q by (simp only: power_int_minus_divide)
      moreover have "1 / 2 powi (f + 1) < 1 / r"
        using hi p rpos by (simp add: field_simps)
      then have "2 powi (- (f + 1)) < q"
        unfolding q by (simp only: power_int_minus_divide)
      moreover have "ilog2 q = - (f + 1)" "ilog2 q + 1 = - f" using i by simp_all
      ultimately show ?thesis by (simp only: less_imp_le simp_thms)
    qed
  qed
  then show "2 powi (ilog2 q) \<le> q" and "q < 2 powi (ilog2 q + 1)" by simp_all
qed

lemma round_half_even_nearest:
  "\<bar>of_int (round_half_even r) - r\<bar> \<le> \<bar>of_int k - r\<bar>"
proof -
  let ?f = "\<lfloor>r\<rfloor>"
  let ?d = "r - of_int ?f"
  have d: "0 \<le> ?d" "?d < 1" by linarith+
  have "k \<le> ?f \<or> ?f + 1 \<le> k" by linarith
  then have k: "?d \<le> \<bar>of_int k - r\<bar> \<or> 1 - ?d \<le> \<bar>of_int k - r\<bar>"
  proof
    assume "k \<le> ?f"
    then have "(of_int k :: real) \<le> of_int ?f" by (simp only: of_int_le_iff)
    then show ?thesis by linarith
  next
    assume "?f + 1 \<le> k"
    then have "(of_int (?f + 1) :: real) \<le> of_int k" by (simp only: of_int_le_iff)
    then show ?thesis by (simp; linarith)
  qed
  consider "?d < 1 / 2" | "1 / 2 < ?d" | "?d = 1 / 2" by linarith
  then show ?thesis
  proof cases
    case 1
    then have "round_half_even r = ?f" by (simp add: round_half_even_def Let_def)
    then show ?thesis using 1 k d by (simp; linarith)
  next
    case 2
    then have "round_half_even r = ?f + 1" by (simp add: round_half_even_def Let_def)
    then show ?thesis using 2 k d by (simp; linarith)
  next
    case 3
    then have "round_half_even r = ?f \<or> round_half_even r = ?f + 1"
      by (simp add: round_half_even_def Let_def)
    then show ?thesis using 3 k d by (auto; linarith)
  qed
qed

lemma round_half_even_bounds:
  "of_int (round_half_even r) \<le> r + 1 / 2" "r - 1 / 2 \<le> of_int (round_half_even r)"
  "\<lfloor>r\<rfloor> \<le> round_half_even r" "round_half_even r \<le> \<lfloor>r\<rfloor> + 1"
  by (simp_all add: round_half_even_def Let_def; linarith)+

lemma rnd_grid:
  assumes "0 < q"
  defines "p \<equiv> max (ilog2 q) (- 1022) - 52"
  shows "\<bar>rnd q - q\<bar> \<le> \<bar>of_int k * 2 powi p - q\<bar>"
proof -
  let ?r = "q / 2 powi p"
  have pp: "0 < (2::real) powi p" by simp
  have q: "q = ?r * 2 powi p" by simp
  have "\<bar>rnd q - q\<bar> = \<bar>(of_int (round_half_even ?r) - ?r) * 2 powi p\<bar>"
    by (simp add: rnd_def p_def Let_def algebra_simps)
  also have "\<dots> = \<bar>of_int (round_half_even ?r) - ?r\<bar> * 2 powi p"
    using pp by (simp add: abs_mult)
  also have "\<dots> \<le> \<bar>of_int k - ?r\<bar> * 2 powi p"
    using round_half_even_nearest [of ?r k] pp by (simp add: mult_right_mono)
  also have "\<dots> = \<bar>(of_int k - ?r) * 2 powi p\<bar>"
    using pp by (simp add: abs_mult)
  also have "\<dots> = \<bar>of_int k * 2 powi p - q\<bar>"
    by (simp add: algebra_simps)
  finally show ?thesis .
qed

lemma rnd_is_double:
  assumes "0 < q"
  shows "is_double (rnd q)" and "0 \<le> rnd q"
proof -
  define e where "e = ilog2 q"
  define p where "p = max e (- 1022) - 52"
  define r where "r = q / 2 powi p"
  define m where "m = round_half_even r"
  have rnd: "rnd q = of_int m * 2 powi p"
    by (simp add: rnd_def m_def r_def p_def e_def Let_def)
  have pp: "0 < (2::real) powi p" by simp
  have "q < 2 powi (e + 1)" using ilog2_bounds(2) [OF assms] by (simp add: e_def)
  also have "(2::real) powi (e + 1) \<le> 2 powi (p + 53)"
    by (rule power_int_increasing) (simp_all add: p_def)
  also have "(2::real) powi (p + 53) = 2 powi p * 2 ^ 53"
    by (simp add: power_int_add)
  finally have "r < 2 ^ 53" using pp by (simp add: r_def field_simps)
  then have f1: "\<lfloor>r\<rfloor> < 2 ^ 53" by (simp add: floor_less_iff)
  have "0 \<le> r" using assms pp by (simp add: r_def)
  then have f2: "0 \<le> \<lfloor>r\<rfloor>" by simp
  have m: "0 \<le> m" "m \<le> 2 ^ 53"
    using f1 f2 round_half_even_bounds(3,4) [of r] unfolding m_def by linarith+
  have "- 1074 \<le> p" by (simp add: p_def)
  with m rnd show "is_double (rnd q)" unfolding is_double_def by (intro exI [of _ m] exI [of _ p]) simp
  show "0 \<le> rnd q" using m pp by (simp add: rnd)
qed

lemma rnd_nearest:
  assumes "0 < q" and "is_double v"
  shows "\<bar>rnd q - q\<bar> \<le> \<bar>v - q\<bar>"
proof -
  define e where "e = ilog2 q"
  define p where "p = max e (- 1022) - 52"
  from assms(2) obtain m pv where v: "v = of_int m * 2 powi pv" and m: "\<bar>m\<bar> \<le> 2 ^ 53"
    and pv: "- 1074 \<le> pv"
    unfolding is_double_def by blast
  note grid = rnd_grid [OF assms(1), folded e_def, folded p_def]
  show ?thesis
  proof (cases "p \<le> pv")
    case True
    have "(2::real) powi pv = 2 powi (pv - p) * 2 powi p"
      by (simp add: power_int_add [symmetric])
    also have "(2::real) powi (pv - p) = of_int (2 ^ nat (pv - p))"
      using True by (simp add: power_int_nonneg_exp)
    finally have "v = of_int (m * 2 ^ nat (pv - p)) * 2 powi p"
      by (simp add: v)
    with grid [of "m * 2 ^ nat (pv - p)"] show ?thesis by simp
  next
    case False
    then have ep: "p = e - 52" "- 1022 < e" using pv by (simp_all add: p_def)
    have "v \<le> \<bar>v\<bar>" by simp
    also have "\<bar>v\<bar> = of_int \<bar>m\<bar> * 2 powi pv" by (simp add: v abs_mult)
    also have "\<dots> \<le> 2 ^ 53 * 2 powi pv"
    proof (rule mult_right_mono)
      have "(of_int \<bar>m\<bar> :: real) \<le> of_int (2 ^ 53)" using m by (simp only: of_int_le_iff)
      then show "(of_int \<bar>m\<bar> :: real) \<le> 2 ^ 53" by simp
    qed simp
    also have "\<dots> \<le> 2 ^ 53 * 2 powi (p - 1)"
      by (rule mult_left_mono, rule power_int_increasing) (use False in simp_all)
    also have "\<dots> = 2 powi (53 + (p - 1))"
      by (subst power_int_add) simp_all
    also have "\<dots> = 2 powi e" by (simp add: ep)
    finally have ve: "v \<le> 2 powi e" .
    have eq: "2 powi e \<le> q" using ilog2_bounds(1) [OF assms(1)] by (simp add: e_def)
    have "(2::real) powi e = 2 powi (52 + p)" by (simp add: ep)
    also have "\<dots> = of_int (2 ^ 52) * 2 powi p" by (subst power_int_add) simp_all
    finally have "\<bar>rnd q - q\<bar> \<le> \<bar>2 powi e - q\<bar>" using grid [of "2 ^ 52"] by simp
    with ve eq show ?thesis by linarith
  qed
qed

lemma rnd_fix:
  assumes "is_double v" and "0 < v"
  shows "rnd v = v"
  using rnd_nearest [OF assms(2) assms(1)] by simp

lemma is_double_0: "is_double 0"
  unfolding is_double_def by (intro exI [of _ 0]) simp

lemma is_double_minus: "is_double v \<Longrightarrow> is_double (- v)"
  unfolding is_double_def
  apply (elim exE conjE)
  subgoal for m p by (intro exI [of _ "- m"] exI [of _ p]) simp
  done

lemma is_double_abs: "is_double v \<Longrightarrow> is_double \<bar>v\<bar>"
  by (cases "0 \<le> v") (simp_all add: is_double_minus abs_if)

lemma to_number_pos:
  "0 < q \<Longrightarrow> to_number q = (if 2 ^ 1024 \<le> rnd q then PosInf else Fin (rnd q))"
  by (simp add: to_number_def round_pos_rnd)

lemma to_number_neg:
  "q < 0 \<Longrightarrow> to_number q = (if 2 ^ 1024 \<le> rnd (- q) then NegInf else Fin (- rnd (- q)))"
  by (simp add: to_number_def round_pos_rnd)

lemma to_number_is_double:
  assumes "to_number q = Fin u"
  shows "is_double u"
proof -
  consider "q = 0" | "0 < q" | "q < 0" by linarith
  then show ?thesis
  proof cases
    case 1
    with assms show ?thesis by (simp add: to_number_def is_double_0)
  next
    case 2
    with assms rnd_is_double(1) [OF 2] show ?thesis
      by (simp add: to_number_pos split: if_splits)
  next
    case 3
    then have "0 < - q" by simp
    from rnd_is_double(1) [OF this] assms 3 show ?thesis
      by (auto simp: to_number_neg is_double_minus split: if_splits)
  qed
qed

lemma to_number_fix:
  assumes "is_double v" and "\<bar>v\<bar> < 2 ^ 1024"
  shows "to_number v = Fin v"
proof -
  consider "v = 0" | "0 < v" | "v < 0" by linarith
  then show ?thesis
  proof cases
    case 1
    then show ?thesis by (simp add: to_number_def)
  next
    case 2
    with assms rnd_fix [OF assms(1) 2] show ?thesis by (simp add: to_number_pos)
  next
    case 3
    then have "0 < - v" by simp
    from rnd_fix [OF is_double_minus [OF assms(1)] this] assms 3 show ?thesis
      by (simp add: to_number_neg)
  qed
qed

lemma to_number_idem: "to_number q = Fin u \<Longrightarrow> \<bar>u\<bar> < 2 ^ 1024 \<and> to_number u = Fin u"
proof -
  assume a: "to_number q = Fin u"
  have "\<bar>u\<bar> < 2 ^ 1024"
  proof -
    consider "q = 0" | "0 < q" | "q < 0" by linarith
    then show ?thesis
    proof cases
      case 1 with a show ?thesis by (simp add: to_number_def)
    next
      case 2
      with a rnd_is_double(2) [OF 2] show ?thesis
        by (simp add: to_number_pos split: if_splits)
    next
      case 3
      then have "0 < - q" by simp
      from rnd_is_double(2) [OF this] a 3 show ?thesis
        by (auto simp: to_number_neg split: if_splits)
    qed
  qed
  with to_number_fix [OF to_number_is_double [OF a]] show ?thesis by simp
qed

lemma five_not_dvd_power_two: "\<not> (5::int) dvd 2 ^ j"
proof (induction j)
  case 0
  then show ?case by simp
next
  case (Suc j)
  have "coprime (5::int) 2" by (simp add: coprime_iff_gcd_eq_1 gcd_red_int [of 5 2] gcd_red_int [of 2 1])
  then have "(5::int) dvd 2 * 2 ^ j \<longleftrightarrow> (5::int) dvd 2 ^ j"
    by (rule coprime_dvd_mult_right_iff)
  with Suc show ?case by simp
qed

lemma is_double_common_grid:
  assumes "is_double u" and "is_double v"
  obtains K j :: nat and a b :: int where "u = of_int a / 2 ^ j" and "v = of_int b / 2 ^ j"
proof -
  have dy: "\<exists>a (j::nat). x = of_int a / 2 ^ j" if "is_double x" for x
  proof -
    from that obtain m p where x: "x = of_int m * 2 powi p" unfolding is_double_def by blast
    show ?thesis
    proof (cases "0 \<le> p")
      case True
      then have "x = of_int (m * 2 ^ nat p) / 2 ^ 0" by (simp add: x power_int_nonneg_exp)
      then show ?thesis by blast
    next
      case False
      then have "(2::real) powi p = 1 / 2 ^ nat (- p)"
        by (simp add: power_int_def field_simps)
      then have "x = of_int m / 2 ^ nat (- p)" by (simp add: x)
      then show ?thesis by blast
    qed
  qed
  from dy [OF assms(1)] obtain a j where u: "u = of_int a / 2 ^ j" by blast
  from dy [OF assms(2)] obtain b i where v: "v = of_int b / 2 ^ i" by blast
  have "u = of_int (a * 2 ^ i) / 2 ^ (j + i)" by (simp add: u power_add)
  moreover have "v = of_int (b * 2 ^ j) / 2 ^ (j + i)" by (simp add: v power_add)
  ultimately show ?thesis using that [of "a * 2 ^ i" "j + i" "b * 2 ^ j"] by blast
qed

lemma is_double_diff_not_stroop:
  assumes "is_double u" and "is_double v"
  shows "u - v \<noteq> 1 / 10 ^ 7"
proof
  assume d: "u - v = 1 / 10 ^ 7"
  from is_double_common_grid [OF assms] obtain j :: nat and a b :: int
    where u: "u = of_int a / 2 ^ j" and v: "v = of_int b / 2 ^ j" by metis
  have "u - v = of_int (a - b) / 2 ^ j" by (simp add: u v diff_divide_distrib)
  with d have "of_int (a - b) * (10 ^ 7 :: real) = 2 ^ j" by (simp add: field_simps)
  then have "(of_int ((a - b) * 10 ^ 7) :: real) = of_int (2 ^ j)" by simp
  then have "(a - b) * 10 ^ 7 = (2::int) ^ j" by (simp only: of_int_eq_iff)
  moreover have "(5::int) dvd (a - b) * 10 ^ 7" by (rule dvd_mult) simp
  ultimately have "(5::int) dvd 2 ^ j" by simp
  then show False using five_not_dvd_power_two by blast
qed

lemma is_double_large_integer:
  assumes "is_double v" and "2 ^ 53 \<le> v"
  shows "\<exists>z::int. v = of_int z"
proof -
  from assms(1) obtain m p where v: "v = of_int m * 2 powi p" and m: "\<bar>m\<bar> \<le> 2 ^ 53"
    unfolding is_double_def by blast
  have "0 \<le> p"
  proof (rule ccontr)
    assume "\<not> 0 \<le> p"
    then have "(2::real) powi p \<le> 2 powi (- 1)" by (intro power_int_increasing) simp_all
    then have h: "(2::real) powi p \<le> 1 / 2" by simp
    have "v \<le> \<bar>v\<bar>" by simp
    also have "\<bar>v\<bar> = of_int \<bar>m\<bar> * 2 powi p" by (simp add: v abs_mult)
    also have "\<dots> \<le> 2 ^ 53 * 2 powi p"
    proof (rule mult_right_mono)
      have "(of_int \<bar>m\<bar> :: real) \<le> of_int (2 ^ 53)" using m by (simp only: of_int_le_iff)
      then show "(of_int \<bar>m\<bar> :: real) \<le> 2 ^ 53" by simp
    qed simp
    also have "\<dots> \<le> 2 ^ 53 * (1 / 2)" using h by (intro mult_left_mono) simp_all
    finally show False using assms(2) by simp
  qed
  then have "v = of_int (m * 2 ^ nat p)" by (simp add: v power_int_nonneg_exp)
  then show ?thesis by blast
qed

lemma abs_scale:
  assumes "0 < (c::real)"
  shows "\<bar>a * c - b * c\<bar> = \<bar>a - b\<bar> * c"
proof -
  have "a * c - b * c = (a - b) * c" by (simp add: algebra_simps)
  then have "\<bar>a * c - b * c\<bar> = \<bar>(a - b) * c\<bar>" by (simp only:)
  also have "\<dots> = \<bar>a - b\<bar> * \<bar>c\<bar>" by (rule abs_mult)
  also have "\<bar>c\<bar> = c" using assms by simp
  finally show ?thesis .
qed

text \<open>The core of idempotence: rounding to seven decimals, to a Number, and again.\<close>

lemma fixed_roundtrip:
  assumes v: "is_double v" and v0: "0 \<le> v" and v21: "v < 10 ^ 21"
  defines "n \<equiv> \<lfloor>v * 10 ^ 7 + 1 / 2\<rfloor>"
  shows "\<exists>u. to_number (of_int n / 10 ^ 7) = Fin u \<and> 0 \<le> u \<and> u < 10 ^ 21 \<and>
             \<lfloor>u * 10 ^ 7 + 1 / 2\<rfloor> = n \<and> (0 < n \<longrightarrow> 0 < u)"
proof -
  define q :: real where "q = of_int n / 10 ^ 7"
  define N :: real where "N = of_int n"
  define V where "V = v * 10 ^ 7"
  have n0: "0 \<le> n" using v0 by (simp add: n_def)
  have nlo: "N \<le> V + 1 / 2" and nhi: "V + 1 / 2 < N + 1"
    unfolding n_def N_def V_def by linarith+
  have qN: "q * 10 ^ 7 = N" by (simp add: q_def N_def)
  show ?thesis
  proof (cases "n = 0")
    case True
    then show ?thesis by (simp add: to_number_def)
  next
    case False
    then have "1 \<le> n" using n0 by simp
    then have N1: "1 \<le> N" by (simp add: N_def)
    have "0 < N / 10 ^ 7" using N1 by simp
    then have qpos: "0 < q" by (simp add: q_def N_def)
    define u where "u = rnd q"
    define U where "U = u * 10 ^ 7"
    have uq: "\<bar>u - q\<bar> \<le> \<bar>v - q\<bar>" unfolding u_def by (rule rnd_nearest [OF qpos v])
    have ud: "is_double u" unfolding u_def by (rule rnd_is_double(1) [OF qpos])
    have "\<bar>U - N\<bar> = \<bar>u - q\<bar> * 10 ^ 7"
      unfolding U_def qN [symmetric] by (rule abs_scale) simp
    moreover have "\<bar>V - N\<bar> = \<bar>v - q\<bar> * 10 ^ 7"
      unfolding V_def qN [symmetric] by (rule abs_scale) simp
    moreover have "\<bar>u - q\<bar> * 10 ^ 7 \<le> \<bar>v - q\<bar> * 10 ^ 7"
      using uq by (rule mult_right_mono) simp
    ultimately have UV: "\<bar>U - N\<bar> \<le> \<bar>V - N\<bar>" by simp
    have Ulo: "N - 1 / 2 \<le> U" and Uhi: "U \<le> N + 1 / 2"
      using UV nlo nhi by linarith+
    have "0 < U" using Ulo N1 by linarith
    then have upos: "0 < u" by (simp add: U_def zero_less_mult_iff)
    have u21: "u < 10 ^ 21"
    proof (cases "2 ^ 53 \<le> v")
      case True
      from is_double_large_integer [OF v True] obtain z :: int where z: "v = of_int z" by blast
      have "v * 10 ^ 7 + 1 / 2 = of_int (z * 10 ^ 7) + 1 / 2" by (simp add: z)
      then have "n = \<lfloor>of_int (z * 10 ^ 7) + (1 / 2 :: real)\<rfloor>" unfolding n_def by simp
      also have "\<dots> = z * 10 ^ 7" by linarith
      finally have "q = v" by (simp add: q_def z)
      with uq have "u = v" by simp
      with v21 show ?thesis by simp
    next
      case False
      then have "V < 2 ^ 53 * 10 ^ 7" by (simp add: V_def)
      with Uhi nlo have "U < 2 ^ 53 * 10 ^ 7 + 1" by linarith
      then have "u * 10 ^ 7 < 10 ^ 21 * 10 ^ 7" by (simp add: U_def)
      then show ?thesis by (simp only: mult_less_cancel_right_pos zero_less_power zero_less_numeral)
    qed
    have fin: "to_number q = Fin u"
      using u21 qpos by (simp add: to_number_pos u_def)
    have "U \<noteq> N + 1 / 2"
    proof
      assume t: "U = N + 1 / 2"
      with UV nlo nhi have "V = N - 1 / 2" by linarith
      with t have "U - V = 1" by simp
      then have "(u - v) * 10 ^ 7 = 1" by (simp only: U_def V_def left_diff_distrib)
      then have "u - v = 1 / 10 ^ 7" by (simp only: eq_divide_eq_numeral1 eq_divide_eq; simp)
      with is_double_diff_not_stroop [OF ud v] show False by blast
    qed
    with Uhi have "U < N + 1 / 2" by simp
    with Ulo have "\<lfloor>U + 1 / 2\<rfloor> = n" unfolding N_def by linarith
    with fin upos u21 show ?thesis unfolding q_def U_def by auto
  qed
qed

lemma unat_digit_char: "d < 10 \<Longrightarrow> unat (48 + of_nat d :: code_unit) = 48 + d"
proof -
  assume d: "d < 10"
  have "unat (of_nat (48 + d) :: code_unit) = (48 + d) mod 2 ^ LENGTH(16)"
    by (simp only: unat_of_nat)
  also have "\<dots> = 48 + d" using d by simp
  finally show ?thesis by simp
qed

lemma isDigit_unat: "isDigit c \<longleftrightarrow> 48 \<le> unat c \<and> unat c \<le> 57"
  by (simp add: isDigit_def word_le_nat_alt)

lemma isDigit_digit_char: "d < 10 \<Longrightarrow> isDigit (48 + of_nat d)"
  by (simp add: isDigit_unat unat_digit_char)

lemma digitValue_digit_char: "d < 10 \<Longrightarrow> digitValue (48 + of_nat d) = d"
  by (simp add: digitValue_def unat_digit_char)

lemma decimalDigits_nonempty: "decimalDigits n \<noteq> []"
  by (subst decimalDigits.simps) simp

lemma decimalDigits_all_digits: "list_all isDigit (decimalDigits n)"
proof (induction n rule: decimalDigits.induct)
  case (1 n)
  show ?case
  proof (cases "n < 10")
    case True
    then show ?thesis by (subst decimalDigits.simps) (simp add: isDigit_digit_char)
  next
    case False
    with 1 show ?thesis by (subst decimalDigits.simps) (simp add: isDigit_digit_char)
  qed
qed

lemma digitsValue_snoc: "digitsValue (ds @ [c]) = 10 * digitsValue ds + digitValue c"
  by (simp add: digitsValue_def)

lemma digitsValue_decimalDigits: "digitsValue (decimalDigits n) = n"
proof (induction n rule: decimalDigits.induct)
  case (1 n)
  show ?case
  proof (cases "n < 10")
    case True
    then show ?thesis
      by (subst decimalDigits.simps) (simp add: digitsValue_def digitValue_digit_char)
  next
    case False
    with 1 show ?thesis
      by (subst decimalDigits.simps) (simp add: digitsValue_snoc digitValue_digit_char)
  qed
qed

lemma decimalDigits_length_bounds:
  "n < 10 ^ length (decimalDigits n)" "0 < n \<Longrightarrow> 10 ^ (length (decimalDigits n) - 1) \<le> n"
proof -
  have "n < 10 ^ length (decimalDigits n) \<and> (0 < n \<longrightarrow> 10 ^ (length (decimalDigits n) - 1) \<le> n)"
  proof (induction n rule: decimalDigits.induct)
    case (1 n)
    show ?case
    proof (cases "n < 10")
      case True
      then show ?thesis by (subst (1 2) decimalDigits.simps) simp
    next
      case False
      let ?l = "length (decimalDigits (n div 10))"
      have l: "length (decimalDigits n) = ?l + 1"
        using False by (subst decimalDigits.simps) simp
      have pos: "0 < n div 10" using False by simp
      from 1 False pos have a: "n div 10 < 10 ^ ?l" and b: "10 ^ (?l - 1) \<le> n div 10" by simp_all
      have "0 < ?l" using decimalDigits_nonempty [of "n div 10"] by simp
      then have l1: "?l = Suc (?l - 1)" by simp
      have "n < 10 * 10 ^ ?l" using a by linarith
      moreover have "10 * 10 ^ (?l - 1) \<le> n" using b by linarith
      then have "10 ^ ?l \<le> n" by (subst l1) simp
      ultimately show ?thesis by (simp add: l)
    qed
  qed
  then show "n < 10 ^ length (decimalDigits n)"
    "0 < n \<Longrightarrow> 10 ^ (length (decimalDigits n) - 1) \<le> n" by simp_all
qed

lemma digitsValue_zeros: "digitsValue (zeros k @ ds) = digitsValue ds"
proof -
  have z: "digitValue (ch CHR ''0'') = 0" by (simp add: digitValue_def ch_def)
  have "foldl (\<lambda>a c. 10 * a + digitValue c) 0 (replicate k (ch CHR ''0'')) = 0"
    by (induction k) (simp_all add: z)
  then show ?thesis by (simp add: digitsValue_def zeros_def)
qed

lemma zeros_all_digits: "list_all isDigit (zeros k)"
  by (simp add: zeros_def list_all_iff isDigit_def ch_def)

lemma takeWhile_digits:
  assumes "list_all isDigit ds" and "rest = [] \<or> \<not> isDigit (hd rest)"
  shows "takeWhile isDigit (ds @ rest) = ds" and "dropWhile isDigit (ds @ rest) = rest"
proof -
  have a: "\<And>x. x \<in> set ds \<Longrightarrow> isDigit x" using assms(1) by (simp add: list_all_iff)
  have t: "takeWhile isDigit rest = []" and d: "dropWhile isDigit rest = rest"
    using assms(2) by (cases rest; simp)+
  show "takeWhile isDigit (ds @ rest) = ds" using a t by (simp add: takeWhile_append2)
  show "dropWhile isDigit (ds @ rest) = rest" using a d by (simp add: dropWhile_append2)
qed

lemma not_Infinity:
  assumes "s \<noteq> []" and "isDigit (hd s)"
  shows "take 8 s \<noteq> js ''Infinity''"
proof
  assume "take 8 s = js ''Infinity''"
  then have "hd (take 8 s) = hd (js ''Infinity'')" by simp
  with assms(1) have "hd s = hd (js ''Infinity'')" by (cases s) simp_all
  with assms(2) show False by (simp add: js_def ch_def isDigit_def)
qed

lemma unsigned_fixed:
  assumes ip: "ip \<noteq> []" "list_all isDigit ip" and fp: "list_all isDigit fp"
  shows "StrUnsignedDecimalLiteral (ip @ js ''.'' @ fp) = Some (decimalMV ip fp 0)"
proof -
  have nd: "\<not> isDigit (ch CHR ''.'')" by (simp add: isDigit_def ch_def)
  have dot: "js ''.'' @ fp = ch CHR ''.'' # fp" by (simp add: js_def)
  have h: "isDigit (hd (ip @ js ''.'' @ fp))" using ip by (cases ip) simp_all
  have ni: "take 8 (ip @ js ''.'' @ fp) \<noteq> js ''Infinity''"
    by (rule not_Infinity) (use ip h in simp_all)
  have t1: "takeWhile isDigit (ip @ ch CHR ''.'' # fp) = ip"
    and d1: "dropWhile isDigit (ip @ ch CHR ''.'' # fp) = ch CHR ''.'' # fp"
    using takeWhile_digits [OF ip(2), of "ch CHR ''.'' # fp"] nd by simp_all
  have t2: "takeWhile isDigit fp = fp" and d2: "dropWhile isDigit fp = []"
    using takeWhile_digits [OF fp, of "[]"] by simp_all
  show ?thesis
    using ni ip(1) unfolding dot
    by (simp add: StrUnsignedDecimalLiteral_def Let_def t1 d1 t2 d2 scanExponent_def)
qed

lemma digit_not_space: "isDigit c \<Longrightarrow> \<not> isWhiteSpace c"
  by (auto simp: isDigit_def isWhiteSpace_def word_le_nat_alt)

lemma digit_not_sign: "isDigit c \<Longrightarrow> c \<noteq> ch CHR ''+'' \<and> c \<noteq> ch CHR ''-''"
  by (auto simp: isDigit_def ch_def)

lemma parseFloat_digit:
  assumes "t \<noteq> []" and "isDigit (hd t)"
  shows "parseFloat t = signedNumber False (StrUnsignedDecimalLiteral t)"
proof -
  from assms obtain c r where t: "t = c # r" and c: "isDigit c" by (cases t) auto
  show ?thesis
    using digit_not_space [OF c] digit_not_sign [OF c]
    by (simp add: parseFloat_def trimStart_def t)
qed

lemma parseFloat_minus:
  "parseFloat (js ''-'' @ t) = signedNumber True (StrUnsignedDecimalLiteral t)"
proof -
  have "\<not> isWhiteSpace (ch CHR ''-'')" by (simp add: isWhiteSpace_def ch_def)
  moreover have "ch CHR ''-'' \<noteq> ch CHR ''+''" by (simp add: ch_def)
  ultimately show ?thesis by (simp add: parseFloat_def trimStart_def js_def)
qed

lemma fixedDigits_parts:
  obtains ip fp where "fixedDigits n 7 = ip @ js ''.'' @ fp" and "ip \<noteq> []"
    and "list_all isDigit ip" and "list_all isDigit fp" and "length fp = 7"
    and "digitsValue (ip @ fp) = n"
proof -
  define m where "m = decimalDigits n"
  define m' where "m' = (if length m \<le> 7 then zeros (7 + 1 - length m) @ m else m)"
  define k where "k = length m'"
  have k8: "8 \<le> k" by (simp add: k_def m'_def zeros_def)
  have dm: "list_all isDigit m'"
    by (simp add: m'_def m_def zeros_all_digits decimalDigits_all_digits)
  have vm: "digitsValue m' = n"
    by (simp add: m'_def m_def digitsValue_zeros digitsValue_decimalDigits)
  have f: "fixedDigits n 7 = take (k - 7) m' @ js ''.'' @ drop (k - 7) m'"
    by (simp add: fixedDigits_def Let_def m_def m'_def k_def)
  have a: "\<forall>x\<in>set m'. isDigit x" using dm by (simp add: list_all_iff)
  show ?thesis
  proof (rule that [OF f])
    show "take (k - 7) m' \<noteq> []" using k8 by (auto simp: k_def)
    show "list_all isDigit (take (k - 7) m')"
      using a by (auto simp: list_all_iff dest: in_set_takeD)
    show "list_all isDigit (drop (k - 7) m')"
      using a by (auto simp: list_all_iff dest: in_set_dropD)
    show "length (drop (k - 7) m') = 7" using k8 by (simp add: k_def)
    show "digitsValue (take (k - 7) m' @ drop (k - 7) m') = n" using vm by simp
  qed
qed

lemma hd_digit_append:
  assumes "ip \<noteq> []" and "list_all isDigit ip"
  shows "ip @ r \<noteq> []" and "isDigit (hd (ip @ r))"
  using assms by (cases ip; simp)+

lemma parseFloat_fixedDigits:
  "parseFloat (fixedDigits n 7) = to_number (real n / 10 ^ 7)"
  "parseFloat (js ''-'' @ fixedDigits n 7) = negate (to_number (real n / 10 ^ 7))"
proof -
  obtain ip fp where f: "fixedDigits n 7 = ip @ js ''.'' @ fp" and ip: "ip \<noteq> []" "list_all isDigit ip"
    and fp: "list_all isDigit fp" "length fp = 7" and v: "digitsValue (ip @ fp) = n"
    by (rule fixedDigits_parts)
  have u: "StrUnsignedDecimalLiteral (fixedDigits n 7) = Some (MV (real n / 10 ^ 7))"
    unfolding f unsigned_fixed [OF ip fp(1)]
    by (simp add: decimalMV_def v fp(2) power_int_minus_divide)
  show "parseFloat (fixedDigits n 7) = to_number (real n / 10 ^ 7)"
    using parseFloat_digit [OF hd_digit_append [OF ip, of "js ''.'' @ fp"]] u
    by (simp add: f)
  show "parseFloat (js ''-'' @ fixedDigits n 7) = negate (to_number (real n / 10 ^ 7))"
    by (simp add: parseFloat_minus u)
qed

lemma scanExponent_plus:
  assumes "ex \<noteq> []" and "list_all isDigit ex"
  shows "scanExponent (js ''e'' @ js ''+'' @ ex) = int (digitsValue ex)"
proof -
  have t: "takeWhile isDigit ex = ex" using takeWhile_digits(1) [OF assms(2), of "[]"] by simp
  show ?thesis using assms(1) by (simp add: scanExponent_def js_def t)
qed

lemma unsigned_exponent:
  assumes ip: "ip \<noteq> []" "list_all isDigit ip" and ex: "ex \<noteq> []" "list_all isDigit ex"
  shows "StrUnsignedDecimalLiteral (ip @ js ''e'' @ js ''+'' @ ex) =
         Some (decimalMV ip [] (int (digitsValue ex)))"
proof -
  let ?r = "js ''e'' @ js ''+'' @ ex"
  have r: "?r = ch CHR ''e'' # (js ''+'' @ ex)" by (simp add: js_def)
  have nd: "\<not> isDigit (ch CHR ''e'')" by (simp add: isDigit_def ch_def)
  have ne: "ch CHR ''e'' \<noteq> ch CHR ''.''" by (simp add: ch_def)
  have ni: "take 8 (ip @ ?r) \<noteq> js ''Infinity''"
    by (rule not_Infinity) (use hd_digit_append [OF ip] in simp_all)
  have t1: "takeWhile isDigit (ip @ ?r) = ip" and d1: "dropWhile isDigit (ip @ ?r) = ?r"
    using takeWhile_digits [OF ip(2), of ?r] nd by (simp_all add: r)
  have se: "scanExponent (ch CHR ''e'' # (js ''+'' @ ex)) = int (digitsValue ex)"
    using scanExponent_plus [OF ex] by (simp only: r)
  have "StrUnsignedDecimalLiteral (ip @ ?r) =
      (case ?r of
         [] \<Rightarrow> if ip = [] then None else Some (decimalMV ip [] 0)
       | c # r2 \<Rightarrow>
           if c = ch CHR ''.'' then
             (let fp = takeWhile isDigit r2; r3 = dropWhile isDigit r2 in
              if ip = [] \<and> fp = [] then None else Some (decimalMV ip fp (scanExponent r3)))
           else if ip = [] then None
           else Some (decimalMV ip [] (scanExponent ?r)))"
    using ni by (simp only: StrUnsignedDecimalLiteral_def Let_def t1 d1 if_False)
  also have "\<dots> = Some (decimalMV ip [] (int (digitsValue ex)))"
    unfolding r using ip(1) ne by (simp add: se)
  finally show ?thesis .
qed

lemma unsigned_fraction_exponent:
  assumes ip: "ip \<noteq> []" "list_all isDigit ip" and fp: "list_all isDigit fp"
    and ex: "ex \<noteq> []" "list_all isDigit ex"
  shows "StrUnsignedDecimalLiteral (ip @ js ''.'' @ fp @ js ''e'' @ js ''+'' @ ex) =
         Some (decimalMV ip fp (int (digitsValue ex)))"
proof -
  let ?r = "js ''e'' @ js ''+'' @ ex"
  have r: "?r = ch CHR ''e'' # (js ''+'' @ ex)" by (simp add: js_def)
  have dot: "js ''.'' @ fp @ ?r = ch CHR ''.'' # (fp @ ?r)" by (simp add: js_def)
  have nd: "\<not> isDigit (ch CHR ''e'')" "\<not> isDigit (ch CHR ''.'')" by (simp_all add: isDigit_def ch_def)
  have ni: "take 8 (ip @ js ''.'' @ fp @ ?r) \<noteq> js ''Infinity''"
    by (rule not_Infinity) (use hd_digit_append [OF ip] in simp_all)
  have t1: "takeWhile isDigit (ip @ ch CHR ''.'' # (fp @ ?r)) = ip"
    and d1: "dropWhile isDigit (ip @ ch CHR ''.'' # (fp @ ?r)) = ch CHR ''.'' # (fp @ ?r)"
    using takeWhile_digits [OF ip(2), of "ch CHR ''.'' # (fp @ ?r)"] nd by simp_all
  have t2: "takeWhile isDigit (fp @ ?r) = fp" and d2: "dropWhile isDigit (fp @ ?r) = ?r"
    using takeWhile_digits [OF fp, of ?r] nd by (simp_all add: r)
  show ?thesis
    using ni ip(1) unfolding dot
    by (simp add: StrUnsignedDecimalLiteral_def Let_def t1 d1 t2 d2 scanExponent_plus [OF ex]
        del: append_assoc)
qed

lemma closest_mem: "closest v k l = Some r \<Longrightarrow> r \<in> set l"
proof (induction l arbitrary: r)
  case Nil
  then show ?case by simp
next
  case (Cons a as)
  show ?case
  proof (cases "closest v k as")
    case None
    with Cons.prems show ?thesis by simp
  next
    case (Some b)
    with Cons.prems have "r = closer v k a b" by simp
    then have "r = a \<or> r = b" by (auto simp: closer_def Let_def)
    with Cons.IH [OF Some] show ?thesis by auto
  qed
qed

lemma closest_None: "closest v k l = None \<longleftrightarrow> l = []"
  by (cases l) (auto split: option.splits)

lemma shortestDigits_finds:
  assumes "k0 \<le> K" and "K \<le> 800"
    and "digitCandidates v K n0 @ digitCandidates v K (n0 + 1) \<noteq> []"
  shows "\<exists>n k s. shortestDigits v n0 k0 = Some (n, k, s) \<and> k0 \<le> k \<and>
           (n, s) \<in> set (digitCandidates v k n0 @ digitCandidates v k (n0 + 1))"
  using assms(1)
proof (induction "K - k0" arbitrary: k0)
  case 0
  then have k: "k0 = K" by simp
  from assms(3) obtain r where r: "closest v K (digitCandidates v K n0 @ digitCandidates v K (n0 + 1)) = Some r"
    using closest_None [of v K] by (cases "closest v K (digitCandidates v K n0 @ digitCandidates v K (n0 + 1))") auto
  obtain n s where ns: "r = (n, s)" by (cases r)
  have "shortestDigits v n0 K = Some (n, K, s)"
    using assms(2) r ns by (subst shortestDigits.simps) simp
  with closest_mem [OF r] ns k show ?case by blast
next
  case (Suc d)
  then have lt: "k0 < K" by simp
  then have le: "\<not> 800 < k0" using assms(2) by simp
  show ?case
  proof (cases "closest v k0 (digitCandidates v k0 n0 @ digitCandidates v k0 (n0 + 1))")
    case None
    have "d = K - Suc k0" using Suc.hyps(2) by simp
    from Suc.hyps(1) [OF this] lt obtain n k s where
      "shortestDigits v n0 (Suc k0) = Some (n, k, s)" "Suc k0 \<le> k"
      "(n, s) \<in> set (digitCandidates v k n0 @ digitCandidates v k (n0 + 1))"
      by auto
    moreover have "shortestDigits v n0 k0 = shortestDigits v n0 (Suc k0)"
      using le None by (subst shortestDigits.simps) simp
    ultimately show ?thesis by (intro exI [of _ n] exI [of _ k] exI [of _ s]) simp
  next
    case (Some r)
    obtain n s where ns: "r = (n, s)" by (cases r)
    have "shortestDigits v n0 k0 = Some (n, k0, s)"
      using le Some ns by (subst shortestDigits.simps) simp
    with closest_mem [OF Some] ns show ?thesis by blast
  qed
qed

lemma digitCandidates_mem:
  assumes "(n', s) \<in> set (digitCandidates v k n)"
  shows "n' = n" and "10 ^ (k - 1) \<le> s" and "s < 10 ^ k"
    and "to_number (of_int s * 10 powi (n - int k)) = Fin v"
proof -
  let ?t = "\<lfloor>v / 10 powi (n - int k)\<rfloor>"
  let ?P = "\<lambda>s. 10 ^ (k - 1) \<le> s \<and> s < 10 ^ k \<and>
                 to_number (of_int s * 10 powi (n - int k)) = Fin v"
  have "(n', s) \<in> (\<lambda>s. (n, s)) ` {s \<in> set [?t, ?t + 1]. ?P s}"
    using assms unfolding digitCandidates_def Let_def set_map set_filter .
  then have "n' = n \<and> ?P s" by blast
  then show "n' = n" and "10 ^ (k - 1) \<le> s" and "s < 10 ^ k"
    and "to_number (of_int s * 10 powi (n - int k)) = Fin v" by simp_all
qed

lemma decimalDigits_length:
  assumes "10 ^ (k - 1) \<le> m" and "m < 10 ^ k" and "1 \<le> k"
  shows "length (decimalDigits m) = k"
proof -
  let ?l = "length (decimalDigits m)"
  have mpos: "0 < m" using assms(1) by (metis less_le_trans zero_less_numeral zero_less_power)
  have l1: "1 \<le> ?l" using decimalDigits_nonempty [of m] by (cases "decimalDigits m") simp_all
  have "(10::nat) ^ (?l - 1) < 10 ^ k"
    using decimalDigits_length_bounds(2) [OF mpos] assms(2) by linarith
  then have a: "?l - 1 < k" by (rule power_less_imp_less_exp [rotated]) simp
  have "(10::nat) ^ (k - 1) < 10 ^ ?l"
    using decimalDigits_length_bounds(1) [of m] assms(1) by linarith
  then have "k - 1 < ?l" by (rule power_less_imp_less_exp [rotated]) simp
  with a l1 assms(3) show ?thesis by linarith
qed

lemma large_double_digits:
  assumes dx: "is_double x" and x21: "10 ^ 21 \<le> x" and xb: "x < 2 ^ 1024"
  obtains n k s where "shortestDigits x (integerDigitCount x) 1 = Some (n, k, s)"
    and "22 \<le> n" and "1 \<le> k" and "10 ^ (k - 1) \<le> s" and "s < 10 ^ k"
    and "to_number (of_int s * 10 powi (n - int k)) = Fin x"
proof -
  have "(2::real) ^ 53 \<le> 10 ^ 21" by simp
  with x21 have "2 ^ 53 \<le> x" by linarith
  from is_double_large_integer [OF dx this] obtain z :: int where z: "x = of_int z" by blast
  have z21: "10 ^ 21 \<le> z" using x21 unfolding z by (metis of_int_le_iff of_int_numeral of_int_power)
  have zb: "z < 2 ^ 1024" using xb unfolding z by (metis of_int_less_iff of_int_numeral of_int_power)
  define Z where "Z = nat z"
  define L where "L = length (decimalDigits Z)"
  have zZ: "z = int Z" using z21 by (simp add: Z_def)
  have Zpos: "0 < Z" using z21 by (simp add: Z_def)
  have ZL: "Z < 10 ^ L" and LZ: "10 ^ (L - 1) \<le> Z"
    using decimalDigits_length_bounds [of Z] Zpos by (simp_all add: L_def)
  have "(10::nat) ^ 21 \<le> Z" using z21 by (simp add: Z_def le_nat_iff)
  with ZL have "(10::nat) ^ 21 < 10 ^ L" by linarith
  then have "21 < L" by (rule power_less_imp_less_exp [rotated]) simp
  then have L22: "22 \<le> L" by simp
  have "(2::nat) ^ 1024 \<le> 10 ^ 309" by simp
  moreover have "Z < 2 ^ 1024" using zb by (simp add: Z_def nat_less_iff)
  ultimately have "(10::nat) ^ (L - 1) < 10 ^ 309" using LZ by linarith
  then have "L - 1 < 309" by (rule power_less_imp_less_exp [rotated]) simp
  then have L800: "L \<le> 800" by simp
  have n0: "integerDigitCount x = int L"
    using x21 by (simp add: integerDigitCount_def z L_def Z_def)
  have fx: "to_number x = Fin x" using dx xb x21 by (intro to_number_fix) simp_all
  have "(int L, z) \<in> set (digitCandidates x L (int L))"
  proof -
    have "(10::int) ^ (L - 1) \<le> z" using LZ unfolding zZ by (metis of_nat_le_iff of_nat_numeral of_nat_power)
    moreover have "z < 10 ^ L" using ZL unfolding zZ by (metis of_nat_less_iff of_nat_numeral of_nat_power)
    ultimately show ?thesis using fx by (simp add: digitCandidates_def Let_def z)
  qed
  then have "digitCandidates x L (int L) @ digitCandidates x L (int L + 1) \<noteq> []" by auto
  from shortestDigits_finds [OF _ L800 this, of 1] L22 obtain n k s where
    sd: "shortestDigits x (int L) 1 = Some (n, k, s)" and k1: "1 \<le> k"
    and mem: "(n, s) \<in> set (digitCandidates x k (int L) @ digitCandidates x k (int L + 1))"
    by auto
  from mem have "(n, s) \<in> set (digitCandidates x k (int L)) \<or> (n, s) \<in> set (digitCandidates x k (int L + 1))"
    by simp
  then have "22 \<le> n \<and> 10 ^ (k - 1) \<le> s \<and> s < 10 ^ k \<and> to_number (of_int s * 10 powi (n - int k)) = Fin x"
    using L22 by (auto dest: digitCandidates_mem)
  with sd k1 show ?thesis using that [of n k s] by (simp add: n0)
qed

lemma parse_formatDigits:
  assumes n: "22 \<le> n" and k: "1 \<le> k" and s: "10 ^ (k - 1) \<le> s" "s < 10 ^ k"
  shows "formatDigits n k s \<noteq> []" and "isDigit (hd (formatDigits n k s))"
    and "StrUnsignedDecimalLiteral (formatDigits n k s) = Some (MV (of_int s * 10 powi (n - int k)))"
proof -
  define ds where "ds = decimalDigits (nat s)"
  define ex where "ex = decimalDigits (nat (n - 1))"
  have spos: "0 < s" using s(1) by (metis less_le_trans zero_less_numeral zero_less_power)
  have "(10::nat) ^ (k - 1) \<le> nat s" using s(1) spos by (simp add: le_nat_iff)
  moreover have "nat s < 10 ^ k" using s(2) spos by (simp add: nat_less_iff)
  ultimately have len: "length ds = k" unfolding ds_def using k by (rule decimalDigits_length)
  have dd: "list_all isDigit ds" "ds \<noteq> []"
    by (simp_all add: ds_def decimalDigits_all_digits decimalDigits_nonempty)
  have de: "list_all isDigit ex" "ex \<noteq> []"
    by (simp_all add: ex_def decimalDigits_all_digits decimalDigits_nonempty)
  have vd: "real (digitsValue ds) = of_int s" using spos by (simp add: ds_def digitsValue_decimalDigits)
  have ve: "int (digitsValue ex) = n - 1" using n by (simp add: ex_def digitsValue_decimalDigits)
  have f: "formatDigits n k s =
      (if k = 1 then ds @ js ''e'' @ js ''+'' @ ex
       else take 1 ds @ js ''.'' @ drop 1 ds @ js ''e'' @ js ''+'' @ ex)"
    using n by (simp add: formatDigits_def Let_def ds_def ex_def)
  have t1: "take 1 ds \<noteq> []" "list_all isDigit (take 1 ds)" "list_all isDigit (drop 1 ds)"
    using dd by (cases ds; simp)+
  have l1: "int (k - Suc 0) = int k - 1" using k by simp
  show "formatDigits n k s \<noteq> []" using dd t1 by (simp add: f)
  show "isDigit (hd (formatDigits n k s))"
    using hd_digit_append(2) [OF dd(2,1)] hd_digit_append(2) [OF t1(1,2)] by (simp add: f)
  show "StrUnsignedDecimalLiteral (formatDigits n k s) = Some (MV (of_int s * 10 powi (n - int k)))"
  proof (cases "k = 1")
    case True
    then show ?thesis
      unfolding f using unsigned_exponent [OF dd(2,1) de(2,1)]
      by (simp add: decimalMV_def vd ve)
  next
    case False
    have "n - 1 - (int k - 1) = n - int k" by simp
    then show ?thesis
      unfolding f using unsigned_fraction_exponent [OF t1 de(2,1)] False
      by (simp add: decimalMV_def vd ve len l1)
  qed
qed

lemma parseFloat_NumberToString_large:
  assumes dx: "is_double x" and x21: "10 ^ 21 \<le> x" and xb: "x < 2 ^ 1024"
  shows "parseFloat (NumberToString (Fin x)) = Fin x"
    and "parseFloat (js ''-'' @ NumberToString (Fin x)) = Fin (- x)"
proof -
  from large_double_digits [OF assms] obtain n k s where
    sd: "shortestDigits x (integerDigitCount x) 1 = Some (n, k, s)"
    and n: "22 \<le> n" and k: "1 \<le> k" and s: "10 ^ (k - 1) \<le> s" "s < 10 ^ k"
    and r: "to_number (of_int s * 10 powi (n - int k)) = Fin x"
    by blast
  have xpos: "0 < x" using x21 by (smt (verit) zero_less_power)
  have nts: "NumberToString (Fin x) = formatDigits n k s"
    using xpos sd by simp
  note p = parse_formatDigits [OF n k s]
  show "parseFloat (NumberToString (Fin x)) = Fin x"
    unfolding nts parseFloat_digit [OF p(1,2)] p(3) using r by simp
  show "parseFloat (js ''-'' @ NumberToString (Fin x)) = Fin (- x)"
    unfolding nts parseFloat_minus p(3) using r by simp
qed

lemma signedNumber_Fin:
  assumes "signedNumber b m = Fin v"
  shows "is_double v" and "\<bar>v\<bar> < 2 ^ 1024"
proof -
  from assms obtain q where m: "m = Some (MV q)"
    by (cases m; cases "the m") (auto split: if_splits)
  have "is_double v \<and> \<bar>v\<bar> < 2 ^ 1024"
  proof (cases b)
    case False
    with assms m have "to_number q = Fin v" by simp
    with to_number_is_double [OF this] to_number_idem [OF this] show ?thesis by simp
  next
    case True
    with assms m have "negate (to_number q) = Fin v" by simp
    then have "to_number q = Fin (- v)" by (cases "to_number q") auto
    with to_number_is_double [OF this] to_number_idem [OF this] is_double_minus [of "- v"]
    show ?thesis by simp
  qed
  then show "is_double v" and "\<bar>v\<bar> < 2 ^ 1024" by simp_all
qed

lemma parseFloat_Fin:
  assumes "parseFloat s = Fin v"
  shows "is_double v" and "\<bar>v\<bar> < 2 ^ 1024"
proof -
  from assms obtain b m where "signedNumber b m = Fin v"
    by (auto simp: parseFloat_def split: list.splits if_splits)
  then show "is_double v" and "\<bar>v\<bar> < 2 ^ 1024" by (rule signedNumber_Fin)+
qed

lemma real_nat_floor: "0 \<le> (y::real) \<Longrightarrow> real (nat \<lfloor>y\<rfloor>) = of_int \<lfloor>y\<rfloor>"
  by simp

lemma toFixed_idem_fin:
  assumes dv: "is_double v" and vb: "\<bar>v\<bar> < 2 ^ 1024" and ex: "v < 0 \<Longrightarrow> v \<le> - 5 / 10 ^ 8"
  shows "toFixed (parseFloat (toFixed (Fin v) 7)) 7 = toFixed (Fin v) 7"
proof (cases "10 ^ 21 \<le> \<bar>v\<bar>")
  case True
  note rt = parseFloat_NumberToString_large [OF is_double_abs [OF dv] True vb]
  show ?thesis
  proof (cases "v < 0")
    case neg: True
    then have f: "toFixed (Fin v) 7 = js ''-'' @ NumberToString (Fin \<bar>v\<bar>)"
      using True by (simp add: Let_def)
    have "parseFloat (js ''-'' @ NumberToString (Fin \<bar>v\<bar>)) = Fin v"
      using rt(2) neg by simp
    then show ?thesis unfolding f by (simp only: f)
  next
    case pos: False
    then have f: "toFixed (Fin v) 7 = NumberToString (Fin \<bar>v\<bar>)"
      using True by (simp add: Let_def)
    have "parseFloat (NumberToString (Fin \<bar>v\<bar>)) = Fin v"
      using rt(1) pos by simp
    then show ?thesis unfolding f by (simp only: f)
  qed
next
  case False
  define x where "x = \<bar>v\<bar>"
  define z where "z = \<lfloor>x * 10 ^ 7 + 1 / 2\<rfloor>"
  have x0: "0 \<le> x" and x21: "x < 10 ^ 21" using False by (simp_all add: x_def)
  have z0: "0 \<le> z" using x0 by (simp add: z_def)
  from fixed_roundtrip [OF is_double_abs [OF dv], folded x_def, OF x0 x21, folded z_def]
  obtain u where u: "to_number (of_int z / 10 ^ 7) = Fin u" and u0: "0 \<le> u" and u21: "u < 10 ^ 21"
    and uz: "\<lfloor>u * 10 ^ 7 + 1 / 2\<rfloor> = z" and upos: "0 < z \<longrightarrow> 0 < u"
    by blast
  have rz: "real (nat z) = of_int z" using z0 by simp
  show ?thesis
  proof (cases "v < 0")
    case neg: True
    then have f: "toFixed (Fin v) 7 = js ''-'' @ fixedDigits (nat z) 7"
      using False by (simp add: Let_def x_def z_def)
    have "5 / 10 ^ 8 \<le> x" using ex [OF neg] neg by (simp add: x_def)
    then have "1 \<le> x * 10 ^ 7 + 1 / 2" by simp
    then have "1 \<le> z" unfolding z_def by linarith
    with upos have up: "0 < u" by simp
    have p: "parseFloat (js ''-'' @ fixedDigits (nat z) 7) = Fin (- u)"
      unfolding parseFloat_fixedDigits(2) rz u by simp
    have "toFixed (Fin (- u)) 7 = js ''-'' @ fixedDigits (nat z) 7"
      using up u21 uz by (simp add: Let_def)
    then show ?thesis unfolding f p .
  next
    case pos: False
    then have f: "toFixed (Fin v) 7 = fixedDigits (nat z) 7"
      using False by (simp add: Let_def x_def z_def)
    have p: "parseFloat (fixedDigits (nat z) 7) = Fin u"
      unfolding parseFloat_fixedDigits(1) rz u by simp
    have "toFixed (Fin u) 7 = fixedDigits (nat z) 7"
      using u0 u21 uz by (simp add: Let_def)
    then show ?thesis unfolding f p .
  qed
qed

lemma toFixed_negative_tiny:
  assumes "- 5 / 10 ^ 8 < v" and "v < 0"
  shows "toFixed (Fin v) 7 = js ''-0.0000000''"
proof -
  have "\<bar>v\<bar> * 10 ^ 7 + 1 / 2 < 1" "0 \<le> \<bar>v\<bar> * 10 ^ 7 + 1 / 2" using assms by simp_all
  then have "\<lfloor>\<bar>v\<bar> * 10 ^ 7 + 1 / 2\<rfloor> = 0" by linarith
  moreover have "\<not> 10 ^ 21 \<le> \<bar>v\<bar>" using assms by simp
  ultimately show ?thesis using assms(2)
    by (simp add: Let_def fixedDigits_def string_eval)
qed

lemma formatAmount_negative_zero:
  "toFixed (parseFloat (js ''-0.0000000'')) 7 = js ''0.0000000''"
  by (simp add: string_eval number_eval parse_eval fixedDigits_def)

lemma special_strings:
  "parseFloat (js ''NaN'') = NaN" "parseFloat (js ''Infinity'') = PosInf"
  "parseFloat (js ''-Infinity'') = NegInf" "js ''-0.0000000'' \<noteq> js ''0.0000000''"
  by (simp_all add: string_eval number_eval parse_eval)

text \<open>
  Formatting twice: the same string, except for a negative value that rounds to zero,
  which prints with its sign and then parses to zero.
\<close>

lemma formatAmount_idempotent_iff:
  "formatAmount (formatAmount s) = formatAmount s \<longleftrightarrow>
     \<not> (\<exists>x. parseFloat s = Fin x \<and> - 5 / 10 ^ 8 < x \<and> x < 0)"
proof (cases "parseFloat s")
  case NaN
  then show ?thesis by (simp add: formatAmount_def special_strings)
next
  case PosInf
  then show ?thesis by (simp add: formatAmount_def special_strings)
next
  case NegInf
  then show ?thesis by (simp add: formatAmount_def special_strings)
next
  case (Fin v)
  show ?thesis
  proof (cases "- 5 / 10 ^ 8 < v \<and> v < 0")
    case True
    then have "toFixed (Fin v) 7 = js ''-0.0000000''" by (intro toFixed_negative_tiny) simp_all
    then have "formatAmount s = js ''-0.0000000''"
      and "formatAmount (formatAmount s) = js ''0.0000000''"
      by (simp_all add: formatAmount_def Fin formatAmount_negative_zero)
    with True Fin show ?thesis by (simp add: special_strings(4) [symmetric])
  next
    case False
    then have ex: "v < 0 \<Longrightarrow> v \<le> - 5 / 10 ^ 8" by linarith
    from toFixed_idem_fin [OF parseFloat_Fin [OF Fin] ex] False Fin
    show ?thesis by (simp add: formatAmount_def)
  qed
qed

lemma formatAmount_idem_valid:
  assumes "\<not> isNaN (parseFloat a)" "\<not> Number_lessEqual (parseFloat a) (Fin 0)"
  shows "formatAmount (formatAmount a) = formatAmount a"
proof -
  have "\<not> (\<exists>x. parseFloat a = Fin x \<and> - 5 / 10 ^ 8 < x \<and> x < 0)"
    using assms(2) by (auto simp: Number_lessEqual_def)
  then show ?thesis using formatAmount_idempotent_iff [of a] by blast
qed


section \<open>The key encoding: what the decoder accepts\<close>

text \<open>
  Bits and groups of bits; decoding what was encoded gives the bytes back when they fill
  the groups of five bits; the decoder accepts exactly the encoded keys.
\<close>

lemma bits_of_length [simp]: "length (bits_of n v) = n"
  by (induction n arbitrary: v) simp_all

lemma bits_value_snoc: "bits_value (bs @ [b]) = 2 * bits_value bs + (if b then 1 else 0)"
  by (simp add: bits_value_def)

lemma bits_value_Nil: "bits_value [] = 0"
  by (simp add: bits_value_def)

lemma bits_value_less: "bits_value bs < 2 ^ length bs"
  by (induction bs rule: rev_induct) (simp_all add: bits_value_snoc bits_value_Nil)

lemma bits_value_bits_of: "v < 2 ^ n \<Longrightarrow> bits_value (bits_of n v) = v"
proof (induction n arbitrary: v)
  case 0
  then show ?case by (simp add: bits_value_Nil)
next
  case (Suc n)
  have "v div 2 < 2 ^ n" using Suc.prems by simp
  then have "bits_value (bits_of n (v div 2)) = v div 2" by (rule Suc.IH)
  then show ?case by (simp add: bits_value_snoc)
qed

lemma bits_of_bits_value: "bits_of (length bs) (bits_value bs) = bs"
  by (induction bs rule: rev_induct) (simp_all add: bits_value_snoc bits_value_Nil)

lemma chunks_Nil: "chunks n [] = []"
  by (simp add: chunks.simps)

lemma chunks_append:
  assumes "0 < n" "length x = n"
  shows "chunks n (x @ r) = x # chunks n r"
  using assms by (subst chunks.simps) auto

lemma chunks_concat:
  assumes "0 < n" "\<forall>x\<in>set xss. length x = n"
  shows "chunks n (concat xss) = xss"
  using assms by (induction xss) (simp_all add: chunks_Nil chunks_append)

lemma concat_chunks: "0 < n \<Longrightarrow> concat (chunks n xs) = xs"
proof (induction n xs rule: chunks.induct)
  case (1 n xs)
  then show ?case by (subst chunks.simps) auto
qed

lemma chunks_lengths:
  "0 < n \<Longrightarrow> n dvd length xs \<Longrightarrow> g \<in> set (chunks n xs) \<Longrightarrow> length g = n"
proof (induction n xs rule: chunks.induct)
  case (1 n xs)
  show ?case
  proof (cases "xs = []")
    case True
    with "1.prems" show ?thesis by (simp add: chunks_Nil)
  next
    case False
    then have le: "n \<le> length xs" using "1.prems"(1,2) by (auto dest: dvd_imp_le)
    have d: "n dvd length (drop n xs)" using "1.prems"(2) le by (simp add: dvd_diff_nat)
    from "1.prems"(3) False "1.prems"(1)
    have "g = take n xs \<or> g \<in> set (chunks n (drop n xs))"
      by (subst (asm) chunks.simps) auto
    then show ?thesis
    proof
      assume "g = take n xs"
      then show ?thesis using le by simp
    next
      assume "g \<in> set (chunks n (drop n xs))"
      then show ?thesis using "1.IH" False "1.prems"(1) d by simp
    qed
  qed
qed

lemma length_chunks:
  "0 < n \<Longrightarrow> n dvd length xs \<Longrightarrow> length (chunks n xs) * n = length xs"
proof (induction n xs rule: chunks.induct)
  case (1 n xs)
  show ?case
  proof (cases "xs = []")
    case True
    then show ?thesis by (simp add: chunks_Nil)
  next
    case False
    then have le: "n \<le> length xs" using "1.prems" by (auto dest: dvd_imp_le)
    have d: "n dvd length (drop n xs)" using "1.prems"(2) le by (simp add: dvd_diff_nat)
    have "length (chunks n (drop n xs)) * n = length (drop n xs)"
      using "1.IH" False "1.prems"(1) d by simp
    then show ?thesis using False "1.prems"(1) le
      by (subst chunks.simps) simp
  qed
qed

lemma index_nth_distinct:
  "distinct xs \<Longrightarrow> i < length xs \<Longrightarrow> length (takeWhile (\<lambda>a. a \<noteq> xs ! i) xs) = i"
proof (induction xs arbitrary: i)
  case Nil
  then show ?case by simp
next
  case (Cons x xs)
  show ?case
  proof (cases i)
    case 0
    then show ?thesis by simp
  next
    case (Suc j)
    then have "xs ! j \<in> set xs" using Cons.prems by simp
    then have "x \<noteq> xs ! j" using Cons.prems by auto
    then show ?thesis using Suc Cons by simp
  qed
qed

lemma base32_alphabet_distinct: "distinct base32_alphabet" "length base32_alphabet = 32"
  by (simp_all add: base32_alphabet_def js_def ch_def)

lemma base32_index_nth:
  assumes "v < 32"
  shows "base32_index (base32_alphabet ! v) = v" "base32_alphabet ! v \<in> set base32_alphabet"
  using assms index_nth_distinct [OF base32_alphabet_distinct(1), of v]
  by (simp_all add: base32_index_def base32_alphabet_distinct(2))

lemma length_byte_bits: "length (concat (map (\<lambda>b. bits_of 8 (unat b)) p)) = 8 * length p"
  by (induction p) simp_all

lemma byte_of_bits: "of_nat (bits_value (bits_of 8 (unat (b :: 8 word)))) = b"
proof -
  have "unat b < 2 ^ 8" using unsigned_less [of b, where ?'a = nat] by simp
  then show ?thesis by (simp add: bits_value_bits_of)
qed

lemma base32_encode_full:
  assumes "5 dvd length p"
  shows "base32_encode p =
     map (\<lambda>g. base32_alphabet ! bits_value g)
       (chunks 5 (concat (map (\<lambda>b. bits_of 8 (unat b)) p)))"
    and "\<forall>g\<in>set (chunks 5 (concat (map (\<lambda>b. bits_of 8 (unat b)) p))). length g = 5"
    and "length (base32_encode p) * 5 = 8 * length p"
proof -
  let ?B = "concat (map (\<lambda>b. bits_of 8 (unat b)) p)"
  have d: "5 dvd length ?B" using assms by (simp add: length_byte_bits)
  show l: "\<forall>g\<in>set (chunks 5 ?B). length g = 5"
    using chunks_lengths [OF _ d] by simp
  then show "base32_encode p = map (\<lambda>g. base32_alphabet ! bits_value g) (chunks 5 ?B)"
    by (simp add: base32_encode_def)
  show "length (base32_encode p) * 5 = 8 * length p"
    using length_chunks [OF _ d] by (simp add: base32_encode_def length_byte_bits)
qed

lemma base32_decode_encode:
  assumes "5 dvd length p"
  shows "base32_decode (base32_encode p) = Some p"
proof -
  let ?B = "concat (map (\<lambda>b. bits_of 8 (unat b)) p)"
  note e = base32_encode_full [OF assms]
  have v: "bits_value g < 32" if "g \<in> set (chunks 5 ?B)" for g
    using bits_value_less [of g] e(2) that by simp
  have a: "list_all (\<lambda>c. c \<in> set base32_alphabet) (base32_encode p)"
    unfolding e(1) by (simp add: list_all_iff base32_index_nth(2) v)
  have "map (\<lambda>c. bits_of 5 (base32_index c)) (base32_encode p) = chunks 5 ?B"
    unfolding e(1) map_map comp_def
  proof (rule map_idI)
    fix g assume g: "g \<in> set (chunks 5 ?B)"
    then have "length g = 5" using e(2) by simp
    with bits_of_bits_value [of g] show "bits_of 5 (base32_index (base32_alphabet ! bits_value g)) = g"
      by (simp add: base32_index_nth(1) [OF v [OF g]])
  qed
  then have c: "concat (map (\<lambda>c. bits_of 5 (base32_index c)) (base32_encode p)) = ?B"
    by (simp add: concat_chunks)
  have k: "chunks 8 ?B = map (\<lambda>b. bits_of 8 (unat b)) p"
    by (rule chunks_concat) simp_all
  show ?thesis
    unfolding base32_decode_def c k using a
    by (simp add: filter_map comp_def byte_of_bits)
qed

lemma length_calculateChecksum: "length (calculateChecksum p) = 2"
  by (simp add: calculateChecksum_def Let_def)

lemma fromPublicKey_encodeCheck:
  assumes "length key = 32"
  shows "fromPublicKey (encodeCheck 48 key) = None"
proof -
  let ?p = "(48 # key) @ calculateChecksum (48 # key)"
  have l: "length ?p = 35" using assms by (simp add: length_calculateChecksum)
  then have "5 dvd length ?p" by simp
  then have d: "base32_decode (base32_encode ?p) = Some ?p" by (rule base32_decode_encode)
  have t: "take (length ?p - 2) ?p = 48 # key" "drop (length ?p - 2) ?p = calculateChecksum (48 # key)"
    using assms by (simp_all add: length_calculateChecksum)
  show ?thesis
    unfolding fromPublicKey_def decodeCheck_def encodeCheck_def Let_def d option.case t
    using assms by simp
qed

lemma fromPublicKey_accepts:
  assumes "fromPublicKey a = None"
  shows "\<exists>key. length key = 32 \<and> a = encodeCheck 48 key"
proof -
  from assms obtain data where dc: "decodeCheck 48 a = Inr data" and len: "length data = 32"
    by (cases "decodeCheck 48 a") (simp_all add: fromPublicKey_def split: if_splits)
  from dc obtain d where d: "base32_decode a = Some d"
    by (cases "base32_decode a") (simp_all add: decodeCheck_def)
  let ?payload = "take (length d - 2) d"
  from dc have a: "a = base32_encode d"
    unfolding decodeCheck_def d option.case Let_def by (simp split: if_splits)
  from dc have ne: "d \<noteq> []" and hd: "hd d = 48"
    unfolding decodeCheck_def d option.case Let_def by (simp_all split: if_splits)
  from dc have cs: "drop (length d - 2) d = calculateChecksum ?payload"
    unfolding decodeCheck_def d option.case Let_def by (simp split: if_splits)
  from dc have dt: "data = tl ?payload"
    unfolding decodeCheck_def d option.case Let_def by (simp split: if_splits)
  from len dt have pn: "?payload \<noteq> []" by auto
  then have "hd ?payload = hd d" by (cases d) (auto simp: take_Cons' split: if_splits)
  with pn hd have p: "?payload = 48 # data" unfolding dt by (cases ?payload) auto
  have "d = ?payload @ drop (length d - 2) d" by simp
  then have "d = (48 # data) @ calculateChecksum (48 # data)"
    unfolding cs p .
  then have "a = encodeCheck 48 data" using a by (simp add: encodeCheck_def Let_def)
  with len show ?thesis by blast
qed

lemma fromPublicKey_iff:
  "fromPublicKey a = None \<longleftrightarrow> (\<exists>key. length key = 32 \<and> a = encodeCheck 48 key)"
  using fromPublicKey_accepts [of a] fromPublicKey_encodeCheck by auto

lemma length_encodeCheck:
  assumes k: "length key = 32"
  shows "length (encodeCheck 48 key) = 56"
proof -
  define p where "p = (48 # key) @ calculateChecksum (48 # key)"
  have l: "length p = 35" using k by (simp add: p_def length_calculateChecksum)
  then have "5 dvd length p" by simp
  from base32_encode_full(3) [OF this] have "length (base32_encode p) * 5 = 8 * 35"
    unfolding l .
  then have "length (base32_encode p) = 56" by linarith
  then show ?thesis by (simp add: encodeCheck_def Let_def p_def)
qed

lemma fromPublicKey_wrong_checksum:
  assumes "length key = 32" "length cs = 2" "cs \<noteq> calculateChecksum (48 # key)"
  shows "fromPublicKey (base32_encode ((48 # key) @ cs)) = Some (Error (js ''invalid checksum'') None)"
proof -
  let ?p = "(48 # key) @ cs"
  have l: "length ?p = 35" using assms by simp
  then have "5 dvd length ?p" by simp
  then have d: "base32_decode (base32_encode ?p) = Some ?p" by (rule base32_decode_encode)
  have t: "take (length ?p - 2) ?p = 48 # key" "drop (length ?p - 2) ?p = cs"
    using assms by simp_all
  show ?thesis
    unfolding fromPublicKey_def decodeCheck_def Let_def d option.case t
    using assms by simp
qed

text \<open>The keys of the examples, as bytes.\<close>

lemma funpow_8: "(f ^^ 8) x = f (f (f (f (f (f (f (f x)))))))"
  by (simp add: numeral_eq_Suc)

lemma bits_of_numeral: "bits_of (numeral k) v = bits_of (pred_numeral k) (v div 2) @ [odd v]"
  by (simp add: numeral_eq_Suc)

lemmas key_eval = base32_encode_def base32_alphabet_def bits_of_numeral bits_value_def
  chunks.simps calculateChecksum_def crc16xmodem_def crc16_byte_def crc16_shift_def funpow_8
  encodeCheck_def js_def ch_def Let_def

lemma SOURCE_PUBLIC_KEY_bytes:
  "calculateChecksum [48, 194, 169, 50, 25, 2, 118, 48, 161, 157, 232, 65, 108, 125, 28, 132, 163, 67,
     231, 104, 114, 107, 172, 36, 21, 129, 237, 75, 176, 200, 29, 101, 214] = [25, 172]"
  "base32_encode [48, 194, 169, 50, 25, 2, 118, 48, 161, 157, 232, 65, 108, 125, 28, 132, 163, 67,
     231, 104, 114, 107, 172, 36, 21, 129, 237, 75, 176, 200, 29, 101, 214, 25, 172] = SOURCE_PUBLIC_KEY"
  by (simp_all add: SOURCE_PUBLIC_KEY_def key_eval)

lemma FRIEND_PUBLIC_KEY_bytes:
  "calculateChecksum [48, 1, 148, 114, 98, 142, 231, 142, 185, 39, 20, 210, 45, 3, 144, 150, 60, 36,
     217, 39, 234, 0, 153, 153, 72, 110, 137, 31, 172, 45, 170, 156, 33] = [89, 191]"
  "base32_encode [48, 1, 148, 114, 98, 142, 231, 142, 185, 39, 20, 210, 45, 3, 144, 150, 60, 36,
     217, 39, 234, 0, 153, 153, 72, 110, 137, 31, 172, 45, 170, 156, 33, 89, 191] = FRIEND_PUBLIC_KEY"
  by (simp_all add: FRIEND_PUBLIC_KEY_def key_eval)

lemma SOURCE_PUBLIC_KEY_encoded:
  "SOURCE_PUBLIC_KEY = encodeCheck 48 [194, 169, 50, 25, 2, 118, 48, 161, 157, 232, 65, 108, 125,
     28, 132, 163, 67, 231, 104, 114, 107, 172, 36, 21, 129, 237, 75, 176, 200, 29, 101, 214]"
  unfolding encodeCheck_def Let_def SOURCE_PUBLIC_KEY_bytes(1)
  by (simp add: SOURCE_PUBLIC_KEY_bytes(2))

lemma FRIEND_PUBLIC_KEY_encoded:
  "FRIEND_PUBLIC_KEY = encodeCheck 48 [1, 148, 114, 98, 142, 231, 142, 185, 39, 20, 210, 45, 3,
     144, 150, 60, 36, 217, 39, 234, 0, 153, 153, 72, 110, 137, 31, 172, 45, 170, 156, 33]"
  unfolding encodeCheck_def Let_def FRIEND_PUBLIC_KEY_bytes(1)
  by (simp add: FRIEND_PUBLIC_KEY_bytes(2))

lemma fromPublicKey_keys:
  "fromPublicKey SOURCE_PUBLIC_KEY = None" "fromPublicKey FRIEND_PUBLIC_KEY = None"
  by (subst SOURCE_PUBLIC_KEY_encoded, rule fromPublicKey_encodeCheck, simp)
     (subst FRIEND_PUBLIC_KEY_encoded, rule fromPublicKey_encodeCheck, simp)

lemma STRANGER_PUBLIC_KEY_bytes:
  "calculateChecksum [48, 137, 155, 40, 64, 237, 86, 54, 197, 109, 220, 95, 20, 178, 57, 117, 247,
     159, 27, 162, 56, 141, 38, 148, 228, 197, 110, 205, 221, 201, 96, 229, 239] = [241, 57]"
  "base32_encode [48, 137, 155, 40, 64, 237, 86, 54, 197, 109, 220, 95, 20, 178, 57, 117, 247,
     159, 27, 162, 56, 141, 38, 148, 228, 197, 110, 205, 221, 201, 96, 229, 239, 241, 57] =
     STRANGER_PUBLIC_KEY"
  by (simp_all add: STRANGER_PUBLIC_KEY_def key_eval)

lemma STRANGER_PUBLIC_KEY_encoded:
  "STRANGER_PUBLIC_KEY = encodeCheck 48 [137, 155, 40, 64, 237, 86, 54, 197, 109, 220, 95, 20,
     178, 57, 117, 247, 159, 27, 162, 56, 141, 38, 148, 228, 197, 110, 205, 221, 201, 96, 229, 239]"
  unfolding encodeCheck_def Let_def STRANGER_PUBLIC_KEY_bytes(1)
  by (simp add: STRANGER_PUBLIC_KEY_bytes(2))

lemma fromPublicKey_STRANGER: "fromPublicKey STRANGER_PUBLIC_KEY = None"
  by (subst STRANGER_PUBLIC_KEY_encoded, rule fromPublicKey_encodeCheck, simp)

lemma fromPublicKey_empty: "fromPublicKey [] = Some (Error (js ''invalid version byte'') None)"
  by (simp add: fromPublicKey_def decodeCheck_def base32_decode_def base32_encode_def
      chunks.simps)

lemma isValidAmount_examples:
  "isValidAmount (js ''5.0000000'') False" "\<not> isValidAmount (js ''0.0000000'') False"
  by (simp_all add: isValidAmount_def StrUnsignedDecimalLiteral_def decimalMV_def
      scanExponent_def string_eval Let_def)

lemma wrong_checksum_key:
  "base32_encode ((48 # [194, 169, 50, 25, 2, 118, 48, 161, 157, 232, 65, 108, 125,
     28, 132, 163, 67, 231, 104, 114, 107, 172, 36, 21, 129, 237, 75, 176, 200, 29, 101, 214]) @
     [25, 173]) = js ''GDBKSMQZAJ3DBIM55BAWY7I4QSRUHZ3IOJV2YJAVQHWUXMGIDVS5MGNN''"
  by (simp add: key_eval)

section \<open>Facts for the example runs\<close>

lemma example_world_fields:
  "answers (example_world seq as) = as"
  "failures (example_world seq as) i = None"
  "requests (example_world seq as) = 0"
  "accounts (example_world seq as) server SOURCE_PUBLIC_KEY =
     Some \<lparr>accountId = SOURCE_PUBLIC_KEY, sequence = seq\<rparr>"
  "\<not> answered_404 ((example_world seq as)\<lparr>requests := n\<rparr>) server FRIEND_PUBLIC_KEY"
  by (simp_all add: example_world_def answered_404_def keys_distinct keys_distinct [symmetric])

lemma stellar_sdk_fields:
  "Keypair_fromPublicKey stellar_sdk = fromPublicKey"
  "Memo_validate stellar_sdk (Memo t v) =
     (if t = MemoText \<and> 28 < getByteLength v
      then Some (Error (js ''Expects string, array or buffer, max 28 bytes'') None) else None)"
  "Operation_validate stellar_sdk (Payment d Native amount) =
     (if isValidAmount amount False then None
      else Some (Error (js ''amount argument must be of type String, represent a positive number and have at most 7 digits after the decimal'') None))"
  "TransactionBuilder_build stellar_sdk tx =
     Inr ((tx_source tx)\<lparr>sequence := decimalDigits (digitsValue (sequence (tx_source tx)) + 1)\<rparr>)"
  by (simp_all add: stellar_sdk_def)

lemma formatAmount_tiny: "formatAmount (js ''0.00000001'') = js ''0.0000000''"
  unfolding formatAmount_def parseFloat_tiny
  by (simp add: fixedDigits_def string_eval Let_def)

lemma refusal_message:
  "js ''Failed to build transaction: '' @
   js ''amount argument must be of type String, represent a positive number and have at most 7 digits after the decimal'' =
   js ''Failed to build transaction: amount argument must be of type String, represent a positive number and have at most 7 digits after the decimal''"
  "js ''Failed to build transaction: '' @ js ''Expects string, array or buffer, max 28 bytes'' =
   js ''Failed to build transaction: Expects string, array or buffer, max 28 bytes''"
  by (simp_all add: js_def)

lemma memo_examples:
  "trim [] = []"
  "trim (js ''12345'') = js ''12345''" "js ''12345'' \<noteq> []" "list_all isDigit (js ''12345'')"
  "length (js ''12345'') \<le> 19"
  "trim (js ''thanks'') = js ''thanks''" "js ''thanks'' \<noteq> []"
  "\<not> list_all isDigit (js ''thanks'')" "\<not> 28 < getByteLength (js ''thanks'')"
  by (simp_all add: string_eval)

lemma shape_example_hypotheses:
  "answers (example_world (js ''42'') [FRIEND_PUBLIC_KEY, js ''5'', m]) =
     FRIEND_PUBLIC_KEY # js ''5'' # m # []"
  "failures (example_world (js ''42'') [FRIEND_PUBLIC_KEY, js ''5'', m])
     (requests (example_world (js ''42'') [FRIEND_PUBLIC_KEY, js ''5'', m])) = None"
  "accounts (example_world (js ''42'') [FRIEND_PUBLIC_KEY, js ''5'', m]) (horizon TESTNET_CONFIG)
     SOURCE_PUBLIC_KEY = Some \<lparr>accountId = SOURCE_PUBLIC_KEY, sequence = js ''42''\<rparr>"
  "Keypair_fromPublicKey stellar_sdk (trim FRIEND_PUBLIC_KEY) = None"
  "\<not> isNaN (parseFloat (trim (js ''5'')))"
  "\<not> Number_lessEqual (parseFloat (trim (js ''5''))) (Fin 0)"
  "Operation_validate stellar_sdk
     (Payment (trim FRIEND_PUBLIC_KEY) Native (formatAmount (trim (js ''5'')))) = None"
  by (simp_all add: example_world_fields stellar_sdk_fields trim_keys fromPublicKey_keys
      trim_small parseFloat_5 formatAmount_5 isNaN_def Number_lessEqual_def
      isValidAmount_examples)

lemma sequence_2_53_incremented:
  "decimalDigits (Suc (digitsValue (js ''9007199254740992''))) = js ''9007199254740993''"
  "NumberToString (Number_add (parseInt (js ''9007199254740993'')) (Fin 1)) =
     js ''9007199254740992''"
  by (simp_all add: string_eval number_eval parse_eval print_eval)


lemma isValidAmount_5_True: "isValidAmount (js ''5.0000000'') True"
  by (simp add: isValidAmount_def StrUnsignedDecimalLiteral_def decimalMV_def
      scanExponent_def string_eval Let_def)

lemma sequence_42_incremented:
  "decimalDigits (Suc (digitsValue (js ''42''))) = js ''43''"
  "NumberToString (Number_add (parseInt (js ''43'')) (Fin 1)) = js ''44''"
  by (simp_all add: string_eval number_eval parse_eval print_eval)

lemmas stellar_run_eval = buildStellarTransaction_def
  checkAccountActivation_def
  checkDestinationAccountExists_def isValidStellarAddress_def getMemoInput_def
  askAmount.simps askDestination.simps askMemoType.simps io_eval
  NotFoundError_def stellar_sdk_def example_world_def outage_world_def TESTNET_CONFIG_def
  trim_keys keys_distinct keys_distinct [symmetric] trim_small menu_distinct parseFloat_5
  formatAmount_5 parseFloat_MIN_ACCOUNT_BALANCE isNaN_def Number_lessEqual_def Let_def
  fromPublicKey_keys fromPublicKey_STRANGER isValidAmount_examples isValidAmount_5_True
  sequence_42_incremented

section \<open>The claims\<close>

text \<open>
  C1. The claim: for a source account with sequence number \<open>N\<close>, the field
  \<open>details.sequence\<close> is the decimal string of \<open>N + 1\<close>. The program computes it with
  \<^verbatim>\<open>parseInt\<close> and a Number addition, which are exact only up to \<open>2^53\<close>. For
  \<open>N = 9007199254740992\<close> the run below displays \<open>N\<close> itself and not \<open>N + 1\<close>.
\<close>

theorem displayed_sequence_at_2_53:
  "(case fst (buildStellarTransaction permissive_sdk TESTNET_CONFIG TESTNET_NETWORK_HASH
      (example_world (decimalDigits 9007199254740992) [FRIEND_PUBLIC_KEY, js ''5'', js ''5''])) of
      Returns d \<Rightarrow> details_sequence (data_details d) = decimalDigits 9007199254740992
                  \<and> details_sequence (data_details d) \<noteq> decimalDigits (9007199254740992 + 1)
    | _ \<Rightarrow> False)"
proof -
  have d: "decimalDigits 9007199254740992 = js ''9007199254740992''"
    by (simp add: string_eval)
  have d1: "decimalDigits (9007199254740992 + 1) = js ''9007199254740993''"
    by (simp add: string_eval)
  have n: "js ''9007199254740992'' \<noteq> js ''9007199254740993''"
    by (simp add: string_eval)
  show ?thesis
    unfolding d d1
    by (simp add: run_eval sequence_2_53 n)
qed

text \<open>
  C2. The claim: the amount validator accepts a string if and only if it parses to a
  finite number above 0 (and, for create-account, at least 1). The string
  \<^verbatim>\<open>Infinity\<close> parses to the Number infinity, which is not finite, and the prompt
  accepts it at once, for either operation type.
\<close>

theorem amount_validator_accepts_Infinity:
  "parseFloat (js ''Infinity'') = PosInf \<and>
   fst (askAmount t (w\<lparr>answers := js ''Infinity'' # rest\<rparr>)) = Returns (js ''Infinity'')"
  by (simp add: askAmount_Cons trim_Infinity parseFloat_Infinity parseFloat_MIN_ACCOUNT_BALANCE
      isNaN_def Number_lessEqual_def)

text \<open>
  C3, as the claim states it: create-account is chosen if and only if the destination
  does not exist on the network. In the run below the destination does not exist, the
  lookup fails without a response, and a payment is built.
\<close>

theorem payment_to_missing_account_counterexample:
  "accounts (outage_world [STRANGER_PUBLIC_KEY, js ''5'', js ''5'']) (horizon TESTNET_CONFIG)
     STRANGER_PUBLIC_KEY = None \<and>
   (case fst (buildStellarTransaction permissive_sdk TESTNET_CONFIG TESTNET_NETWORK_HASH
      (outage_world [STRANGER_PUBLIC_KEY, js ''5'', js ''5''])) of
      Returns d \<Rightarrow> tx_operations (data_transaction d) =
                    [Payment STRANGER_PUBLIC_KEY Native (js ''5.0000000'')]
    | _ \<Rightarrow> False)"
  by (simp add: run_eval)

text \<open>
  C3, amended: in every transaction that is built, the operation is create-account if
  and only if the lookup of the destination (the third request of the run) is answered
  with status 404; otherwise it is a payment. Destination and amount are those of the
  details.
\<close>

theorem create_account_iff_lookup_answered_404:
  assumes "buildStellarTransaction sdk config h w = (Returns data, w')"
  shows "tx_operations (data_transaction data) =
     [if answered_404 (w\<lparr>requests := requests w + 2\<rparr>) (horizon config)
           (details_destination (data_details data))
      then CreateAccount (details_destination (data_details data))
             (details_amount (data_details data))
      else Payment (details_destination (data_details data)) Native
             (details_amount (data_details data))]"
  using assms by (rule build_operation)

theorem create_account_iff_lookup_answered_404_witness:
  "\<exists>data w'.
     buildStellarTransaction permissive_sdk TESTNET_CONFIG TESTNET_NETWORK_HASH
       (example_world (js ''42'') [STRANGER_PUBLIC_KEY, js ''5'', js ''5'']) = (Returns data, w') \<and>
     answered_404 ((example_world (js ''42'') [STRANGER_PUBLIC_KEY, js ''5'', js ''5''])\<lparr>requests := 2\<rparr>)
       (horizon TESTNET_CONFIG) STRANGER_PUBLIC_KEY \<and>
     tx_operations (data_transaction data) = [CreateAccount STRANGER_PUBLIC_KEY (js ''5.0000000'')]"
proof -
  let ?w = "example_world (js ''42'') [STRANGER_PUBLIC_KEY, js ''5'', js ''5'']"
  let ?run = "buildStellarTransaction permissive_sdk TESTNET_CONFIG TESTNET_NETWORK_HASH ?w"
  have e: "(case fst ?run of
      Returns d \<Rightarrow> details_destination (data_details d) = STRANGER_PUBLIC_KEY \<and>
                   details_amount (data_details d) = js ''5.0000000''
    | _ \<Rightarrow> False)"
    by (simp add: run_eval sequence_42)
  then obtain data w' where r: "?run = (Returns data, w')"
    and dd: "details_destination (data_details data) = STRANGER_PUBLIC_KEY"
    and da: "details_amount (data_details data) = js ''5.0000000''"
    by (cases ?run; cases "fst ?run") auto
  have a: "answered_404 (?w\<lparr>requests := 2\<rparr>) (horizon TESTNET_CONFIG) STRANGER_PUBLIC_KEY"
    by (simp add: answered_404_def example_world_def keys_distinct)
  have a': "answered_404 (?w\<lparr>requests := requests ?w + 2\<rparr>) (horizon TESTNET_CONFIG)
      STRANGER_PUBLIC_KEY"
    by (simp add: answered_404_def example_world_def keys_distinct)
  have "tx_operations (data_transaction data) = [CreateAccount STRANGER_PUBLIC_KEY (js ''5.0000000'')]"
    using create_account_iff_lookup_answered_404 [OF r] by (simp only: a' dd da if_True)
  with r a show ?thesis by blast
qed


text \<open>
  C4. The memo collector, when TEXT is chosen, raises its error exactly when the
  trimmed value has more than 28 UTF-8 bytes; when HASH or RETURN is chosen, it raises
  its error exactly when the value is not 64 hexadecimal characters. A value that passes
  is handed to the SDK constructor as it is.
\<close>

theorem memo_text_and_hash_checks:
  "fst (getMemoInput sdk (w\<lparr>answers := js ''1'' # v # rest\<rparr>)) =
     (if getByteLength (trim v) \<le> 28
      then (case Memo_validate sdk (Memo MemoText (trim v)) of
              None \<Rightarrow> Returns (Some (Memo MemoText (trim v)))
            | Some e \<Rightarrow> Throws e)
      else Throws (Error (js ''TEXT memo exceeds 28 bytes'') None)) \<and>
   fst (getMemoInput sdk (w\<lparr>answers := js ''3'' # v # rest\<rparr>)) =
     (if length (trim v) = 64 \<and> list_all isHexDigit (trim v)
      then (case Memo_validate sdk (Memo MemoHash (trim v)) of
              None \<Rightarrow> Returns (Some (Memo MemoHash (trim v)))
            | Some e \<Rightarrow> Throws e)
      else Throws (Error (js ''HASH memo must be 64 hex characters (32 bytes)'') None)) \<and>
   fst (getMemoInput sdk (w\<lparr>answers := js ''4'' # v # rest\<rparr>)) =
     (if length (trim v) = 64 \<and> list_all isHexDigit (trim v)
      then (case Memo_validate sdk (Memo MemoReturn (trim v)) of
              None \<Rightarrow> Returns (Some (Memo MemoReturn (trim v)))
            | Some e \<Rightarrow> Throws e)
      else Throws (Error (js ''RETURN memo must be 64 hex characters (32 bytes)'') None))"
  by (auto simp: memo_eval isValidHex_def split: option.splits)

text \<open>
  C5. The memo collector, when ID is chosen, reads the value with \<^verbatim>\<open>BigInt\<close> and
  raises its range error exactly when the integer is outside \<open>[0, 18446744073709551615]\<close>;
  a value in the range is handed to the SDK constructor. 0 and 18446744073709551615 pass,
  -1 and 18446744073709551616 raise the range error.
\<close>

theorem memo_id_check:
  "fst (getMemoInput sdk (w\<lparr>answers := js ''2'' # v # rest\<rparr>)) =
     (case StringToBigInt (trim v) of
        None \<Rightarrow> Throws (Error (js ''Cannot convert '' @ trim v @ js '' to a BigInt'') None)
      | Some i \<Rightarrow>
          if 0 \<le> i \<and> i \<le> 18446744073709551615
          then (case Memo_validate sdk (Memo MemoId (trim v)) of
                  None \<Rightarrow> Returns (Some (Memo MemoId (trim v)))
                | Some e \<Rightarrow> Throws e)
          else Throws (Error (js ''ID memo must be between 0 and 18446744073709551615'') None)) \<and>
   fst (getMemoInput sdk (w\<lparr>answers := [js ''2'', js ''0'']\<rparr>)) =
     (case Memo_validate sdk (Memo MemoId (js ''0'')) of
        None \<Rightarrow> Returns (Some (Memo MemoId (js ''0'')))
      | Some e \<Rightarrow> Throws e) \<and>
   fst (getMemoInput sdk (w\<lparr>answers := [js ''2'', js ''18446744073709551615'']\<rparr>)) =
     (case Memo_validate sdk (Memo MemoId (js ''18446744073709551615'')) of
        None \<Rightarrow> Returns (Some (Memo MemoId (js ''18446744073709551615'')))
      | Some e \<Rightarrow> Throws e) \<and>
   fst (getMemoInput sdk (w\<lparr>answers := [js ''2'', js ''-1'']\<rparr>)) =
     Throws (Error (js ''ID memo must be between 0 and 18446744073709551615'') None) \<and>
   fst (getMemoInput sdk (w\<lparr>answers := [js ''2'', js ''18446744073709551616'']\<rparr>)) =
     Throws (Error (js ''ID memo must be between 0 and 18446744073709551615'') None)"
proof -
  have t: "trim (js ''0'') = js ''0''" "trim (js ''18446744073709551615'') = js ''18446744073709551615''"
    "trim (js ''-1'') = js ''-1''" "trim (js ''18446744073709551616'') = js ''18446744073709551616''"
    by (simp_all add: string_eval)
  have b: "StringToBigInt (js ''0'') = Some 0"
    "StringToBigInt (js ''18446744073709551615'') = Some 18446744073709551615"
    "StringToBigInt (js ''-1'') = Some (- 1)"
    "StringToBigInt (js ''18446744073709551616'') = Some 18446744073709551616"
    by (simp_all add: StringToBigInt_def string_eval)
  show ?thesis
    by (simp only: getMemoInput_id t b) simp
qed

text \<open>
  C6. \<^verbatim>\<open>isValidStellarAddress\<close> returns a boolean for every string and never throws,
  whatever \<^verbatim>\<open>Keypair.fromPublicKey\<close> does. With the key encoding of the network it
  returns true exactly for the strings that are the encoding of a 32-byte public key, and
  false for every other string: for the empty string, for every string whose length is
  not 56, and for the encoding of a key together with two bytes that are not its
  checksum.
\<close>

theorem isValidStellarAddress_decides:
  "isValidStellarAddress sdk address = Inr (Keypair_fromPublicKey sdk address = None) \<and>
   isValidStellarAddress stellar_sdk address =
     Inr (\<exists>key. length key = 32 \<and> address = encodeCheck 48 key) \<and>
   isValidStellarAddress stellar_sdk [] = Inr False \<and>
   (length s \<noteq> 56 \<longrightarrow> isValidStellarAddress stellar_sdk s = Inr False) \<and>
   (length key = 32 \<and> length checksum = 2 \<and> checksum \<noteq> calculateChecksum (48 # key) \<longrightarrow>
      isValidStellarAddress stellar_sdk (base32_encode ((48 # key) @ checksum)) = Inr False)"
proof -
  have v: "isValidStellarAddress stellar_sdk a = Inr (fromPublicKey a = None)" for a
    by (simp add: isValidStellarAddress_def stellar_sdk_def split: option.splits)
  have "isValidStellarAddress sdk address = Inr (Keypair_fromPublicKey sdk address = None)"
    by (simp add: isValidStellarAddress_def split: option.splits)
  moreover have "isValidStellarAddress stellar_sdk address =
      Inr (\<exists>key. length key = 32 \<and> address = encodeCheck 48 key)"
    by (simp only: v fromPublicKey_iff)
  moreover have "isValidStellarAddress stellar_sdk [] = Inr False"
    by (simp add: v fromPublicKey_empty)
  moreover have "isValidStellarAddress stellar_sdk s = Inr False" if "length s \<noteq> 56"
    using that length_encodeCheck by (auto simp: v fromPublicKey_iff)
  moreover have "isValidStellarAddress stellar_sdk (base32_encode ((48 # key) @ checksum)) = Inr False"
    if "length key = 32 \<and> length checksum = 2 \<and> checksum \<noteq> calculateChecksum (48 # key)"
    using that fromPublicKey_wrong_checksum [of key checksum] by (simp add: v)
  ultimately show ?thesis by blast
qed

theorem isValidStellarAddress_decides_witness:
  "isValidStellarAddress stellar_sdk SOURCE_PUBLIC_KEY = Inr True \<and>
   isValidStellarAddress stellar_sdk [] = Inr False \<and>
   length (butlast SOURCE_PUBLIC_KEY) \<noteq> 56 \<and>
   isValidStellarAddress stellar_sdk (butlast SOURCE_PUBLIC_KEY) = Inr False \<and>
   [25, 173] \<noteq> calculateChecksum (48 # [194, 169, 50, 25, 2, 118, 48, 161, 157, 232, 65, 108,
     125, 28, 132, 163, 67, 231, 104, 114, 107, 172, 36, 21, 129, 237, 75, 176, 200, 29, 101, 214]) \<and>
   isValidStellarAddress stellar_sdk
     (js ''GDBKSMQZAJ3DBIM55BAWY7I4QSRUHZ3IOJV2YJAVQHWUXMGIDVS5MGNN'') = Inr False"
proof -
  let ?key = "[194, 169, 50, 25, 2, 118, 48, 161, 157, 232, 65, 108, 125, 28, 132, 163, 67, 231,
    104, 114, 107, 172, 36, 21, 129, 237, 75, 176, 200, 29, 101, 214] :: 8 word list"
  note t = isValidStellarAddress_decides [where address = SOURCE_PUBLIC_KEY
      and s = "butlast SOURCE_PUBLIC_KEY" and key = ?key and checksum = "[25, 173]"
      and sdk = stellar_sdk]
  have l: "length (butlast SOURCE_PUBLIC_KEY) \<noteq> 56"
    by (simp add: SOURCE_PUBLIC_KEY_def js_def)
  have c: "[25, 173] \<noteq> calculateChecksum (48 # ?key)"
    by (simp add: SOURCE_PUBLIC_KEY_bytes(1))
  have e: "\<exists>key. length key = 32 \<and> SOURCE_PUBLIC_KEY = encodeCheck 48 key"
    by (rule exI [of _ ?key]) (simp add: SOURCE_PUBLIC_KEY_encoded [symmetric])
  from t have "isValidStellarAddress stellar_sdk SOURCE_PUBLIC_KEY =
      Inr (\<exists>key. length key = 32 \<and> SOURCE_PUBLIC_KEY = encodeCheck 48 key)"
    by blast
  then have 1: "isValidStellarAddress stellar_sdk SOURCE_PUBLIC_KEY = Inr True"
    using e by simp
  from t have 2: "isValidStellarAddress stellar_sdk [] = Inr False" by blast
  from t l have 3: "isValidStellarAddress stellar_sdk (butlast SOURCE_PUBLIC_KEY) = Inr False"
    by blast
  have "length ?key = 32 \<and> length ([25, 173] :: 8 word list) = 2 \<and>
      [25, 173] \<noteq> calculateChecksum (48 # ?key)"
    using c by simp
  with t have "isValidStellarAddress stellar_sdk (base32_encode ((48 # ?key) @ [25, 173])) = Inr False"
    by blast
  then have 4: "isValidStellarAddress stellar_sdk
      (js ''GDBKSMQZAJ3DBIM55BAWY7I4QSRUHZ3IOJV2YJAVQHWUXMGIDVS5MGNN'') = Inr False"
    by (simp only: wrong_checksum_key)
  from 1 2 l 3 c 4 show ?thesis by blast
qed

text \<open>
  C7. \<^verbatim>\<open>formatAmount\<close> is a function of the module, and each of its calls formats the
  amount that the amount prompt returned. For every amount that the prompt of either
  variant returns, formatting the formatted amount again gives the same string.
\<close>

theorem formatAmount_idempotent_on_prompted_amounts:
  assumes "askAmount operationType w = (Returns amount, w') \<or>
           askAmount_shape w = (Returns amount, w')"
  shows "formatAmount (formatAmount amount) = formatAmount amount"
  using assms askAmount_valid askAmount_shape_valid formatAmount_idem_valid by blast

theorem formatAmount_idempotent_on_prompted_amounts_witness:
  "(\<exists>w'. askAmount payment (example_world (js ''42'') [js ''12.5'']) = (Returns (js ''12.5''), w')) \<and>
   formatAmount (formatAmount (js ''12.5'')) = formatAmount (js ''12.5'') \<and>
   formatAmount (js ''12.5'') = js ''12.5000000''"
proof -
  have p: "parseFloat (js ''12.5'') = Fin (25 / 2)"
    by (simp add: string_eval number_eval parse_eval)
  have t: "trim (js ''12.5'') = js ''12.5''" by (simp add: string_eval)
  have r: "askAmount payment (example_world (js ''42'') [js ''12.5'']) =
      (Returns (js ''12.5''),
       (example_world (js ''42'') [js ''12.5''])\<lparr>answers := [],
          console := console (example_world (js ''42'') [js ''12.5'']) @ [js ''Amount (XLM): '']\<rparr>)"
    using askAmount_accept [of "example_world (js ''42'') [js ''12.5'']" "js ''12.5''" "[]" payment]
    by (simp add: t p isNaN_def Number_lessEqual_def example_world_def)
  then have "formatAmount (formatAmount (js ''12.5'')) = formatAmount (js ''12.5'')"
    using formatAmount_idempotent_on_prompted_amounts [of payment _ "js ''12.5''"] by blast
  moreover have "formatAmount (js ''12.5'') = js ''12.5000000''"
    unfolding formatAmount_def p by (simp add: fixedDigits_def string_eval Let_def)
  ultimately show ?thesis using r by blast
qed

text \<open>
  C8. When the destination lookup fails with an error whose status is not 404 (for
  example, no response at all), \<^verbatim>\<open>checkDestinationAccountExists\<close> returns true, and a
  transaction that is built carries a payment, whether or not the destination exists.
\<close>

theorem other_lookup_errors_give_payment:
  assumes "status e \<noteq> Some 404"
  shows "(failures v (requests v) = Some e \<longrightarrow>
            fst (checkDestinationAccountExists server destination v) = Returns True) \<and>
         (failures w (requests w + 2) = Some e \<and>
          buildStellarTransaction sdk config h w = (Returns data, w') \<longrightarrow>
            tx_operations (data_transaction data) =
              [Payment (details_destination (data_details data)) Native
                 (details_amount (data_details data))])"
proof (intro conjI impI)
  assume "failures v (requests v) = Some e"
  with assms have "\<not> answered_404 v server destination"
    by (simp add: answered_404_def)
  then show "fst (checkDestinationAccountExists server destination v) = Returns True"
    by (simp add: checkDestinationAccountExists_eq)
next
  assume h: "failures w (requests w + 2) = Some e \<and>
    buildStellarTransaction sdk config h w = (Returns data, w')"
  with assms have "\<not> answered_404 (w\<lparr>requests := requests w + 2\<rparr>) (horizon config)
      (details_destination (data_details data))"
    by (simp add: answered_404_def)
  with build_operation [of sdk config h w data w'] h
  show "tx_operations (data_transaction data) =
      [Payment (details_destination (data_details data)) Native
         (details_amount (data_details data))]"
    by simp
qed

theorem other_lookup_errors_give_payment_witness:
  "status (Error (js ''Network Error'') None) \<noteq> Some 404 \<and>
   failures ((outage_world [])\<lparr>requests := 2\<rparr>) (requests ((outage_world [])\<lparr>requests := 2\<rparr>)) =
     Some (Error (js ''Network Error'') None) \<and>
   fst (checkDestinationAccountExists (horizon TESTNET_CONFIG) STRANGER_PUBLIC_KEY
          ((outage_world [])\<lparr>requests := 2\<rparr>)) = Returns True \<and>
   (\<exists>data w'.
      buildStellarTransaction permissive_sdk TESTNET_CONFIG TESTNET_NETWORK_HASH
        (outage_world [STRANGER_PUBLIC_KEY, js ''5'', js ''5'']) = (Returns data, w') \<and>
      tx_operations (data_transaction data) =
        [Payment STRANGER_PUBLIC_KEY Native (js ''5.0000000'')])"
proof -
  let ?e = "Error (js ''Network Error'') None"
  let ?v = "(outage_world [])\<lparr>requests := 2\<rparr>"
  let ?w = "outage_world [STRANGER_PUBLIC_KEY, js ''5'', js ''5'']"
  let ?run = "buildStellarTransaction permissive_sdk TESTNET_CONFIG TESTNET_NETWORK_HASH ?w"
  have s: "status ?e \<noteq> Some 404" by simp
  have fv: "failures ?v (requests ?v) = Some ?e"
    by (simp add: outage_world_def)
  have fw: "failures ?w (requests ?w + 2) = Some ?e"
    by (simp add: outage_world_def example_world_def)
  have e: "(case fst ?run of
      Returns d \<Rightarrow> details_destination (data_details d) = STRANGER_PUBLIC_KEY \<and>
                   details_amount (data_details d) = js ''5.0000000''
    | _ \<Rightarrow> False)"
    by (simp add: run_eval sequence_42)
  then obtain data w' where r: "?run = (Returns data, w')"
    and dd: "details_destination (data_details data) = STRANGER_PUBLIC_KEY"
    and da: "details_amount (data_details data) = js ''5.0000000''"
    by (cases ?run; cases "fst ?run") auto
  note t = other_lookup_errors_give_payment [OF s, where v = ?v and w = ?w
      and server = "horizon TESTNET_CONFIG" and destination = STRANGER_PUBLIC_KEY
      and sdk = permissive_sdk and config = TESTNET_CONFIG and h = TESTNET_NETWORK_HASH
      and data = data and w' = w']
  from t fv have c1: "fst (checkDestinationAccountExists (horizon TESTNET_CONFIG) STRANGER_PUBLIC_KEY ?v)
      = Returns True"
    by blast
  from t fw r have "tx_operations (data_transaction data) =
      [Payment (details_destination (data_details data)) Native (details_amount (data_details data))]"
    by blast
  then have c2: "tx_operations (data_transaction data) =
      [Payment STRANGER_PUBLIC_KEY Native (js ''5.0000000'')]"
    by (simp only: dd da)
  from s fv c1 r c2 show ?thesis by blast
qed

text \<open>
  C9, as the claim states it: an amount such as \<^verbatim>\<open>0.00000001\<close> passes the validation
  and is formatted as \<^verbatim>\<open>0.0000000\<close>, so that the payment that is built carries a zero
  amount. The amount passes and is formatted so; but in the run below no payment is
  built: the SDK refuses the amount and the build fails.
\<close>

theorem zero_amount_payment_is_refused_counterexample:
  "fst (askAmount payment (example_world (js ''42'') [js ''0.00000001'', js ''5''])) =
     Returns (js ''0.00000001'') \<and>
   formatAmount (js ''0.00000001'') = js ''0.0000000'' \<and>
   fst (buildStellarTransaction stellar_sdk TESTNET_CONFIG TESTNET_NETWORK_HASH
          (example_world (js ''42'') [FRIEND_PUBLIC_KEY, js ''0.00000001'', js ''5''])) =
     Throws (Error (js ''Failed to build transaction: amount argument must be of type String, represent a positive number and have at most 7 digits after the decimal'') None)"
proof -
  let ?w = "example_world (js ''42'') [FRIEND_PUBLIC_KEY, js ''0.00000001'', js ''5'']"
  have v: "\<not> isNaN (parseFloat (trim (js ''0.00000001'')))"
    "\<not> Number_lessEqual (parseFloat (trim (js ''0.00000001''))) (Fin 0)"
    by (simp_all add: trim_tiny parseFloat_tiny isNaN_def Number_lessEqual_def)
  have 1: "fst (askAmount payment (example_world (js ''42'') [js ''0.00000001'', js ''5''])) =
      Returns (js ''0.00000001'')"
    using askAmount_accept [of "example_world (js ''42'') [js ''0.00000001'', js ''5'']"
        "js ''0.00000001''" "[js ''5'']" payment] v
    by (simp add: example_world_fields trim_tiny)
  have 3: "fst (buildStellarTransaction stellar_sdk TESTNET_CONFIG TESTNET_NETWORK_HASH ?w) =
      Throws (Error (js ''Failed to build transaction: amount argument must be of type String, represent a positive number and have at most 7 digits after the decimal'') None)"
    using payment_run [of ?w FRIEND_PUBLIC_KEY "js ''0.00000001''" "js ''5''" "[]" TESTNET_CONFIG
        "\<lparr>accountId = SOURCE_PUBLIC_KEY, sequence = js ''42''\<rparr>" stellar_sdk TESTNET_NETWORK_HASH] v
    by (simp add: example_world_fields stellar_sdk_fields trim_keys trim_tiny trim_small
        fromPublicKey_keys formatAmount_tiny isValidAmount_examples refusal_message)
  from 1 formatAmount_tiny 3 show ?thesis by blast
qed

text \<open>
  C9, amended: an amount whose parsed value lies strictly between 0 and 0.00000005 passes
  the amount prompt of a payment and is formatted as \<^verbatim>\<open>0.0000000\<close>. In a run where it
  is the amount typed (every request is answered, the destination typed is accepted and
  its lookup is not answered with 404, no memo is chosen), the payment that the program
  hands to the SDK has that amount: when the SDK refuses it the run throws
  \<^verbatim>\<open>Failed to build transaction: \<close> followed by the message of the SDK, and only when
  the SDK accepts it is a transaction with a payment of \<^verbatim>\<open>0.0000000\<close> returned.
\<close>

theorem tiny_amount_is_handed_to_payment_as_zero:
  assumes amt: "parseFloat (trim a) = Fin x" "0 < x" "x < 5 / 10 ^ 8"
    and ans: "answers w = d # a # m # rest"
    and src: "failures w (requests w) = None" "failures w (requests w + 1) = None"
      "accounts w (horizon config) SOURCE_PUBLIC_KEY = Some sa"
    and dst: "\<not> answered_404 (w\<lparr>requests := requests w + 2\<rparr>) (horizon config) (trim d)"
    and key: "Keypair_fromPublicKey sdk (trim d) = None"
    and memo: "trim m = js ''5''"
  shows "fst (askAmount payment (w\<lparr>answers := a # m # rest\<rparr>)) = Returns (trim a) \<and>
     formatAmount (trim a) = js ''0.0000000'' \<and>
     fst (buildStellarTransaction sdk config h w) =
       (let operation = Payment (trim d) Native (js ''0.0000000'');
            tx = \<lparr>tx_source = sa, tx_fee = js ''100'',
                  tx_networkPassphrase = passphrase config,
                  tx_operations = [operation], tx_timeout = 0, tx_memo = None\<rparr>
        in case Operation_validate sdk operation of
             Some e \<Rightarrow> Throws (Error (js ''Failed to build transaction: '' @ message e) None)
           | None \<Rightarrow>
               (case TransactionBuilder_build sdk tx of
                  Inl e \<Rightarrow> Throws (Error (js ''Failed to build transaction: '' @ message e) None)
                | Inr account \<Rightarrow>
                    Returns
                      \<lparr>data_xdr = Transaction_toXDR sdk tx,
                       data_networkHash = h,
                       data_transaction = tx,
                       data_details =
                         \<lparr>details_source = SOURCE_PUBLIC_KEY,
                          details_destination = trim d,
                          details_amount = js ''0.0000000'',
                          details_memo = None,
                          details_fee = js ''0.00001'',
                          details_sequence =
                            NumberToString (Number_add (parseInt (sequence account)) (Fin 1))\<rparr>\<rparr>))"
proof -
  have v: "\<not> isNaN (parseFloat (trim a))" "\<not> Number_lessEqual (parseFloat (trim a)) (Fin 0)"
    using amt by (simp_all add: isNaN_def Number_lessEqual_def)
  have f: "formatAmount (trim a) = js ''0.0000000''"
    using amt toFixed_tiny [of x] by (simp add: formatAmount_def)
  have p: "fst (askAmount payment (w\<lparr>answers := a # m # rest\<rparr>)) = Returns (trim a)"
    using askAmount_accept [of "w\<lparr>answers := a # m # rest\<rparr>" a "m # rest" payment] v by simp
  note r = payment_run [OF ans src dst key v memo, of h, unfolded f]
  from p f r show ?thesis by (intro conjI)
qed

theorem tiny_amount_is_handed_to_payment_as_zero_witness:
  "parseFloat (trim (js ''0.00000001'')) = Fin (3022314549036573 / 302231454903657293676544) \<and>
   (0::real) < 3022314549036573 / 302231454903657293676544 \<and>
   (3022314549036573 / 302231454903657293676544 :: real) < 5 / 10 ^ 8 \<and>
   Keypair_fromPublicKey stellar_sdk (trim FRIEND_PUBLIC_KEY) = None \<and>
   \<not> answered_404
      ((example_world (js ''42'') [FRIEND_PUBLIC_KEY, js ''0.00000001'', js ''5''])\<lparr>requests := 2\<rparr>)
      (horizon TESTNET_CONFIG) (trim FRIEND_PUBLIC_KEY) \<and>
   Operation_validate stellar_sdk (Payment FRIEND_PUBLIC_KEY Native (js ''0.0000000'')) =
     Some (Error (js ''amount argument must be of type String, represent a positive number and have at most 7 digits after the decimal'') None) \<and>
   fst (buildStellarTransaction stellar_sdk TESTNET_CONFIG TESTNET_NETWORK_HASH
          (example_world (js ''42'') [FRIEND_PUBLIC_KEY, js ''0.00000001'', js ''5''])) =
     Throws (Error (js ''Failed to build transaction: '' @
                    js ''amount argument must be of type String, represent a positive number and have at most 7 digits after the decimal'') None)"
proof -
  let ?w = "example_world (js ''42'') [FRIEND_PUBLIC_KEY, js ''0.00000001'', js ''5'']"
  let ?sa = "\<lparr>accountId = SOURCE_PUBLIC_KEY, sequence = js ''42''\<rparr>"
  have p: "parseFloat (trim (js ''0.00000001'')) = Fin (3022314549036573 / 302231454903657293676544)"
    by (simp only: trim_tiny parseFloat_tiny)
  have l: "(0::real) < 3022314549036573 / 302231454903657293676544" by simp
  have u: "(3022314549036573 / 302231454903657293676544 :: real) < 5 / 10 ^ 8" by simp
  have ans: "answers ?w = FRIEND_PUBLIC_KEY # js ''0.00000001'' # js ''5'' # []"
    by (simp add: example_world_fields)
  have s1: "failures ?w (requests ?w) = None" and s2: "failures ?w (requests ?w + 1) = None"
    and s3: "accounts ?w (horizon TESTNET_CONFIG) SOURCE_PUBLIC_KEY = Some ?sa"
    by (simp_all add: example_world_fields)
  have d: "\<not> answered_404 (?w\<lparr>requests := requests ?w + 2\<rparr>) (horizon TESTNET_CONFIG)
      (trim FRIEND_PUBLIC_KEY)"
    by (simp add: example_world_fields trim_keys)
  have d': "\<not> answered_404 (?w\<lparr>requests := 2\<rparr>) (horizon TESTNET_CONFIG) (trim FRIEND_PUBLIC_KEY)"
    by (simp add: example_world_fields trim_keys)
  have k: "Keypair_fromPublicKey stellar_sdk (trim FRIEND_PUBLIC_KEY) = None"
    by (simp add: stellar_sdk_fields trim_keys fromPublicKey_keys)
  have m: "trim (js ''5'') = js ''5''" by (simp add: trim_small)
  have o: "Operation_validate stellar_sdk (Payment FRIEND_PUBLIC_KEY Native (js ''0.0000000'')) =
      Some (Error (js ''amount argument must be of type String, represent a positive number and have at most 7 digits after the decimal'') None)"
    by (simp add: stellar_sdk_fields isValidAmount_examples)
  from tiny_amount_is_handed_to_payment_as_zero [OF p l u ans s1 s2 s3 d k m, of TESTNET_NETWORK_HASH]
  have "fst (buildStellarTransaction stellar_sdk TESTNET_CONFIG TESTNET_NETWORK_HASH ?w) =
      Throws (Error (js ''Failed to build transaction: '' @
        js ''amount argument must be of type String, represent a positive number and have at most 7 digits after the decimal'') None)"
    by (simp add: trim_keys o)
  with p l u k d' o show ?thesis by blast
qed

text \<open>
  No run with \<open>stellar_sdk\<close> returns a transaction with a payment of \<^verbatim>\<open>0.0000000\<close>.
\<close>

lemma stellar_sdk_builds_no_zero_payment:
  assumes "buildStellarTransaction stellar_sdk config h w = (Returns data, w')"
  shows "tx_operations (data_transaction data) \<noteq> [Payment d Native (js ''0.0000000'')]"
  using built_operation_accepted [OF assms]
  by (auto simp: stellar_sdk_fields isValidAmount_examples)

text \<open>
  C10, as the claim states it: in the variant that infers the memo type, every non-empty
  memo string that is not made of at most 19 digits is attached as a TEXT memo, whatever
  its length. In the run below the memo has 38 bytes; it is not attached: the SDK
  refuses it and the build fails.
\<close>

theorem long_text_memo_is_refused_counterexample:
  "LONG_MEMO \<noteq> [] \<and> \<not> list_all isDigit LONG_MEMO \<and> getByteLength LONG_MEMO = 38 \<and>
   fst (buildStellarTransaction_shape stellar_sdk
          (example_world (js ''42'') [FRIEND_PUBLIC_KEY, js ''5'', LONG_MEMO])) =
     Throws (Error (js ''Failed to build transaction: Expects string, array or buffer, max 28 bytes'') None)"
proof -
  have "fst (buildStellarTransaction_shape stellar_sdk
          (example_world (js ''42'') [FRIEND_PUBLIC_KEY, js ''5'', LONG_MEMO])) =
     Throws (Error (js ''Failed to build transaction: Expects string, array or buffer, max 28 bytes'') None)"
    by (simp add: shape_run [OF shape_example_hypotheses] trim_LONG_MEMO LONG_MEMO_shape
        stellar_sdk_fields refusal_message)
  then show ?thesis by (simp add: LONG_MEMO_shape)
qed

text \<open>
  C10, amended: in the variant that infers the memo type, in a run where the source
  account is loaded and the destination, the amount and the payment are accepted, the
  trimmed third answer decides the memo: none when it is empty; the ID constructor of
  the SDK is called with it when it consists of at most 19 decimal digits; otherwise the
  TEXT constructor is called with it, and the program checks no length. The run returns
  the transaction with that memo when the SDK accepts memo and build, and otherwise
  throws \<^verbatim>\<open>Failed to build transaction: \<close> followed by the message of the SDK.
\<close>

theorem shape_variant_memo_constructor:
  assumes ans: "answers w = d # a # m # rest"
    and src: "failures w (requests w) = None"
      "accounts w (horizon TESTNET_CONFIG) SOURCE_PUBLIC_KEY = Some sa"
    and key: "Keypair_fromPublicKey sdk (trim d) = None"
    and amt: "\<not> isNaN (parseFloat (trim a))" "\<not> Number_lessEqual (parseFloat (trim a)) (Fin 0)"
    and op: "Operation_validate sdk (Payment (trim d) Native (formatAmount (trim a))) = None"
  shows "fst (buildStellarTransaction_shape sdk w) =
     (let memo = (if trim m = [] then None
                  else if list_all isDigit (trim m) \<and> length (trim m) \<le> 19
                       then Some (Memo MemoId (trim m))
                       else Some (Memo MemoText (trim m)));
          tx = \<lparr>tx_source = sa, tx_fee = js ''100'',
                tx_networkPassphrase = passphrase TESTNET_CONFIG,
                tx_operations = [Payment (trim d) Native (formatAmount (trim a))],
                tx_timeout = 30, tx_memo = memo\<rparr>
      in case (case memo of None \<Rightarrow> None | Some x \<Rightarrow> Memo_validate sdk x) of
           Some e \<Rightarrow>
             Throws (if status e = Some 404
                     then Error (js ''Source account '' @ SOURCE_PUBLIC_KEY @
                                 js '' not found on testnet. Fund it first!'') None
                     else Error (js ''Failed to build transaction: '' @ message e) None)
         | None \<Rightarrow>
             (case TransactionBuilder_build sdk tx of
                Inl e \<Rightarrow>
                  Throws (if status e = Some 404
                          then Error (js ''Source account '' @ SOURCE_PUBLIC_KEY @
                                      js '' not found on testnet. Fund it first!'') None
                          else Error (js ''Failed to build transaction: '' @ message e) None)
              | Inr account \<Rightarrow>
                  Returns
                    \<lparr>data_xdr = Transaction_toXDR sdk tx,
                     data_networkHash = TESTNET_NETWORK_HASH,
                     data_transaction = tx,
                     data_details =
                       \<lparr>details_source = SOURCE_PUBLIC_KEY,
                        details_destination = trim d,
                        details_amount = formatAmount (trim a),
                        details_memo = (if trim m = [] then None else Some (trim m)),
                        details_fee = js ''0.00001'',
                        details_sequence =
                          NumberToString (Number_add (parseInt (sequence account)) (Fin 1))\<rparr>\<rparr>))"
  using assms by (rule shape_run)

theorem shape_variant_memo_constructor_witness:
  "answers (example_world (js ''42'') [FRIEND_PUBLIC_KEY, js ''5'', js ''12345'']) =
     FRIEND_PUBLIC_KEY # js ''5'' # js ''12345'' # [] \<and>
   failures (example_world (js ''42'') [FRIEND_PUBLIC_KEY, js ''5'', js ''12345''])
     (requests (example_world (js ''42'') [FRIEND_PUBLIC_KEY, js ''5'', js ''12345''])) = None \<and>
   accounts (example_world (js ''42'') [FRIEND_PUBLIC_KEY, js ''5'', js ''12345''])
     (horizon TESTNET_CONFIG) SOURCE_PUBLIC_KEY =
     Some \<lparr>accountId = SOURCE_PUBLIC_KEY, sequence = js ''42''\<rparr> \<and>
   Keypair_fromPublicKey stellar_sdk (trim FRIEND_PUBLIC_KEY) = None \<and>
   \<not> isNaN (parseFloat (trim (js ''5''))) \<and>
   \<not> Number_lessEqual (parseFloat (trim (js ''5''))) (Fin 0) \<and>
   Operation_validate stellar_sdk
     (Payment (trim FRIEND_PUBLIC_KEY) Native (formatAmount (trim (js ''5'')))) = None \<and>
   (case fst (buildStellarTransaction_shape stellar_sdk
                (example_world (js ''42'') [FRIEND_PUBLIC_KEY, js ''5'', js ''12345''])) of
      Returns data \<Rightarrow> tx_memo (data_transaction data) = Some (Memo MemoId (js ''12345''))
    | _ \<Rightarrow> False) \<and>
   (case fst (buildStellarTransaction_shape stellar_sdk
                (example_world (js ''42'') [FRIEND_PUBLIC_KEY, js ''5'', js ''thanks''])) of
      Returns data \<Rightarrow> tx_memo (data_transaction data) = Some (Memo MemoText (js ''thanks''))
    | _ \<Rightarrow> False) \<and>
   (case fst (buildStellarTransaction_shape stellar_sdk
                (example_world (js ''42'') [FRIEND_PUBLIC_KEY, js ''5'', []])) of
      Returns data \<Rightarrow> tx_memo (data_transaction data) = None
    | _ \<Rightarrow> False)"
proof -
  note h = shape_example_hypotheses
  have 1: "(case fst (buildStellarTransaction_shape stellar_sdk
                (example_world (js ''42'') [FRIEND_PUBLIC_KEY, js ''5'', js ''12345''])) of
      Returns data \<Rightarrow> tx_memo (data_transaction data) = Some (Memo MemoId (js ''12345''))
    | _ \<Rightarrow> False)"
    by (simp add: shape_variant_memo_constructor [OF h] memo_examples stellar_sdk_fields Let_def)
  have 2: "(case fst (buildStellarTransaction_shape stellar_sdk
                (example_world (js ''42'') [FRIEND_PUBLIC_KEY, js ''5'', js ''thanks''])) of
      Returns data \<Rightarrow> tx_memo (data_transaction data) = Some (Memo MemoText (js ''thanks''))
    | _ \<Rightarrow> False)"
    by (simp add: shape_variant_memo_constructor [OF h] memo_examples stellar_sdk_fields Let_def)
  have 3: "(case fst (buildStellarTransaction_shape stellar_sdk
                (example_world (js ''42'') [FRIEND_PUBLIC_KEY, js ''5'', []])) of
      Returns data \<Rightarrow> tx_memo (data_transaction data) = None
    | _ \<Rightarrow> False)"
    by (simp add: shape_variant_memo_constructor [OF h] memo_examples stellar_sdk_fields Let_def)
  from shape_example_hypotheses(1-3) [of "js ''12345''"] shape_example_hypotheses(4-7) 1 2 3
  show ?thesis by (intro conjI)
qed

section \<open>The example runs with the checks of the SDK\<close>

text \<open>
  The runs on the displayed sequence number and on the lookup of the destination, which
  the theorems above evaluate with \<open>permissive_sdk\<close>, evaluated with \<open>stellar_sdk\<close>. Its
  \<^verbatim>\<open>build()\<close> increments the sequence number of the source account object before the
  program reads it: for the sequence 9007199254740992 the program reads 9007199254740993
  and the details show 9007199254740992 again; for the sequence 42 they show 44.
\<close>

lemma displayed_sequence_at_2_53_when_build_increments:
  "(case fst (buildStellarTransaction stellar_sdk TESTNET_CONFIG TESTNET_NETWORK_HASH
      (example_world (js ''9007199254740992'') [FRIEND_PUBLIC_KEY, js ''5'', js ''5''])) of
      Returns d \<Rightarrow> details_sequence (data_details d) = js ''9007199254740992''
    | _ \<Rightarrow> False)"
  using payment_run [of "example_world (js ''9007199254740992'') [FRIEND_PUBLIC_KEY, js ''5'', js ''5'']"
      FRIEND_PUBLIC_KEY "js ''5''" "js ''5''" "[]" TESTNET_CONFIG
      "\<lparr>accountId = SOURCE_PUBLIC_KEY, sequence = js ''9007199254740992''\<rparr>" stellar_sdk
      TESTNET_NETWORK_HASH]
  by (simp add: example_world_fields stellar_sdk_fields trim_keys trim_small fromPublicKey_keys
      parseFloat_5 formatAmount_5 isNaN_def Number_lessEqual_def isValidAmount_examples
      sequence_2_53_incremented Let_def)

text \<open>The destination does not exist and the lookup fails without a response: a payment.\<close>

lemma payment_to_missing_account_with_stellar_sdk:
  "(case fst (buildStellarTransaction stellar_sdk TESTNET_CONFIG TESTNET_NETWORK_HASH
      (outage_world [STRANGER_PUBLIC_KEY, js ''5'', js ''5''])) of
      Returns d \<Rightarrow> tx_operations (data_transaction d) =
                    [Payment STRANGER_PUBLIC_KEY Native (js ''5.0000000'')]
    | _ \<Rightarrow> False)"
  by (simp add: stellar_run_eval)

text \<open>The destination does not exist and the lookup is answered with 404: create-account.\<close>

lemma create_account_with_stellar_sdk:
  "(case fst (buildStellarTransaction stellar_sdk TESTNET_CONFIG TESTNET_NETWORK_HASH
      (example_world (js ''42'') [STRANGER_PUBLIC_KEY, js ''5'', js ''5''])) of
      Returns d \<Rightarrow> tx_operations (data_transaction d) =
                    [CreateAccount STRANGER_PUBLIC_KEY (js ''5.0000000'')] \<and>
                   details_sequence (data_details d) = js ''44''
    | _ \<Rightarrow> False)"
  by (simp add: stellar_run_eval)

end
